theory Spec2Isabelle
  imports Complex_Main
begin

section \<open>Ride sharing: the data model of main.cpp\<close>

text \<open>
  The program keeps its objects on the C++ heap and passes pointers around. Each class of
  heap objects (drivers, riders, rides) is a list here, in allocation order; a pointer is
  the index of the object, and an index beyond the list is a null or dangling pointer.
  No object of these classes is deleted while the dispatch service runs. Dereferencing an
  invalid pointer is undefined behaviour in C++; the model makes it the fault
  \<open>InvalidPointer\<close>. The program defines no exception and no error code of its own.

  A C++ \<open>double\<close> that is stored, printed or charged (a coordinate, the length of a ride,
  a fare, a rating) is modelled as a \<open>real\<close>, and the fare arithmetic is exact. The
  nearest-driver search is different: it compares the distances it computes with a running
  minimum that starts at \<open>+infinity\<close>, and what it returns depends on whether a computed
  distance is finite. There the distance is evaluated in binary64 arithmetic, with its
  rounding, overflow to infinity, underflow to zero and NaN (section \<open>Binary64 arithmetic\<close>).
\<close>

datatype VehicleType = BIKE | SEDAN | SUV | AUTO

datatype RideStatus =
    REQUESTED
  | DRIVER_ASSIGNED
  | EN_ROUTE_TO_PICKUP
  | IN_PROGRESS
  | COMPLETED
  | CANCELLED

datatype DriverStatus = AVAILABLE | ON_TRIP | OFFLINE

datatype fault = InvalidPointer | SignedOverflow

type_synonym ref = nat

record Location =
  latitude :: real
  longitude :: real

definition distanceTo :: "Location \<Rightarrow> Location \<Rightarrow> real" where
  "distanceTo this other =
     (let dx = latitude this - latitude other;
          dy = longitude this - longitude other
      in sqrt (dx * dx + dy * dy))"

record User =
  user_id :: int
  name :: string
  phone :: string

record Rider = User +
  rider_location :: Location
  rideHistory :: "ref list"
  discountAmount :: real

definition hasDiscount :: "Rider \<Rightarrow> bool" where
  "hasDiscount r = (discountAmount r > 0)"

record Vehicle =
  plateNumber :: string
  vehicle_type :: VehicleType
  capacity :: int
  farePerKm :: real

text \<open>The \<open>Vehicle*\<close> of a driver: vehicles are never modified, so the object is kept in
  the driver, \<open>None\<close> being the null pointer.\<close>

record Driver = User +
  vehicle :: "Vehicle option"
  driver_location :: Location
  driver_status :: DriverStatus
  rating :: real

record RideRequest =
  request_rider :: ref
  pickup :: Location
  drop_loc :: Location
  request_type :: VehicleType

datatype RideObserver = RiderNotificationService | DriverNotificationService

record Ride =
  ride_id :: string
  ride_rider :: ref
  ride_driver :: "ref option"
  pickupLocation :: Location
  dropLocation :: Location
  requestedType :: VehicleType
  ride_status :: RideStatus
  distanceKm :: real
  fare :: real
  paid :: bool
  observers :: "RideObserver list"

datatype MatchingStrategy = NearestDriverStrategy | BestRatedDriverStrategy

datatype PaymentProcessor = DummyPaymentProcessor

datatype FareCalculator =
    BaseFareCalculator
  | SurgePricingDecorator FareCalculator real
  | DiscountDecorator FareCalculator real

text \<open>What \<open>operator<<\<close> writes for a driver: name, vehicle type, latitude, longitude, rating.\<close>

type_synonym driver_text = "string \<times> VehicleType \<times> real \<times> real \<times> real"

text \<open>One value for each statement of the program that writes to \<open>cout\<close>.\<close>

datatype console_line =
    DriverRegistered driver_text
  | DriverDeregistered driver_text
  | RiderRequests string VehicleType
  | NoAvailableDrivers string
  | RideNotFound string
  | RiderNotification string string RideStatus
  | DriverNotification string string RideStatus
  | ProcessingPayment real string
  | PaymentSuccessful string real
  | PaymentFailed string
  | DriverNowAvailable string
  | RideArchived string

text \<open>The heap, the static counters, the console, and the fields of the one
  \<open>DispatchService\<close> instance.\<close>

record World =
  drivers :: "Driver list"
  riders :: "Rider list"
  rides :: "Ride list"
  idCounter :: int
  rideCounter :: int
  console :: "console_line list"
  availableDrivers :: "ref list"
  ongoingRides :: "string \<rightharpoonup> ref"
  completedRides :: "ref list"
  matchingStrategy :: "MatchingStrategy option"
  paymentProcessor :: PaymentProcessor
  surgeActive :: bool
  surgeMultiplier :: real

definition deref :: "'a list \<Rightarrow> ref \<Rightarrow> fault + 'a" where
  "deref heap p = (if p < length heap then Inr (heap ! p) else Inl InvalidPointer)"

definition fbind :: "fault + 'a \<Rightarrow> ('a \<Rightarrow> fault + 'b) \<Rightarrow> fault + 'b" where
  "fbind m f = (case m of Inl e \<Rightarrow> Inl e | Inr x \<Rightarrow> f x)"

definition cout :: "console_line \<Rightarrow> World \<Rightarrow> World" where
  "cout line w = w\<lparr>console := console w @ [line]\<rparr>"

subsection \<open>Binary64 arithmetic\<close>

text \<open>
  The values of an IEEE 754 binary64 \<open>double\<close>: the finite ones, given by the real they
  denote, the two infinities and NaN. The two zeros are one value here; they compare equal
  and the program never divides. \<open>less_double\<close> is the operator \<open><\<close> on doubles: false
  whenever an operand is NaN, and \<open>+infinity < +infinity\<close> is false.
\<close>

datatype double = Finite real | PlusInfinity | MinusInfinity | NaN

fun less_double :: "double \<Rightarrow> double \<Rightarrow> bool" where
  "less_double NaN y = False"
| "less_double x NaN = False"
| "less_double x MinusInfinity = False"
| "less_double MinusInfinity y = True"
| "less_double PlusInfinity y = False"
| "less_double (Finite x) PlusInfinity = True"
| "less_double (Finite x) (Finite y) = (x < y)"

text \<open>
  Rounding to nearest, ties to even. \<open>quantum x\<close> is the spacing of the doubles around \<open>x\<close>:
  \<open>2\<close> to the power \<open>e - 52\<close> where \<open>2 ^ e \<le> \<bar>x\<bar> < 2 ^ (e + 1)\<close>, and \<open>2 ^ -1074\<close> in the
  subnormal range below \<open>2 ^ -1022\<close>. \<open>binary64 x\<close> is the double the hardware delivers for
  the exact result \<open>x\<close>: the multiple of the quantum nearest to \<open>x\<close>, or an infinity when
  that multiple reaches \<open>2 ^ 1024\<close>. A result smaller than half the smallest subnormal
  becomes zero.
\<close>

definition round_even :: "real \<Rightarrow> int" where
  "round_even t =
     (let n = \<lfloor>t\<rfloor>; r = t - of_int n
      in if r < 1 / 2 then n else if 1 / 2 < r then n + 1 else if even n then n else n + 1)"

definition quantum :: "real \<Rightarrow> real" where
  "quantum x = 2 powi (max \<lfloor>log 2 \<bar>x\<bar>\<rfloor> (- 1022) - 52)"

definition binary64 :: "real \<Rightarrow> double" where
  "binary64 x =
     (if x = 0 then Finite 0
      else let y = of_int (round_even (x / quantum x)) * quantum x
           in if 2 ^ 1024 \<le> \<bar>y\<bar> then (if 0 < x then PlusInfinity else MinusInfinity)
              else Finite y)"

text \<open>The operations \<open>distanceTo\<close> uses. Each rounds its exact result once, as the
  scalar instructions of the machine do (the multiplications and the addition are not fused);
  an infinity minus itself and zero times an infinity are NaN, the square root of a negative
  number is NaN, and NaN propagates.\<close>

fun double_uminus :: "double \<Rightarrow> double" where
  "double_uminus (Finite x) = Finite (- x)"
| "double_uminus PlusInfinity = MinusInfinity"
| "double_uminus MinusInfinity = PlusInfinity"
| "double_uminus NaN = NaN"

fun double_plus :: "double \<Rightarrow> double \<Rightarrow> double" where
  "double_plus (Finite x) (Finite y) = binary64 (x + y)"
| "double_plus NaN y = NaN"
| "double_plus x NaN = NaN"
| "double_plus PlusInfinity MinusInfinity = NaN"
| "double_plus MinusInfinity PlusInfinity = NaN"
| "double_plus PlusInfinity y = PlusInfinity"
| "double_plus MinusInfinity y = MinusInfinity"
| "double_plus (Finite x) y = y"

definition double_minus :: "double \<Rightarrow> double \<Rightarrow> double" where
  "double_minus x y = double_plus x (double_uminus y)"

fun double_times :: "double \<Rightarrow> double \<Rightarrow> double" where
  "double_times (Finite x) (Finite y) = binary64 (x * y)"
| "double_times NaN y = NaN"
| "double_times x NaN = NaN"
| "double_times (Finite x) y = (if x = 0 then NaN else if 0 < x then y else double_uminus y)"
| "double_times x (Finite y) = (if y = 0 then NaN else if 0 < y then x else double_uminus x)"
| "double_times PlusInfinity y = y"
| "double_times MinusInfinity y = double_uminus y"

fun double_sqrt :: "double \<Rightarrow> double" where
  "double_sqrt (Finite x) = (if x < 0 then NaN else binary64 (sqrt x))"
| "double_sqrt PlusInfinity = PlusInfinity"
| "double_sqrt MinusInfinity = NaN"
| "double_sqrt NaN = NaN"

text \<open>\<open>Location::distanceTo\<close> as the machine evaluates it. A coordinate is read at its
  binary64 value: the double nearest to the real, an infinity beyond the range.\<close>

definition distanceTo_binary64 :: "Location \<Rightarrow> Location \<Rightarrow> double" where
  "distanceTo_binary64 this other =
     (let dx = double_minus (binary64 (latitude this)) (binary64 (latitude other));
          dy = double_minus (binary64 (longitude this)) (binary64 (longitude other))
      in double_sqrt (double_plus (double_times dx dx) (double_times dy dy)))"

subsection \<open>Matching strategies\<close>

text \<open>The loop of \<open>NearestDriverStrategy::chooseDriver\<close>, with its two local variables
  \<open>nearest\<close> and \<open>minDistance\<close>; \<open>minDistance\<close> starts at
  \<open>numeric_limits<double>::infinity()\<close>. The vehicle is read only when the status test
  succeeds (\<open>&&\<close> evaluates its right operand only then).\<close>

fun nearest_loop ::
  "Driver list \<Rightarrow> RideRequest \<Rightarrow> ref list \<Rightarrow> ref option \<Rightarrow> double \<Rightarrow> fault + ref option"
where
  "nearest_loop heap request [] nearest minDistance = Inr nearest"
| "nearest_loop heap request (d # ds) nearest minDistance =
     (if d < length heap then
        if driver_status (heap ! d) = AVAILABLE then
          (case vehicle (heap ! d) of
             None \<Rightarrow> Inl InvalidPointer
           | Some v \<Rightarrow>
               if vehicle_type v = request_type request then
                 (let dist = distanceTo_binary64 (driver_location (heap ! d)) (pickup request)
                  in if less_double dist minDistance
                     then nearest_loop heap request ds (Some d) dist
                     else nearest_loop heap request ds nearest minDistance)
               else nearest_loop heap request ds nearest minDistance)
        else nearest_loop heap request ds nearest minDistance
      else Inl InvalidPointer)"

text \<open>The loop of \<open>BestRatedDriverStrategy::chooseDriver\<close>, with \<open>best\<close> and \<open>bestRating\<close>.\<close>

fun best_loop ::
  "Driver list \<Rightarrow> RideRequest \<Rightarrow> ref list \<Rightarrow> ref option \<Rightarrow> real \<Rightarrow> fault + ref option"
where
  "best_loop heap request [] best bestRating = Inr best"
| "best_loop heap request (d # ds) best bestRating =
     (if d < length heap then
        if driver_status (heap ! d) = AVAILABLE then
          (case vehicle (heap ! d) of
             None \<Rightarrow> Inl InvalidPointer
           | Some v \<Rightarrow>
               if vehicle_type v = request_type request then
                 if rating (heap ! d) > bestRating
                 then best_loop heap request ds (Some d) (rating (heap ! d))
                 else best_loop heap request ds best bestRating
               else best_loop heap request ds best bestRating)
        else best_loop heap request ds best bestRating
      else Inl InvalidPointer)"

fun chooseDriver ::
  "MatchingStrategy \<Rightarrow> Driver list \<Rightarrow> RideRequest \<Rightarrow> ref list \<Rightarrow> fault + ref option"
where
  "chooseDriver NearestDriverStrategy heap request candidates =
     nearest_loop heap request candidates None PlusInfinity"
| "chooseDriver BestRatedDriverStrategy heap request candidates =
     best_loop heap request candidates None (- 1)"

text \<open>The test both loops apply to a candidate: status \<open>AVAILABLE\<close> and a vehicle of the
  requested type.\<close>

definition matching :: "Driver list \<Rightarrow> RideRequest \<Rightarrow> ref \<Rightarrow> bool" where
  "matching heap request d =
     (d < length heap \<and> driver_status (heap ! d) = AVAILABLE \<and>
      (case vehicle (heap ! d) of None \<Rightarrow> False
       | Some v \<Rightarrow> vehicle_type v = request_type request))"

text \<open>A candidate the loops can read: a valid pointer and, when the driver is available,
  a vehicle pointer that is not null.\<close>

definition readable :: "Driver list \<Rightarrow> ref \<Rightarrow> bool" where
  "readable heap d =
     (d < length heap \<and> (driver_status (heap ! d) = AVAILABLE \<longrightarrow> vehicle (heap ! d) \<noteq> None))"

text \<open>The distance the nearest-driver search computes for a candidate.\<close>

definition pickup_distance :: "Driver list \<Rightarrow> RideRequest \<Rightarrow> ref \<Rightarrow> double" where
  "pickup_distance heap request d =
     distanceTo_binary64 (driver_location (heap ! d)) (pickup request)"

subsection \<open>Object construction\<close>

text \<open>\<open>User::idCounter\<close> and \<open>RideFactory::rideCounter\<close> are \<open>int\<close>s that only grow;
  incrementing \<open>INT_MAX\<close> is undefined behaviour, the fault \<open>SignedOverflow\<close>.\<close>

definition INT_MAX :: int where
  "INT_MAX = 2147483647"

definition new_Driver ::
  "string \<Rightarrow> string \<Rightarrow> Vehicle option \<Rightarrow> Location \<Rightarrow> real \<Rightarrow> World \<Rightarrow> fault + ref \<times> World"
where
  "new_Driver name0 phone0 vehicle0 loc rating0 w =
     (if idCounter w = INT_MAX then Inl SignedOverflow
      else
        let i = idCounter w + 1;
            this = \<lparr>user_id = i, name = name0, phone = phone0, vehicle = vehicle0,
                    driver_location = loc, driver_status = AVAILABLE, rating = rating0\<rparr>
        in Inr (length (drivers w), w\<lparr>idCounter := i, drivers := drivers w @ [this]\<rparr>))"

definition new_Rider :: "string \<Rightarrow> string \<Rightarrow> Location \<Rightarrow> World \<Rightarrow> fault + ref \<times> World" where
  "new_Rider name0 phone0 loc w =
     (if idCounter w = INT_MAX then Inl SignedOverflow
      else
        let i = idCounter w + 1;
            this = \<lparr>user_id = i, name = name0, phone = phone0, rider_location = loc,
                    rideHistory = [], discountAmount = 0\<rparr>
        in Inr (length (riders w), w\<lparr>idCounter := i, riders := riders w @ [this]\<rparr>))"

text \<open>\<open>std::to_string\<close> on an \<open>int\<close>: decimal digits, a minus sign when negative.\<close>

function digits :: "nat \<Rightarrow> string" where
  "digits n =
     (if n < 10 then [''0123456789'' ! n]
      else digits (n div 10) @ [''0123456789'' ! (n mod 10)])"
  by pat_completeness auto
termination
  by (relation "measure (\<lambda>n. n)") auto

declare digits.simps [simp del]

definition to_string :: "int \<Rightarrow> string" where
  "to_string i = (if i < 0 then CHR ''-'' # digits (nat (- i)) else digits (nat i))"

text \<open>\<open>RideFactory::createRide\<close> with the constructor of \<open>Ride\<close>: the new object goes to
  the end of the ride heap.\<close>

definition createRide :: "RideRequest \<Rightarrow> World \<Rightarrow> fault + ref \<times> World" where
  "createRide request w =
     (if rideCounter w = INT_MAX then Inl SignedOverflow
      else
        let c = rideCounter w + 1;
            rideId = to_string c;
            ride = \<lparr>ride_id = rideId,
                    ride_rider = request_rider request,
                    ride_driver = None,
                    pickupLocation = pickup request,
                    dropLocation = drop_loc request,
                    requestedType = request_type request,
                    ride_status = REQUESTED,
                    distanceKm = distanceTo (pickup request) (drop_loc request),
                    fare = 0,
                    paid = False,
                    observers = []\<rparr>
        in Inr (length (rides w), w\<lparr>rideCounter := c, rides := rides w @ [ride]\<rparr>))"

subsection \<open>Methods of Driver, Rider and Ride\<close>

definition setStatus :: "ref \<Rightarrow> DriverStatus \<Rightarrow> World \<Rightarrow> fault + World" where
  "setStatus this s w =
     fbind (deref (drivers w) this) (\<lambda>d.
       Inr (w\<lparr>drivers := (drivers w)[this := d\<lparr>driver_status := s\<rparr>]\<rparr>))"

text \<open>\<open>operator<<\<close> for a driver reads the vehicle through its pointer.\<close>

definition driver_line :: "Driver \<Rightarrow> fault + driver_text" where
  "driver_line d =
     (case vehicle d of
        None \<Rightarrow> Inl InvalidPointer
      | Some v \<Rightarrow>
          Inr (name d, vehicle_type v, latitude (driver_location d),
               longitude (driver_location d), rating d))"

definition addRideToHistory :: "ref \<Rightarrow> ref \<Rightarrow> World \<Rightarrow> fault + World" where
  "addRideToHistory this ride w =
     fbind (deref (riders w) this) (\<lambda>r.
       Inr (w\<lparr>riders := (riders w)[this := r\<lparr>rideHistory := rideHistory r @ [ride]\<rparr>]\<rparr>))"

definition setDiscountAmount :: "ref \<Rightarrow> real \<Rightarrow> World \<Rightarrow> fault + World" where
  "setDiscountAmount this amt w =
     fbind (deref (riders w) this) (\<lambda>r.
       Inr (w\<lparr>riders := (riders w)[this := r\<lparr>discountAmount := amt\<rparr>]\<rparr>))"

definition attachObserver :: "ref \<Rightarrow> RideObserver \<Rightarrow> World \<Rightarrow> fault + World" where
  "attachObserver this obs w =
     fbind (deref (rides w) this) (\<lambda>r.
       Inr (w\<lparr>rides := (rides w)[this := r\<lparr>observers := observers r @ [obs]\<rparr>]\<rparr>))"

fun onRideStatusChanged :: "RideObserver \<Rightarrow> ref \<Rightarrow> RideStatus \<Rightarrow> World \<Rightarrow> fault + World" where
  "onRideStatusChanged RiderNotificationService ride newStatus w =
     fbind (deref (rides w) ride) (\<lambda>r.
     fbind (deref (riders w) (ride_rider r)) (\<lambda>rd.
       Inr (cout (RiderNotification (name rd) (ride_id r) newStatus) w)))"
| "onRideStatusChanged DriverNotificationService ride newStatus w =
     fbind (deref (rides w) ride) (\<lambda>r.
       case ride_driver r of
         None \<Rightarrow> Inr w
       | Some d \<Rightarrow>
           fbind (deref (drivers w) d) (\<lambda>dr.
             Inr (cout (DriverNotification (name dr) (ride_id r) newStatus) w)))"

text \<open>The loop of \<open>Ride::notifyObservers\<close> over the observers of the ride.\<close>

fun notify_each :: "RideObserver list \<Rightarrow> ref \<Rightarrow> RideStatus \<Rightarrow> World \<Rightarrow> fault + World" where
  "notify_each [] this newStatus w = Inr w"
| "notify_each (obs # rest) this newStatus w =
     (case onRideStatusChanged obs this newStatus w of
        Inl e \<Rightarrow> Inl e
      | Inr w' \<Rightarrow> notify_each rest this newStatus w')"

definition notifyObservers :: "ref \<Rightarrow> RideStatus \<Rightarrow> World \<Rightarrow> fault + World" where
  "notifyObservers this newStatus w =
     fbind (deref (rides w) this) (\<lambda>r. notify_each (observers r) this newStatus w)"

definition updateStatus :: "ref \<Rightarrow> RideStatus \<Rightarrow> World \<Rightarrow> fault + World" where
  "updateStatus this newStatus w =
     fbind (deref (rides w) this) (\<lambda>r.
       notifyObservers this newStatus
         (w\<lparr>rides := (rides w)[this := r\<lparr>ride_status := newStatus\<rparr>]\<rparr>))"

text \<open>\<open>Ride::assignDriver\<close> takes a \<open>Driver*\<close>, which may be null.\<close>

definition assignDriver :: "ref \<Rightarrow> ref option \<Rightarrow> World \<Rightarrow> fault + World" where
  "assignDriver this d w =
     fbind (deref (rides w) this) (\<lambda>r.
       updateStatus this DRIVER_ASSIGNED
         (w\<lparr>rides := (rides w)[this := r\<lparr>ride_driver := d\<rparr>]\<rparr>))"

definition setFare :: "ref \<Rightarrow> real \<Rightarrow> World \<Rightarrow> fault + World" where
  "setFare this f w =
     fbind (deref (rides w) this) (\<lambda>r.
       Inr (w\<lparr>rides := (rides w)[this := r\<lparr>fare := f\<rparr>]\<rparr>))"

definition setPaid :: "ref \<Rightarrow> bool \<Rightarrow> World \<Rightarrow> fault + World" where
  "setPaid this p w =
     fbind (deref (rides w) this) (\<lambda>r.
       Inr (w\<lparr>rides := (rides w)[this := r\<lparr>paid := p\<rparr>]\<rparr>))"

subsection \<open>Fare calculators and the payment processor\<close>

definition BASE_FARE :: real where
  "BASE_FARE = 50"

fun calculate :: "FareCalculator \<Rightarrow> ref \<Rightarrow> World \<Rightarrow> fault + real" where
  "calculate BaseFareCalculator ride w =
     fbind (deref (rides w) ride) (\<lambda>r.
       let distance = distanceKm r
       in case ride_driver r of
            None \<Rightarrow> Inl InvalidPointer
          | Some d \<Rightarrow>
              fbind (deref (drivers w) d) (\<lambda>dr.
                case vehicle dr of
                  None \<Rightarrow> Inl InvalidPointer
                | Some v \<Rightarrow>
                    let perKmRate = farePerKm v
                    in Inr (BASE_FARE + (distance * perKmRate))))"
| "calculate (SurgePricingDecorator wrappedCalculator mult) ride w =
     fbind (calculate wrappedCalculator ride w) (\<lambda>baseFare.
       Inr (baseFare * mult))"
| "calculate (DiscountDecorator wrappedCalculator discount) ride w =
     fbind (calculate wrappedCalculator ride w) (\<lambda>fareBeforeDiscount.
       let finalFare = fareBeforeDiscount - discount
       in Inr (if finalFare < 0 then 0 else finalFare))"

fun processPayment :: "PaymentProcessor \<Rightarrow> ref \<Rightarrow> real \<Rightarrow> World \<Rightarrow> fault + bool \<times> World" where
  "processPayment DummyPaymentProcessor ride amount w =
     fbind (deref (rides w) ride) (\<lambda>r.
       Inr (True, cout (ProcessingPayment amount (ride_id r)) w))"

subsection \<open>DispatchService\<close>

text \<open>The state before any object exists, with the singleton as its constructor leaves it.\<close>

definition World0 :: World where
  "World0 =
     \<lparr>drivers = [], riders = [], rides = [], idCounter = 0, rideCounter = 0, console = [],
      availableDrivers = [], ongoingRides = Map.empty, completedRides = [],
      matchingStrategy = Some NearestDriverStrategy,
      paymentProcessor = DummyPaymentProcessor,
      surgeActive = False, surgeMultiplier = 1\<rparr>"

definition setMatchingStrategy :: "MatchingStrategy option \<Rightarrow> World \<Rightarrow> World" where
  "setMatchingStrategy strategy w = w\<lparr>matchingStrategy := strategy\<rparr>"

definition activateSurge :: "real \<Rightarrow> World \<Rightarrow> World" where
  "activateSurge multiplier w = w\<lparr>surgeActive := True, surgeMultiplier := multiplier\<rparr>"

definition deactivateSurge :: "World \<Rightarrow> World" where
  "deactivateSurge w = w\<lparr>surgeActive := False, surgeMultiplier := 1\<rparr>"

definition registerDriver :: "ref \<Rightarrow> World \<Rightarrow> fault + World" where
  "registerDriver driver w =
     fbind (setStatus driver AVAILABLE w) (\<lambda>w1.
       let w2 = w1\<lparr>availableDrivers := availableDrivers w1 @ [driver]\<rparr>
       in fbind (deref (drivers w2) driver) (\<lambda>d.
          fbind (driver_line d) (\<lambda>line.
            Inr (cout (DriverRegistered line) w2))))"

text \<open>\<open>erase(remove(begin, end, driver), end)\<close> takes every occurrence out of the vector.\<close>

definition deregisterDriver :: "ref \<Rightarrow> World \<Rightarrow> fault + World" where
  "deregisterDriver driver w =
     fbind (setStatus driver OFFLINE w) (\<lambda>w1.
       let w2 = w1\<lparr>availableDrivers := removeAll driver (availableDrivers w1)\<rparr>
       in fbind (deref (drivers w2) driver) (\<lambda>d.
          fbind (driver_line d) (\<lambda>line.
            Inr (cout (DriverDeregistered line) w2))))"

definition requestRide ::
  "ref \<Rightarrow> Location \<Rightarrow> Location \<Rightarrow> VehicleType \<Rightarrow> World \<Rightarrow> fault + ref \<times> World"
where
  "requestRide rider pickup0 drop0 type0 w =
     fbind (deref (riders w) rider) (\<lambda>rd.
       let w1 = cout (RiderRequests (name rd) type0) w;
           request = \<lparr>request_rider = rider, pickup = pickup0, drop_loc = drop0,
                       request_type = type0\<rparr>
       in fbind (createRide request w1) (\<lambda>(ride, w2).
          fbind (addRideToHistory rider ride w2) (\<lambda>w3.
          fbind (case matchingStrategy w3 of
                   None \<Rightarrow> Inl InvalidPointer
                 | Some strategy \<Rightarrow>
                     chooseDriver strategy (drivers w3) request (availableDrivers w3))
            (\<lambda>chosen.
               case chosen of
                 None \<Rightarrow>
                   fbind (deref (rides w3) ride) (\<lambda>r.
                   fbind (updateStatus ride CANCELLED (cout (NoAvailableDrivers (ride_id r)) w3))
                     (\<lambda>w4. Inr (ride, w4)))
               | Some chosenDriver \<Rightarrow>
                   fbind (attachObserver ride RiderNotificationService w3) (\<lambda>w4.
                   fbind (attachObserver ride DriverNotificationService w4) (\<lambda>w5.
                   fbind (assignDriver ride (Some chosenDriver) w5) (\<lambda>w6.
                   fbind (setStatus chosenDriver ON_TRIP w6) (\<lambda>w7.
                     let w8 = w7\<lparr>availableDrivers :=
                                    removeAll chosenDriver (availableDrivers w7)\<rparr>
                     in fbind (deref (rides w8) ride) (\<lambda>r.
                          Inr (ride,
                               w8\<lparr>ongoingRides := (ongoingRides w8)(ride_id r \<mapsto> ride)\<rparr>))))))))))"

text \<open>\<open>Rider::requestRide\<close> hands over to the singleton.\<close>

definition Rider_requestRide ::
  "ref \<Rightarrow> Location \<Rightarrow> Location \<Rightarrow> VehicleType \<Rightarrow> World \<Rightarrow> fault + ref \<times> World"
where
  "Rider_requestRide this pickup0 drop0 type0 w = requestRide this pickup0 drop0 type0 w"

definition updateRideStatus :: "string \<Rightarrow> RideStatus \<Rightarrow> World \<Rightarrow> fault + World" where
  "updateRideStatus rideId newStatus w =
     (case ongoingRides w rideId of
        None \<Rightarrow> Inr (cout (RideNotFound rideId) w)
      | Some ride \<Rightarrow> updateStatus ride newStatus w)"

definition completeRide :: "string \<Rightarrow> World \<Rightarrow> fault + World" where
  "completeRide rideId w =
     (case ongoingRides w rideId of
        None \<Rightarrow> Inr (cout (RideNotFound rideId) w)
      | Some ride \<Rightarrow>
          fbind (updateStatus ride COMPLETED w) (\<lambda>w1.
            let calculator = BaseFareCalculator;
                calculator = (if surgeActive w1
                              then SurgePricingDecorator calculator (surgeMultiplier w1)
                              else calculator)
            in fbind (deref (rides w1) ride) (\<lambda>r.
               fbind (deref (riders w1) (ride_rider r)) (\<lambda>rd.
                 let calculator = (if hasDiscount rd
                                   then DiscountDecorator calculator (discountAmount rd)
                                   else calculator)
                 in fbind (calculate calculator ride w1) (\<lambda>finalFare.
                    fbind (setFare ride finalFare w1) (\<lambda>w2.
                    fbind (processPayment (paymentProcessor w2) ride finalFare w2) (\<lambda>(paid0, w3).
                    fbind (if paid0
                           then fbind (setPaid ride True w3) (\<lambda>w4.
                                  Inr (cout (PaymentSuccessful (name rd) finalFare) w4))
                           else Inr (cout (PaymentFailed (ride_id r)) w3)) (\<lambda>w5.
                    fbind (deref (rides w5) ride) (\<lambda>r5.
                      case ride_driver r5 of
                        None \<Rightarrow> Inl InvalidPointer
                      | Some driver \<Rightarrow>
                          fbind (setStatus driver AVAILABLE w5) (\<lambda>w6.
                            let w7 = w6\<lparr>availableDrivers := availableDrivers w6 @ [driver]\<rparr>
                            in fbind (deref (drivers w7) driver) (\<lambda>d.
                                 let w8 = cout (DriverNowAvailable (name d)) w7;
                                     w9 = w8\<lparr>ongoingRides := (ongoingRides w8)(rideId := None),
                                             completedRides := completedRides w8 @ [ride]\<rparr>
                                 in Inr (cout (RideArchived rideId) w9))))))))))))"

subsection \<open>Client programs\<close>

text \<open>What a client such as \<open>main\<close> does: it constructs drivers and riders, sets a rider's
  discount, and calls the public methods of the dispatch service.\<close>

datatype operation =
    NewDriver string string "Vehicle option" Location real
  | NewRider string string Location
  | SetDiscountAmount ref real
  | SetMatchingStrategy "MatchingStrategy option"
  | ActivateSurge real
  | DeactivateSurge
  | RegisterDriver ref
  | DeregisterDriver ref
  | RequestRide ref Location Location VehicleType
  | UpdateRideStatus string RideStatus
  | CompleteRide string

fun step :: "operation \<Rightarrow> World \<Rightarrow> fault + World" where
  "step (NewDriver n p v loc r) w = fbind (new_Driver n p v loc r w) (\<lambda>(d, w'). Inr w')"
| "step (NewRider n p loc) w = fbind (new_Rider n p loc w) (\<lambda>(r, w'). Inr w')"
| "step (SetDiscountAmount r amt) w = setDiscountAmount r amt w"
| "step (SetMatchingStrategy strategy) w = Inr (setMatchingStrategy strategy w)"
| "step (ActivateSurge multiplier) w = Inr (activateSurge multiplier w)"
| "step DeactivateSurge w = Inr (deactivateSurge w)"
| "step (RegisterDriver d) w = registerDriver d w"
| "step (DeregisterDriver d) w = deregisterDriver d w"
| "step (RequestRide r p d t) w = fbind (requestRide r p d t w) (\<lambda>(ride, w'). Inr w')"
| "step (UpdateRideStatus rideId s) w = updateRideStatus rideId s w"
| "step (CompleteRide rideId) w = completeRide rideId w"

fun run :: "operation list \<Rightarrow> World \<Rightarrow> fault + World" where
  "run [] w = Inr w"
| "run (op # ops) w = (case step op w of Inl e \<Rightarrow> Inl e | Inr w' \<Rightarrow> run ops w')"

section \<open>Specification vocabulary\<close>

text \<open>The transition graph as the specification draws it: the chain from \<open>REQUESTED\<close> to
  \<open>COMPLETED\<close>, and \<open>CANCELLED\<close> from every state that is not terminal.\<close>

fun spec_transition :: "RideStatus \<Rightarrow> RideStatus \<Rightarrow> bool" where
  "spec_transition REQUESTED DRIVER_ASSIGNED = True"
| "spec_transition DRIVER_ASSIGNED EN_ROUTE_TO_PICKUP = True"
| "spec_transition EN_ROUTE_TO_PICKUP IN_PROGRESS = True"
| "spec_transition IN_PROGRESS COMPLETED = True"
| "spec_transition COMPLETED CANCELLED = False"
| "spec_transition CANCELLED CANCELLED = False"
| "spec_transition s CANCELLED = True"
| "spec_transition s t = False"

text \<open>\<open>first_least P key ds d\<close>: \<open>d\<close> occurs in \<open>ds\<close> and satisfies \<open>P\<close>, every candidate
  before that occurrence that satisfies \<open>P\<close> has a strictly larger key, and every one after
  it a key at least as large.\<close>

definition first_least :: "(ref \<Rightarrow> bool) \<Rightarrow> (ref \<Rightarrow> real) \<Rightarrow> ref list \<Rightarrow> ref \<Rightarrow> bool" where
  "first_least P key ds d =
     (\<exists>pre post. ds = pre @ d # post \<and> P d \<and>
        (\<forall>e\<in>set pre. P e \<longrightarrow> key d < key e) \<and>
        (\<forall>e\<in>set post. P e \<longrightarrow> key d \<le> key e))"

text \<open>\<open>first_nearest P key ds d\<close>, for distances that are doubles: \<open>d\<close> occurs in \<open>ds\<close>,
  satisfies \<open>P\<close> and has a distance that compares below \<open>+infinity\<close>; every candidate before
  that occurrence that satisfies \<open>P\<close> and has such a distance is strictly farther, and none
  after it that satisfies \<open>P\<close> is nearer.\<close>

definition first_nearest :: "(ref \<Rightarrow> bool) \<Rightarrow> (ref \<Rightarrow> double) \<Rightarrow> ref list \<Rightarrow> ref \<Rightarrow> bool" where
  "first_nearest P key ds d =
     (\<exists>pre post. ds = pre @ d # post \<and> P d \<and> less_double (key d) PlusInfinity \<and>
        (\<forall>e\<in>set pre. P e \<and> less_double (key e) PlusInfinity \<longrightarrow>
           less_double (key d) (key e)) \<and>
        (\<forall>e\<in>set post. P e \<longrightarrow> \<not> less_double (key e) (key d)))"

text \<open>The doubles a distance can be: a finite one that is not negative, \<open>+infinity\<close> or NaN.\<close>

fun distance_value :: "double \<Rightarrow> bool" where
  "distance_value (Finite x) = (0 \<le> x)"
| "distance_value PlusInfinity = True"
| "distance_value MinusInfinity = False"
| "distance_value NaN = True"

definition neg_rating :: "Driver list \<Rightarrow> ref \<Rightarrow> real" where
  "neg_rating heap d = - rating (heap ! d)"

text \<open>The pointers the observers of a ride follow when they are notified: the rider-facing
  observer reads the rider, the driver-facing one reads the driver when one is set.\<close>

definition notifiable :: "World \<Rightarrow> Ride \<Rightarrow> bool" where
  "notifiable w r =
     ((RiderNotificationService \<in> set (observers r) \<longrightarrow> ride_rider r < length (riders w)) \<and>
      (DriverNotificationService \<in> set (observers r) \<longrightarrow>
         (case ride_driver r of None \<Rightarrow> True | Some d \<Rightarrow> d < length (drivers w))))"

section \<open>Example objects\<close>

definition origin :: Location where
  "origin = \<lparr>latitude = 0, longitude = 0\<rparr>"

definition uptown :: Location where
  "uptown = \<lparr>latitude = 3, longitude = 4\<rparr>"

definition sedan :: Vehicle where
  "sedan = \<lparr>plateNumber = ''KA-01-1234'', vehicle_type = SEDAN, capacity = 4, farePerKm = 15\<rparr>"

definition suv :: Vehicle where
  "suv = \<lparr>plateNumber = ''KA-02-1122'', vehicle_type = SUV, capacity = 6, farePerKm = 20\<rparr>"

definition alice :: Driver where
  "alice = \<lparr>user_id = 1, name = ''Alice'', phone = ''9999990001'', vehicle = Some sedan,
            driver_location = origin, driver_status = AVAILABLE, rating = 4\<rparr>"

definition bob :: Driver where
  "bob = \<lparr>user_id = 2, name = ''Bob'', phone = ''9999990002'', vehicle = Some sedan,
          driver_location = uptown, driver_status = AVAILABLE, rating = 5\<rparr>"

definition charlie :: Driver where
  "charlie = \<lparr>user_id = 3, name = ''Charlie'', phone = ''9999990003'', vehicle = Some suv,
              driver_location = origin, driver_status = AVAILABLE, rating = 3\<rparr>"

definition dave :: Driver where
  "dave = \<lparr>user_id = 4, name = ''Dave'', phone = ''9999990004'', vehicle = Some sedan,
           driver_location = origin, driver_status = AVAILABLE, rating = 5\<rparr>"

definition sedan_request :: RideRequest where
  "sedan_request = \<lparr>request_rider = 0, pickup = origin, drop_loc = uptown, request_type = SEDAN\<rparr>"

definition outcast :: Driver where
  "outcast = \<lparr>user_id = 5, name = ''Mallory'', phone = ''9999990005'', vehicle = Some sedan,
              driver_location = origin, driver_status = AVAILABLE, rating = - 1\<rparr>"

text \<open>A sedan driver so far north that the square of the difference of latitudes exceeds
  the largest double, and one so close to the origin that this square is below the smallest
  positive double.\<close>

definition grace :: Driver where
  "grace = \<lparr>user_id = 6, name = ''Grace'', phone = ''9999990006'', vehicle = Some sedan,
            driver_location = \<lparr>latitude = 2 ^ 700, longitude = 0\<rparr>,
            driver_status = AVAILABLE, rating = 4\<rparr>"

definition heidi :: Driver where
  "heidi = \<lparr>user_id = 7, name = ''Heidi'', phone = ''9999990007'', vehicle = Some sedan,
            driver_location = \<lparr>latitude = 2 powi (- 600), longitude = 0\<rparr>,
            driver_status = AVAILABLE, rating = 4\<rparr>"

text \<open>A sedan driver and a request whose latitudes are beyond the range of the doubles,
  so that both are read as \<open>+infinity\<close>.\<close>

definition ivan :: Driver where
  "ivan = \<lparr>user_id = 8, name = ''Ivan'', phone = ''9999990008'', vehicle = Some sedan,
           driver_location = \<lparr>latitude = 2 ^ 1024, longitude = 0\<rparr>,
           driver_status = AVAILABLE, rating = 4\<rparr>"

definition polar_request :: RideRequest where
  "polar_request =
     \<lparr>request_rider = 0, pickup = \<lparr>latitude = 2 ^ 1024, longitude = 0\<rparr>, drop_loc = origin,
      request_type = SEDAN\<rparr>"

definition eve :: Rider where
  "eve = \<lparr>user_id = 10, name = ''Eve'', phone = ''8888880001'', rider_location = origin,
          rideHistory = [0], discountAmount = 0\<rparr>"

text \<open>A world with one ride that is over: completed, paid and archived.\<close>

definition finished_ride :: Ride where
  "finished_ride =
     \<lparr>ride_id = ''1'', ride_rider = 0, ride_driver = Some 0, pickupLocation = origin,
      dropLocation = uptown, requestedType = SEDAN, ride_status = COMPLETED, distanceKm = 5,
      fare = 125, paid = True,
      observers = [RiderNotificationService, DriverNotificationService]\<rparr>"

definition finished_world :: World where
  "finished_world =
     World0\<lparr>drivers := [alice, bob], riders := [eve], rides := [finished_ride], idCounter := 3,
            rideCounter := 1, availableDrivers := [1, 0], completedRides := [0]\<rparr>"

text \<open>A world with one ride as \<open>requestRide\<close> has it just before it assigns the driver.\<close>

definition new_ride :: Ride where
  "new_ride =
     \<lparr>ride_id = ''1'', ride_rider = 0, ride_driver = None, pickupLocation = origin,
      dropLocation = uptown, requestedType = SEDAN, ride_status = REQUESTED, distanceKm = 5,
      fare = 0, paid = False,
      observers = [RiderNotificationService, DriverNotificationService]\<rparr>"

definition new_ride_world :: World where
  "new_ride_world =
     World0\<lparr>drivers := [alice, bob], riders := [eve], rides := [new_ride], idCounter := 3,
            rideCounter := 1, availableDrivers := [0, 1]\<rparr>"

text \<open>A world with one ongoing ride of 10 km, driven by Alice.\<close>

definition trip :: Ride where
  "trip =
     \<lparr>ride_id = ''1'', ride_rider = 0, ride_driver = Some 0, pickupLocation = origin,
      dropLocation = uptown, requestedType = SEDAN, ride_status = IN_PROGRESS, distanceKm = 10,
      fare = 0, paid = False,
      observers = [RiderNotificationService, DriverNotificationService]\<rparr>"

definition trip_world :: World where
  "trip_world =
     World0\<lparr>drivers := [alice\<lparr>driver_status := ON_TRIP\<rparr>, bob], riders := [eve], rides := [trip],
            idCounter := 3, rideCounter := 1, availableDrivers := [1],
            ongoingRides := [''1'' \<mapsto> 0]\<rparr>"

text \<open>The world after Alice has been constructed and registered.\<close>

definition registered_world :: World where
  "registered_world =
     World0\<lparr>drivers := [alice], idCounter := 1, availableDrivers := [0],
            console := [DriverRegistered (''Alice'', SEDAN, 0, 0, 4)]\<rparr>"

text \<open>The operations of \<open>main\<close>, in order; the drivers are the pointers 0 to 3, the
  riders 0 and 1.\<close>

definition main_program :: "operation list" where
  "main_program =
     [NewDriver ''Alice'' ''9999990001''
        (Some \<lparr>plateNumber = ''KA-01-1234'', vehicle_type = SEDAN, capacity = 4, farePerKm = 15\<rparr>)
        \<lparr>latitude = 12.9716, longitude = 77.5946\<rparr> 4.8,
      NewDriver ''Bob'' ''9999990002''
        (Some \<lparr>plateNumber = ''KA-01-5678'', vehicle_type = SEDAN, capacity = 4, farePerKm = 15\<rparr>)
        \<lparr>latitude = 12.9750, longitude = 77.5900\<rparr> 4.9,
      NewDriver ''Charlie'' ''9999990003''
        (Some \<lparr>plateNumber = ''KA-02-1122'', vehicle_type = SUV, capacity = 6, farePerKm = 20\<rparr>)
        \<lparr>latitude = 12.9700, longitude = 77.6000\<rparr> 4.7,
      NewDriver ''Dave'' ''9999990004''
        (Some \<lparr>plateNumber = ''KA-02-3344'', vehicle_type = AUTO, capacity = 3, farePerKm = 10\<rparr>)
        \<lparr>latitude = 12.9720, longitude = 77.5950\<rparr> 4.5,
      RegisterDriver 0, RegisterDriver 1, RegisterDriver 2, RegisterDriver 3,
      NewRider ''Eve'' ''8888880001'' \<lparr>latitude = 12.9725, longitude = 77.5930\<rparr>,
      RequestRide 0 \<lparr>latitude = 12.9725, longitude = 77.5930\<rparr>
        \<lparr>latitude = 12.9850, longitude = 77.5950\<rparr> SEDAN,
      UpdateRideStatus ''1'' EN_ROUTE_TO_PICKUP,
      UpdateRideStatus ''1'' IN_PROGRESS,
      ActivateSurge 1.5,
      CompleteRide ''1'',
      SetMatchingStrategy (Some BestRatedDriverStrategy),
      NewRider ''Frank'' ''8888880002'' \<lparr>latitude = 12.9740, longitude = 77.5960\<rparr>,
      RequestRide 1 \<lparr>latitude = 12.9740, longitude = 77.5960\<rparr>
        \<lparr>latitude = 12.9800, longitude = 77.6000\<rparr> SUV,
      UpdateRideStatus ''2'' EN_ROUTE_TO_PICKUP,
      UpdateRideStatus ''2'' IN_PROGRESS,
      CompleteRide ''2'']"

section \<open>Proof vocabulary\<close>

text \<open>The console lines the two observers write.\<close>

fun notification :: "console_line \<Rightarrow> bool" where
  "notification (RiderNotification n i s) = True"
| "notification (DriverNotification n i s) = True"
| "notification l = False"

text \<open>What an observer writes when it is told that the ride \<open>r\<close> has the status \<open>s\<close>: the
  rider-facing observer one line that names the rider; the driver-facing observer one line
  that names the driver when the ride has one, and nothing when it has none.
  \<open>notices w r s\<close> is what the observers of \<open>r\<close> write together, in attachment order.\<close>

fun notice :: "World \<Rightarrow> Ride \<Rightarrow> RideStatus \<Rightarrow> RideObserver \<Rightarrow> console_line list" where
  "notice w r s RiderNotificationService =
     [RiderNotification (name (riders w ! ride_rider r)) (ride_id r) s]"
| "notice w r s DriverNotificationService =
     (case ride_driver r of
        None \<Rightarrow> []
      | Some d \<Rightarrow> [DriverNotification (name (drivers w ! d)) (ride_id r) s])"

definition notices :: "World \<Rightarrow> Ride \<Rightarrow> RideStatus \<Rightarrow> console_line list" where
  "notices w r s = concat (map (notice w r s) (observers r))"

text \<open>\<open>bounded k a b d\<close>: the double \<open>d\<close> is finite and lies between \<open>a * 2 ^ k\<close> and
  \<open>b * 2 ^ k\<close>.\<close>

fun bounded :: "int \<Rightarrow> int \<Rightarrow> int \<Rightarrow> double \<Rightarrow> bool" where
  "bounded k a b (Finite y) = (of_int a * 2 powi k \<le> y \<and> y \<le> of_int b * 2 powi k)"
| "bounded k a b PlusInfinity = False"
| "bounded k a b MinusInfinity = False"
| "bounded k a b NaN = False"


text \<open>The ride \<open>createRide\<close> builds, and the world after \<open>requestRide\<close> has printed its
  heading, taken the next ride number and extended the rider's history.\<close>

definition created :: "World \<Rightarrow> ref \<Rightarrow> Location \<Rightarrow> Location \<Rightarrow> VehicleType \<Rightarrow> Ride" where
  "created w rider p d t =
     \<lparr>ride_id = to_string (rideCounter w + 1), ride_rider = rider, ride_driver = None,
      pickupLocation = p, dropLocation = d, requestedType = t,
      ride_status = REQUESTED, distanceKm = distanceTo p d, fare = 0, paid = False,
      observers = []\<rparr>"

definition booked :: "World \<Rightarrow> ref \<Rightarrow> Location \<Rightarrow> Location \<Rightarrow> VehicleType \<Rightarrow> World" where
  "booked w rider p d t =
     w\<lparr>console := console w @ [RiderRequests (name (riders w ! rider)) t],
       rideCounter := rideCounter w + 1,
       riders := (riders w)[rider := (riders w ! rider)
                     \<lparr>rideHistory := rideHistory (riders w ! rider) @ [length (rides w)]\<rparr>]\<rparr>"

text \<open>The calculator chain \<open>completeRide\<close> builds for a rider.\<close>

definition tariff :: "World \<Rightarrow> Rider \<Rightarrow> FareCalculator" where
  "tariff w rd =
     (let calculator = (if surgeActive w
                        then SurgePricingDecorator BaseFareCalculator (surgeMultiplier w)
                        else BaseFareCalculator)
      in if hasDiscount rd then DiscountDecorator calculator (discountAmount rd) else calculator)"

text \<open>The pointers \<open>completeRide\<close> follows for an ongoing ride: the ride, its rider, its
  driver and the driver's vehicle, and what the observers read.\<close>

definition ride_ready :: "World \<Rightarrow> ref \<Rightarrow> bool" where
  "ride_ready w p =
     (p < length (rides w) \<and> notifiable w (rides w ! p) \<and>
      ride_rider (rides w ! p) < length (riders w) \<and>
      (case ride_driver (rides w ! p) of
         None \<Rightarrow> False
       | Some d \<Rightarrow> d < length (drivers w) \<and> vehicle (drivers w ! d) \<noteq> None))"

text \<open>Every entry of the ongoing-ride registry is such a ride.\<close>

definition registry_ready :: "World \<Rightarrow> bool" where
  "registry_ready w = (\<forall>k p. ongoingRides w k = Some p \<longrightarrow> ride_ready w p)"

text \<open>\<open>extends w w'\<close>: from \<open>w\<close> to \<open>w'\<close> the heaps only grow, no driver changes its
  vehicle, and no ride of \<open>w\<close> changes its rider, its driver or its observers.\<close>

definition extends :: "World \<Rightarrow> World \<Rightarrow> bool" where
  "extends w w' =
     (length (drivers w) \<le> length (drivers w') \<and>
      length (riders w) \<le> length (riders w') \<and>
      length (rides w) \<le> length (rides w') \<and>
      (\<forall>d<length (drivers w). vehicle (drivers w' ! d) = vehicle (drivers w ! d)) \<and>
      (\<forall>p<length (rides w).
          ride_rider (rides w' ! p) = ride_rider (rides w ! p) \<and>
          ride_driver (rides w' ! p) = ride_driver (rides w ! p) \<and>
          observers (rides w' ! p) = observers (rides w ! p)))"

text \<open>The invariant of the pool for a set \<open>T\<close> of drivers: every listed driver is a valid
  pointer with status \<open>AVAILABLE\<close>, and every driver of \<open>T\<close> that is \<open>AVAILABLE\<close> is listed.\<close>

definition pool_inv :: "ref set \<Rightarrow> World \<Rightarrow> bool" where
  "pool_inv T w =
     ((\<forall>d\<in>set (availableDrivers w).
          d < length (drivers w) \<and> driver_status (drivers w ! d) = AVAILABLE) \<and>
      (\<forall>d\<in>T. d < length (drivers w) \<and>
          (driver_status (drivers w ! d) = AVAILABLE \<longrightarrow> d \<in> set (availableDrivers w))))"

text \<open>The driver an operation registers or deregisters.\<close>

fun handled :: "operation \<Rightarrow> ref set" where
  "handled (RegisterDriver d) = {d}"
| "handled (DeregisterDriver d) = {d}"
| "handled op = {}"

text \<open>Alice and Bob constructed, Alice registered.\<close>

definition two_drivers_world :: World where
  "two_drivers_world =
     World0\<lparr>drivers := [alice, bob], idCounter := 2, availableDrivers := [0],
            console := [DriverRegistered (''Alice'', SEDAN, 0, 0, 4)]\<rparr>"

text \<open>Alice and Bob constructed and registered, Alice deregistered again.\<close>

definition offline_world :: World where
  "offline_world =
     World0\<lparr>drivers := [alice\<lparr>driver_status := OFFLINE\<rparr>, bob], idCounter := 2,
            availableDrivers := [1],
            console := [DriverRegistered (''Alice'', SEDAN, 0, 0, 4),
                        DriverRegistered (''Bob'', SEDAN, 3, 4, 5),
                        DriverDeregistered (''Alice'', SEDAN, 0, 0, 4)]\<rparr>"

section \<open>Basic facts\<close>

lemmas example_defs = origin_def uptown_def sedan_def suv_def alice_def bob_def charlie_def
  dave_def sedan_request_def

lemma fbind_Inr_iff: "fbind m f = Inr y \<longleftrightarrow> (\<exists>x. m = Inr x \<and> f x = Inr y)"
  by (cases m) (simp_all add: fbind_def)

lemma fbind_Inr [simp]: "fbind (Inr x) f = f x"
  by (simp add: fbind_def)

lemma fbind_Inl [simp]: "fbind (Inl e) f = Inl e"
  by (simp add: fbind_def)

lemma deref_Inr_iff: "deref heap p = Inr x \<longleftrightarrow> p < length heap \<and> x = heap ! p"
  by (auto simp: deref_def)

lemma deref_valid [simp]: "p < length heap \<Longrightarrow> deref heap p = Inr (heap ! p)"
  by (simp add: deref_def)

lemma nth_list_update_any: "j < length xs \<Longrightarrow> xs[i := y] ! j = (if i = j then y else xs ! j)"
  by (cases "i = j") simp_all

lemma digits_two: "digits 2 = ''2''"
  by (simp add: digits.simps)

lemma digits_one: "digits (Suc 0) = ''1''"
  by (simp add: digits.simps)

section \<open>Binary64 arithmetic\<close>

text \<open>Where rounding is exact, where it overflows and where it underflows.\<close>

lemma round_even_of_int [simp]: "round_even (of_int j) = j"
  by (simp add: round_even_def)

lemma quantum_pos [simp]: "0 < quantum x"
  by (simp add: quantum_def)

lemma binary64_exact:
  assumes "x / quantum x = of_int j" and "\<bar>x\<bar> < 2 ^ 1024"
  shows "binary64 x = Finite x"
proof -
  have "of_int j * quantum x = x"
    using assms(1) quantum_pos [of x] by (metis less_numeral_extra(3) nonzero_divide_eq_eq)
  then show ?thesis using assms by (simp add: binary64_def Let_def)
qed

lemma floor_log2:
  assumes "x \<noteq> 0" and "2 powi e \<le> \<bar>x\<bar>" and "\<bar>x\<bar> < 2 powi (e + 1)"
  shows "\<lfloor>log 2 \<bar>x\<bar>\<rfloor> = e"
proof -
  have "0 < \<bar>x\<bar>" using assms(1) by simp
  moreover have "(2::real) powr real_of_int e = 2 powi e" "(2::real) powr (real_of_int e + 1) = 2 powi (e + 1)"
    using powr_real_of_int' [of 2 e] powr_real_of_int' [of 2 "e + 1"] by simp_all
  ultimately show ?thesis
    using assms(2,3) floor_log_eq_powr_iff [of "\<bar>x\<bar>" 2 e] by simp
qed

lemma powi2_less_iff: "(2::real) powi m < 2 powi n \<longleftrightarrow> m < n"
proof
  assume "(2::real) powi m < 2 powi n"
  show "m < n"
  proof (rule ccontr)
    assume "\<not> m < n"
    then have "(2::real) powi n \<le> 2 powi m" by (intro power_int_increasing) simp_all
    with \<open>(2::real) powi m < 2 powi n\<close> show False by simp
  qed
next
  assume "m < n"
  then show "(2::real) powi m < 2 powi n" by (intro power_int_strict_increasing) simp_all
qed

lemma powi2_le_iff: "(2::real) powi m \<le> 2 powi n \<longleftrightarrow> m \<le> n"
  using powi2_less_iff [of n m] by (simp add: not_less [symmetric] del: not_less)

lemma log2_bounds:
  assumes "x \<noteq> 0"
  shows "2 powi \<lfloor>log 2 \<bar>x\<bar>\<rfloor> \<le> \<bar>x\<bar> \<and> \<bar>x\<bar> < 2 powi (\<lfloor>log 2 \<bar>x\<bar>\<rfloor> + 1)"
proof -
  let ?e = "\<lfloor>log 2 \<bar>x\<bar>\<rfloor>"
  have "0 < \<bar>x\<bar>" using assms by simp
  then have "2 powr real_of_int ?e \<le> \<bar>x\<bar> \<and> \<bar>x\<bar> < 2 powr (real_of_int ?e + 1)"
    using floor_log_eq_powr_iff [of "\<bar>x\<bar>" 2 ?e] by simp
  moreover have "(2::real) powr real_of_int ?e = 2 powi ?e"
    "(2::real) powr (real_of_int ?e + 1) = 2 powi (?e + 1)"
    using powr_real_of_int' [of 2 ?e] powr_real_of_int' [of 2 "?e + 1"] by simp_all
  ultimately show ?thesis by simp
qed

lemma binary64_of_int:
  assumes "\<bar>m\<bar> < 2 ^ 53"
  shows "binary64 (of_int m) = Finite (of_int m)"
proof (cases "m = 0")
  case True
  then show ?thesis by (simp add: binary64_def)
next
  case False
  let ?x = "real_of_int m"
  let ?e = "\<lfloor>log 2 \<bar>?x\<bar>\<rfloor>"
  have x: "?x \<noteq> 0" using False by simp
  note b = log2_bounds [OF x]
  have one: "1 \<le> \<bar>?x\<bar>" using False by (simp flip: of_int_abs)
  have big: "\<bar>?x\<bar> < 2 powi 53"
    using assms by (simp flip: of_int_abs)
  have "(2::real) powi ?e < 2 powi 53" using b big by linarith
  then have "?e < 53" by (simp only: powi2_less_iff)
  then have hi: "?e \<le> 52" by simp
  have "(2::real) powi 0 < 2 powi (?e + 1)" using b one by simp
  then have "0 < ?e + 1" by (simp only: powi2_less_iff)
  then have lo: "0 \<le> ?e" by simp
  have q: "quantum ?x = 2 powi (?e - 52)"
    using lo by (simp add: quantum_def)
  have "?x / quantum ?x = ?x * 2 powi (52 - ?e)"
    by (simp add: q power_int_diff field_simps)
  also have "\<dots> = ?x * 2 ^ nat (52 - ?e)"
    using hi by (simp add: power_int_def)
  also have "\<dots> = of_int (m * 2 ^ nat (52 - ?e))" by simp
  finally have "?x / quantum ?x = of_int (m * 2 ^ nat (52 - ?e))" .
  moreover have "\<bar>?x\<bar> < 2 ^ 1024"
  proof -
    have "(2::real) powi 53 < 2 powi 1024" by (simp only: powi2_less_iff)
    moreover have "(2::real) powi 1024 = 2 ^ 1024" by (rule power_int_numeral)
    ultimately show ?thesis using big by linarith
  qed
  ultimately show ?thesis by (rule binary64_exact)
qed

lemma binary64_pow2:
  assumes "- 1074 \<le> k" and "k \<le> 1023"
  shows "binary64 (2 powi k) = Finite (2 powi k)"
proof -
  let ?x = "(2::real) powi k"
  have x: "?x \<noteq> 0" by simp
  have "\<lfloor>log 2 \<bar>?x\<bar>\<rfloor> = k"
    by (rule floor_log2) (simp_all add: powi2_less_iff)
  then have q: "quantum ?x = 2 powi (max k (- 1022) - 52)"
    by (simp add: quantum_def)
  let ?n = "nat (k - (max k (- 1022) - 52))"
  have "?x / quantum ?x = 2 powi (k - (max k (- 1022) - 52))"
    by (simp add: q power_int_diff)
  also have "\<dots> = of_int (2 ^ ?n)"
    using assms by (simp add: power_int_def)
  finally have "?x / quantum ?x = of_int (2 ^ ?n)" .
  moreover have "\<bar>?x\<bar> < 2 ^ 1024"
  proof -
    have "(2::real) powi k < 2 powi 1024"
      using assms by (simp only: powi2_less_iff)
    moreover have "(2::real) powi 1024 = 2 ^ 1024" by (rule power_int_numeral)
    moreover have "\<bar>?x\<bar> = ?x" by simp
    ultimately show ?thesis by linarith
  qed
  ultimately show ?thesis by (rule binary64_exact)
qed

lemma round_even_small:
  assumes "0 \<le> t" and "t < 1 / 2"
  shows "round_even t = 0"
proof -
  have "\<lfloor>t\<rfloor> = 0" using assms by (simp add: floor_eq_iff)
  then show ?thesis using assms by (simp add: round_even_def)
qed

lemma round_even_ge_floor: "\<lfloor>t\<rfloor> \<le> round_even t"
  by (simp add: round_even_def Let_def)

lemma binary64_overflow:
  assumes "2 ^ 1024 \<le> x"
  shows "binary64 x = PlusInfinity"
proof -
  let ?e = "\<lfloor>log 2 \<bar>x\<bar>\<rfloor>"
  let ?r = "round_even (x / quantum x)"
  have p: "(2::real) powi 1024 = 2 ^ 1024" by (rule power_int_numeral)
  have "(0::real) < 2 ^ 1024" by (rule zero_less_power) simp
  then have pos: "0 < x" using assms by linarith
  then have x: "x \<noteq> 0" by simp
  note b = log2_bounds [OF x]
  have "(2::real) powi 1024 < 2 powi (?e + 1)" using b assms pos p by linarith
  then have "1024 < ?e + 1" by (simp only: powi2_less_iff)
  then have e: "1024 \<le> ?e" by simp
  then have q: "quantum x = 2 powi (?e - 52)" by (simp add: quantum_def)
  have s: "2 powi 52 * quantum x = 2 powi ?e"
    using power_int_add [of "2::real" 52 "?e - 52"] by (simp add: q)
  have "2 powi 52 * quantum x \<le> x"
    using b pos by (simp only: s) simp
  then have "2 powi 52 \<le> x / quantum x"
    by (simp add: pos_le_divide_eq del: power_int_numeral)
  moreover have "(2::real) powi 52 = of_int (2 ^ 52)" by simp
  ultimately have "of_int (2 ^ 52) \<le> x / quantum x" by (simp only:)
  then have "(2 ^ 52 :: int) \<le> \<lfloor>x / quantum x\<rfloor>"
    by (simp only: le_floor_iff)
  then have "(2 ^ 52 :: int) \<le> ?r"
    using round_even_ge_floor [of "x / quantum x"] by linarith
  then have "real_of_int (2 ^ 52) \<le> of_int ?r"
    by (simp only: of_int_le_iff)
  then have "real_of_int (2 ^ 52) * quantum x \<le> of_int ?r * quantum x"
    by (rule mult_right_mono) (simp add: less_imp_le)
  moreover have "real_of_int (2 ^ 52) * quantum x = 2 powi ?e"
    using s by simp
  moreover have "(2::real) powi 1024 \<le> 2 powi ?e"
    using e by (simp only: powi2_le_iff)
  ultimately have "2 ^ 1024 \<le> of_int ?r * quantum x"
    using p by linarith
  then have "2 ^ 1024 \<le> \<bar>of_int ?r * quantum x\<bar>"
    by linarith
  then show ?thesis using pos x by (simp only: binary64_def Let_def if_True if_False)
qed

lemma binary64_underflow:
  assumes "0 \<le> x" and "x < 2 powi (- 1075)"
  shows "binary64 x = Finite 0"
proof (cases "x = 0")
  case True
  then show ?thesis by (simp add: binary64_def)
next
  case False
  let ?e = "\<lfloor>log 2 \<bar>x\<bar>\<rfloor>"
  have pos: "0 < x" using False assms by simp
  note b = log2_bounds [OF False]
  have "(2::real) powi ?e < 2 powi (- 1075)" using b assms pos by linarith
  then have e: "?e < - 1075" by (simp only: powi2_less_iff)
  then have q: "quantum x = 2 powi (- 1074)" by (simp add: quantum_def max_def)
  have "(2::real) powi (- 1075) * 2 powi 1 = 2 powi (- 1074)"
    using power_int_add [of "2::real" "- 1075" 1] by (simp del: power_int_numeral_neg_numeral)
  then have h: "(2::real) powi (- 1075) = quantum x / 2"
    by (simp only: q) simp
  have "x / quantum x < 1 / 2"
    using assms(2) quantum_pos [of x] by (simp only: h) (simp add: pos_divide_less_eq)
  moreover have "0 \<le> x / quantum x"
    by (rule divide_nonneg_pos) (use pos in simp_all)
  ultimately have "round_even (x / quantum x) = 0"
    by (simp only: round_even_small)
  then show ?thesis using False by (simp add: binary64_def Let_def)
qed

lemma binary64_zero [simp]: "binary64 0 = Finite 0"
  by (simp add: binary64_def)

lemma binary64_numeral [simp]:
  "(numeral n :: int) < 2 ^ 53 \<Longrightarrow> binary64 (numeral n) = Finite (numeral n)"
  using binary64_of_int [of "numeral n"] by simp

lemma binary64_nonneg:
  assumes "0 \<le> x"
  shows "distance_value (binary64 x)"
proof (cases "x = 0")
  case True
  then show ?thesis by simp
next
  case False
  then have pos: "0 < x" using assms by simp
  have "0 \<le> x / quantum x"
    by (rule divide_nonneg_pos) (use pos in simp_all)
  then have "0 \<le> \<lfloor>x / quantum x\<rfloor>" by simp
  then have "0 \<le> round_even (x / quantum x)"
    using round_even_ge_floor [of "x / quantum x"] by linarith
  then have "0 \<le> real_of_int (round_even (x / quantum x)) * quantum x"
    by (intro mult_nonneg_nonneg) (simp_all add: less_imp_le)
  then show ?thesis using pos by (simp add: binary64_def Let_def)
qed

text \<open>Rounding keeps a result between two multiples of a power of two that enclose it,
  and so do the operations of \<open>distanceTo\<close>.\<close>

lemma round_even_lower: "of_int m \<le> t \<Longrightarrow> m \<le> round_even t"
proof -
  assume "of_int m \<le> t"
  then have "m \<le> \<lfloor>t\<rfloor>" by (simp add: le_floor_iff)
  then show ?thesis using round_even_ge_floor [of t] by linarith
qed

lemma round_even_upper:
  assumes "t \<le> of_int m"
  shows "round_even t \<le> m"
proof -
  have f: "\<lfloor>t\<rfloor> \<le> m" using assms by (simp add: floor_le_iff)
  have "\<lfloor>t\<rfloor> + 1 \<le> m" if "of_int \<lfloor>t\<rfloor> < t"
  proof -
    from that assms have "real_of_int \<lfloor>t\<rfloor> < of_int m" by linarith
    then show ?thesis by simp
  qed
  then show ?thesis using f by (auto simp: round_even_def Let_def)
qed

lemma round_quantum_lower:
  assumes "of_int m * q \<le> x" and "0 < q"
  shows "of_int m * q \<le> of_int (round_even (x / q)) * q"
proof -
  have "of_int m \<le> x / q" using assms by (simp add: pos_le_divide_eq)
  then have "m \<le> round_even (x / q)" by (rule round_even_lower)
  then have "real_of_int m \<le> of_int (round_even (x / q))" by simp
  then show ?thesis using assms(2) by (simp add: mult_right_mono)
qed

lemma round_quantum_upper:
  assumes "x \<le> of_int m * q" and "0 < q"
  shows "of_int (round_even (x / q)) * q \<le> of_int m * q"
proof -
  have "x / q \<le> of_int m" using assms by (simp add: pos_divide_le_eq)
  then have "round_even (x / q) \<le> m" by (rule round_even_upper)
  then have "real_of_int (round_even (x / q)) \<le> of_int m" by simp
  then show ?thesis using assms(2) by (simp add: mult_right_mono)
qed

lemma binary64_between:
  assumes lo: "of_int a * 2 powi k \<le> x" and hi: "x \<le> of_int b * 2 powi k"
    and mag: "\<bar>x\<bar> < 2 powi (k + 53)" and k: "- 1074 \<le> k" "k \<le> 970"
  shows "\<exists>y. binary64 x = Finite y \<and> of_int a * 2 powi k \<le> y \<and> y \<le> of_int b * 2 powi k"
proof (cases "x = 0")
  case True
  then show ?thesis using lo hi by simp
next
  case False
  let ?e = "\<lfloor>log 2 \<bar>x\<bar>\<rfloor>"
  let ?q = "quantum x"
  let ?y = "real_of_int (round_even (x / ?q)) * ?q"
  note b = log2_bounds [OF False]
  have "(2::real) powi ?e < 2 powi (k + 53)" using b mag by linarith
  then have e: "?e < k + 53" by (simp only: powi2_less_iff)
  define c where "c = max ?e (- 1022) - 52"
  have ck: "c \<le> k" using e k by (simp add: c_def)
  have q: "?q = 2 powi c" by (simp add: quantum_def c_def)
  define n where "n = nat (k - c)"
  have "(2::real) powi k = 2 powi (k - c) * 2 powi c"
    using power_int_add [of "2::real" "k - c" c] by simp
  also have "(2::real) powi (k - c) = 2 ^ n"
    using ck by (simp add: power_int_def n_def)
  finally have pk: "(2::real) powi k = of_int (2 ^ n) * ?q" by (simp add: q)
  have "(2::real) powi (k + 53) = 2 powi k * 2 powi 53"
    using power_int_add [of "2::real" k 53] by (simp del: power_int_numeral)
  also have "\<dots> = of_int (2 ^ n * 2 ^ 53) * ?q"
    by (simp add: pk)
  finally have pm: "(2::real) powi (k + 53) = of_int (2 ^ n * 2 ^ 53) * ?q" .
  have la: "of_int (a * 2 ^ n) * ?q \<le> x" using lo by (simp add: pk mult.assoc)
  have ub: "x \<le> of_int (b * 2 ^ n) * ?q" using hi by (simp add: pk mult.assoc)
  have l1: "of_int (a * 2 ^ n) * ?q \<le> ?y"
    using la by (rule round_quantum_lower) simp
  have u1: "?y \<le> of_int (b * 2 ^ n) * ?q"
    using ub by (rule round_quantum_upper) simp
  have "x \<le> of_int (2 ^ n * 2 ^ 53) * ?q" using mag pm by linarith
  then have u2: "?y \<le> of_int (2 ^ n * 2 ^ 53) * ?q"
    by (rule round_quantum_upper) simp
  have "- (of_int (2 ^ n * 2 ^ 53) * ?q) \<le> x" using mag pm by linarith
  then have "of_int (- (2 ^ n * 2 ^ 53)) * ?q \<le> x"
    by (simp only: of_int_minus mult_minus_left)
  then have "of_int (- (2 ^ n * 2 ^ 53)) * ?q \<le> ?y"
    by (rule round_quantum_lower) simp
  then have l2: "- (2 powi (k + 53)) \<le> ?y"
    by (simp only: pm of_int_minus mult_minus_left)
  have u3: "?y \<le> 2 powi (k + 53)" using u2 by (simp only: pm)
  have "(2::real) powi (k + 53) < 2 powi 1024"
    using k by (simp only: powi2_less_iff)
  moreover have "(2::real) powi 1024 = 2 ^ 1024" by (rule power_int_numeral)
  ultimately have "\<bar>?y\<bar> < 2 ^ 1024" using l2 u3 by linarith
  then have "binary64 x = Finite ?y"
    using False by (simp add: binary64_def Let_def)
  moreover have "of_int a * 2 powi k \<le> ?y" using l1 by (simp add: pk mult.assoc)
  moreover have "?y \<le> of_int b * 2 powi k" using u1 by (simp add: pk mult.assoc)
  ultimately show ?thesis by blast
qed

lemma bounded_iff:
  "bounded k a b d \<longleftrightarrow> (\<exists>y. d = Finite y \<and> of_int a * 2 powi k \<le> y \<and> y \<le> of_int b * 2 powi k)"
  by (cases d) simp_all

lemma bounded_binary64:
  assumes lo: "of_int a * 2 powi k \<le> x" and hi: "x \<le> of_int b * 2 powi k"
    and a: "\<bar>a\<bar> < 2 ^ 53" and b: "\<bar>b\<bar> < 2 ^ 53" and k: "- 1074 \<le> k" "k \<le> 970"
  shows "bounded k a b (binary64 x)"
proof -
  have p: "(2::real) powi (k + 53) = 2 ^ 53 * 2 powi k"
    using power_int_add [of "2::real" 53 k] by (simp add: add.commute)
  have pos: "(0::real) < 2 powi k" by simp
  have "real_of_int \<bar>a\<bar> < 2 ^ 53" "real_of_int \<bar>b\<bar> < 2 ^ 53"
    using a b by (metis of_int_less_iff of_int_numeral of_int_power)+
  then have "- (2 ^ 53) < real_of_int a" "real_of_int b < 2 ^ 53"
    by simp_all
  then have "- (2 ^ 53) * 2 powi k < real_of_int a * 2 powi k"
    "real_of_int b * 2 powi k < 2 ^ 53 * 2 powi k"
    using pos by (simp_all only: mult_less_cancel_right_pos)
  then have "- (2 powi (k + 53)) < x" "x < 2 powi (k + 53)"
    using lo hi by (simp_all only: p)
  then have "\<bar>x\<bar> < 2 powi (k + 53)" by linarith
  from binary64_between [OF lo hi this k] show ?thesis
    by (simp add: bounded_iff)
qed

lemma bounded_minus:
  assumes "bounded k a1 b1 X" and "bounded k a2 b2 Y"
    and "\<bar>a1 - b2\<bar> < 2 ^ 53" and "\<bar>b1 - a2\<bar> < 2 ^ 53" and "- 1074 \<le> k" "k \<le> 970"
  shows "bounded k (a1 - b2) (b1 - a2) (double_minus X Y)"
proof -
  from assms(1) obtain x where x: "X = Finite x" "of_int a1 * 2 powi k \<le> x" "x \<le> of_int b1 * 2 powi k"
    by (auto simp: bounded_iff)
  from assms(2) obtain y where y: "Y = Finite y" "of_int a2 * 2 powi k \<le> y" "y \<le> of_int b2 * 2 powi k"
    by (auto simp: bounded_iff)
  have "bounded k (a1 - b2) (b1 - a2) (binary64 (x - y))"
    using x y assms(3-) by (intro bounded_binary64) (simp_all add: algebra_simps)
  then show ?thesis by (simp add: x y double_minus_def)
qed

lemma bounded_plus:
  assumes "bounded k a1 b1 X" and "bounded k a2 b2 Y"
    and "\<bar>a1 + a2\<bar> < 2 ^ 53" and "\<bar>b1 + b2\<bar> < 2 ^ 53" and "- 1074 \<le> k" "k \<le> 970"
  shows "bounded k (a1 + a2) (b1 + b2) (double_plus X Y)"
proof -
  from assms(1) obtain x where x: "X = Finite x" "of_int a1 * 2 powi k \<le> x" "x \<le> of_int b1 * 2 powi k"
    by (auto simp: bounded_iff)
  from assms(2) obtain y where y: "Y = Finite y" "of_int a2 * 2 powi k \<le> y" "y \<le> of_int b2 * 2 powi k"
    by (auto simp: bounded_iff)
  have "bounded k (a1 + a2) (b1 + b2) (binary64 (x + y))"
    using x y assms(3-) by (intro bounded_binary64) (simp_all add: algebra_simps)
  then show ?thesis by (simp add: x y)
qed

lemma powi2_double: "(2::real) powi (2 * k) = 2 powi k * 2 powi k"
  using power_int_add [of "2::real" k k] by simp

lemma powi2_double': "(2::real) powi (k * 2) = 2 powi k * 2 powi k"
  using powi2_double [of k] by (simp add: mult.commute)

lemma bounded_square_pos:
  assumes "bounded k a b X" and "0 \<le> a" and "\<bar>a * a\<bar> < 2 ^ 53" and "\<bar>b * b\<bar> < 2 ^ 53"
    and "- 1074 \<le> 2 * k" "2 * k \<le> 970"
  shows "bounded (2 * k) (a * a) (b * b) (double_times X X)"
proof -
  from assms(1) obtain x where x: "X = Finite x" "of_int a * 2 powi k \<le> x" "x \<le> of_int b * 2 powi k"
    by (auto simp: bounded_iff)
  let ?A = "real_of_int a * 2 powi k" and ?B = "real_of_int b * 2 powi k"
  have na: "0 \<le> ?A" using assms(2) by simp
  have "?A * ?A \<le> x * x"
    using na x by (intro mult_mono) linarith+
  moreover have "x * x \<le> ?B * ?B"
    using na x by (intro mult_mono) linarith+
  ultimately have "?A * ?A \<le> x * x" "x * x \<le> ?B * ?B"
    by simp_all
  then have "bounded (2 * k) (a * a) (b * b) (binary64 (x * x))"
    using assms(3-) by (intro bounded_binary64) (simp_all add: powi2_double powi2_double' algebra_simps)
  then show ?thesis by (simp add: x)
qed

lemma bounded_square_neg:
  assumes "bounded k a b X" and "b \<le> 0" and "\<bar>a * a\<bar> < 2 ^ 53" and "\<bar>b * b\<bar> < 2 ^ 53"
    and "- 1074 \<le> 2 * k" "2 * k \<le> 970"
  shows "bounded (2 * k) (b * b) (a * a) (double_times X X)"
proof -
  from assms(1) obtain x where x: "X = Finite x" "of_int a * 2 powi k \<le> x" "x \<le> of_int b * 2 powi k"
    by (auto simp: bounded_iff)
  let ?A = "real_of_int a * 2 powi k" and ?B = "real_of_int b * 2 powi k"
  have nb: "?B \<le> 0" using assms(2) by (simp add: mult_le_0_iff)
  have "(- ?B) * (- ?B) \<le> (- x) * (- x)"
    using nb x by (intro mult_mono) linarith+
  moreover have "(- x) * (- x) \<le> (- ?A) * (- ?A)"
    using nb x by (intro mult_mono) linarith+
  ultimately have "?B * ?B \<le> x * x" "x * x \<le> ?A * ?A"
    by simp_all
  then have "bounded (2 * k) (b * b) (a * a) (binary64 (x * x))"
    using assms(3-) by (intro bounded_binary64) (simp_all add: powi2_double powi2_double' algebra_simps)
  then show ?thesis by (simp add: x)
qed

lemma bounded_sqrt:
  assumes "bounded (2 * k) a b X" and "0 \<le> a'" and "a' * a' \<le> a" and "0 \<le> b'" and "b \<le> b' * b'"
    and "\<bar>a'\<bar> < 2 ^ 53" and "\<bar>b'\<bar> < 2 ^ 53" and "- 1074 \<le> k" "k \<le> 970"
  shows "bounded k a' b' (double_sqrt X)"
proof -
  from assms(1) obtain x where x: "X = Finite x" "of_int a * 2 powi (2 * k) \<le> x"
      "x \<le> of_int b * 2 powi (2 * k)"
    by (auto simp: bounded_iff)
  let ?l = "of_int a' * (2::real) powi k" and ?u = "of_int b' * (2::real) powi k"
  have nn: "0 \<le> ?l" "0 \<le> ?u" using assms(2,4) by simp_all
  have "real_of_int (a' * a') \<le> of_int a" "real_of_int b \<le> of_int (b' * b')"
    using assms(3,5) by (simp_all only: of_int_le_iff)
  then have m: "real_of_int (a' * a') * 2 powi (2 * k) \<le> of_int a * 2 powi (2 * k)"
    "real_of_int b * 2 powi (2 * k) \<le> of_int (b' * b') * 2 powi (2 * k)"
    by (intro mult_right_mono; simp)+
  have e: "?l * ?l = real_of_int (a' * a') * 2 powi (2 * k)"
    "?u * ?u = real_of_int (b' * b') * 2 powi (2 * k)"
    by (simp_all add: powi2_double powi2_double' mult_ac)
  have "?l * ?l \<le> x" "x \<le> ?u * ?u"
    unfolding e using m x by linarith+
  then have sq: "?l\<^sup>2 \<le> x" "x \<le> ?u\<^sup>2"
    by (simp_all only: power2_eq_square)
  have "0 \<le> ?l\<^sup>2" by (rule zero_le_power2)
  then have x0: "0 \<le> x" using sq(1) by linarith
  have "?l \<le> sqrt x" using sq(1) by (rule real_le_rsqrt)
  moreover have "sqrt x \<le> ?u" using nn(2) sq(2) by (rule real_le_lsqrt)
  ultimately have "?l \<le> sqrt x" "sqrt x \<le> ?u"
    by simp_all
  then have "bounded k a' b' (binary64 (sqrt x))"
    using assms(6-) by (intro bounded_binary64)
  then show ?thesis using x0 by (simp add: x)
qed

lemma less_double_trans: "less_double a b \<Longrightarrow> less_double b c \<Longrightarrow> less_double a c"
  by (cases a; cases b; cases c) simp_all

lemma less_double_bounded: "less_double a b \<Longrightarrow> less_double a PlusInfinity"
  by (cases a; cases b) simp_all

lemma less_double_passed:
  "less_double d m \<Longrightarrow> \<not> less_double c m \<Longrightarrow> less_double c PlusInfinity \<Longrightarrow> less_double d c"
  by (cases d; cases m; cases c) simp_all

lemma less_double_distance:
  "distance_value d \<Longrightarrow> less_double d PlusInfinity \<longleftrightarrow> (\<exists>x. d = Finite x)"
  by (cases d) simp_all

lemma double_times_square: "distance_value (double_times d d)"
  by (cases d) (simp_all add: binary64_nonneg)

lemma double_plus_distance:
  "distance_value a \<Longrightarrow> distance_value b \<Longrightarrow> distance_value (double_plus a b)"
  by (cases a; cases b) (simp_all add: binary64_nonneg)

lemma double_sqrt_distance: "distance_value a \<Longrightarrow> distance_value (double_sqrt a)"
  by (cases a) (simp_all add: binary64_nonneg)

lemma distanceTo_binary64_value: "distance_value (distanceTo_binary64 a b)"
  unfolding distanceTo_binary64_def Let_def
  by (intro double_sqrt_distance double_plus_distance double_times_square)

section \<open>Matching strategies\<close>

lemma first_least_head:
  assumes "P c" and "\<forall>e\<in>set cs. P e \<longrightarrow> key c \<le> key e"
  shows "first_least P key (c # cs) c"
  unfolding first_least_def using assms
  by (intro exI [of _ "[]"] exI [of _ cs]) simp

lemma first_least_tail:
  assumes "first_least P key cs d" and "P c \<longrightarrow> key d < key c"
  shows "first_least P key (c # cs) d"
proof -
  from assms(1) obtain pre post where p: "cs = pre @ d # post" "P d"
      "\<forall>e\<in>set pre. P e \<longrightarrow> key d < key e" "\<forall>e\<in>set post. P e \<longrightarrow> key d \<le> key e"
    unfolding first_least_def by blast
  show ?thesis unfolding first_least_def using p assms(2)
    by (intro exI [of _ "c # pre"] exI [of _ post]) simp
qed

lemma first_least_member: "first_least P key ds d \<Longrightarrow> d \<in> set ds \<and> P d"
  unfolding first_least_def by auto

lemma first_nearest_head:
  assumes "P c" and "less_double (key c) PlusInfinity"
    and "\<forall>e\<in>set cs. P e \<longrightarrow> \<not> less_double (key e) (key c)"
  shows "first_nearest P key (c # cs) c"
  unfolding first_nearest_def using assms
  by (intro exI [of _ "[]"] exI [of _ cs]) simp

lemma first_nearest_tail:
  assumes "first_nearest P key cs d"
    and "P c \<and> less_double (key c) PlusInfinity \<longrightarrow> less_double (key d) (key c)"
  shows "first_nearest P key (c # cs) d"
proof -
  from assms(1) obtain pre post where p: "cs = pre @ d # post" "P d"
      "less_double (key d) PlusInfinity"
      "\<forall>e\<in>set pre. P e \<and> less_double (key e) PlusInfinity \<longrightarrow> less_double (key d) (key e)"
      "\<forall>e\<in>set post. P e \<longrightarrow> \<not> less_double (key e) (key d)"
    unfolding first_nearest_def by blast
  show ?thesis unfolding first_nearest_def using p assms(2)
    by (intro exI [of _ "c # pre"] exI [of _ post]) simp
qed

lemma first_nearest_member:
  "first_nearest P key ds d \<Longrightarrow> d \<in> set ds \<and> P d \<and> less_double (key d) PlusInfinity"
  unfolding first_nearest_def by auto

lemma nearest_loop_step_take:
  "matching heap request c \<Longrightarrow> less_double (pickup_distance heap request c) m \<Longrightarrow>
   nearest_loop heap request (c # cs) nearest m =
     nearest_loop heap request cs (Some c) (pickup_distance heap request c)"
  by (auto simp: matching_def pickup_distance_def Let_def split: option.splits)

lemma nearest_loop_step_skip:
  "readable heap c \<Longrightarrow>
   \<not> (matching heap request c \<and> less_double (pickup_distance heap request c) m) \<Longrightarrow>
   nearest_loop heap request (c # cs) nearest m = nearest_loop heap request cs nearest m"
  by (auto simp: matching_def readable_def pickup_distance_def Let_def split: option.splits)

lemma nearest_loop_scan:
  assumes "\<forall>d\<in>set ds. readable heap d"
  shows "\<exists>res. nearest_loop heap request ds nearest m = Inr res \<and>
     ((res = nearest \<and>
       (\<forall>d\<in>set ds. matching heap request d \<longrightarrow>
          \<not> less_double (pickup_distance heap request d) m))
      \<or> (\<exists>d. res = Some d \<and> less_double (pickup_distance heap request d) m \<and>
            first_nearest (matching heap request) (pickup_distance heap request) ds d))"
  using assms
proof (induction ds arbitrary: nearest m)
  case Nil
  then show ?case by simp
next
  case (Cons c cs)
  have rd: "readable heap c" and rest: "\<forall>d\<in>set cs. readable heap d"
    using Cons.prems by simp_all
  let ?dist = "pickup_distance heap request"
  let ?P = "matching heap request"
  show ?case
  proof (cases "?P c \<and> less_double (?dist c) m")
    case True
    note step = nearest_loop_step_take [of heap request c m cs nearest]
    from Cons.IH [OF rest, of "Some c" "?dist c"]
    obtain res where res: "nearest_loop heap request cs (Some c) (?dist c) = Inr res"
      and alt: "(res = Some c \<and> (\<forall>d\<in>set cs. ?P d \<longrightarrow> \<not> less_double (?dist d) (?dist c)))
        \<or> (\<exists>d. res = Some d \<and> less_double (?dist d) (?dist c) \<and> first_nearest ?P ?dist cs d)"
      by blast
    from alt
    have "\<exists>d. res = Some d \<and> less_double (?dist d) m \<and> first_nearest ?P ?dist (c # cs) d"
    proof
      assume a: "res = Some c \<and> (\<forall>d\<in>set cs. ?P d \<longrightarrow> \<not> less_double (?dist d) (?dist c))"
      have "less_double (?dist c) PlusInfinity"
        using True by (blast intro: less_double_bounded)
      then have "first_nearest ?P ?dist (c # cs) c"
        using True a by (intro first_nearest_head) auto
      then show ?thesis using a True by simp
    next
      assume "\<exists>d. res = Some d \<and> less_double (?dist d) (?dist c) \<and> first_nearest ?P ?dist cs d"
      then obtain d where d: "res = Some d" "less_double (?dist d) (?dist c)"
          "first_nearest ?P ?dist cs d"
        by auto
      have "less_double (?dist d) m"
        using True d(2) by (blast intro: less_double_trans)
      moreover have "first_nearest ?P ?dist (c # cs) d"
        using d by (intro first_nearest_tail) auto
      ultimately show ?thesis using d(1) by simp
    qed
    then show ?thesis using res step True by simp
  next
    case False
    note step = nearest_loop_step_skip [OF rd False, of cs nearest]
    from Cons.IH [OF rest, of nearest m]
    obtain res where res: "nearest_loop heap request cs nearest m = Inr res"
      and alt: "(res = nearest \<and> (\<forall>d\<in>set cs. ?P d \<longrightarrow> \<not> less_double (?dist d) m))
        \<or> (\<exists>d. res = Some d \<and> less_double (?dist d) m \<and> first_nearest ?P ?dist cs d)"
      by blast
    from alt show ?thesis
    proof
      assume "res = nearest \<and> (\<forall>d\<in>set cs. ?P d \<longrightarrow> \<not> less_double (?dist d) m)"
      then show ?thesis using False res step by auto
    next
      assume "\<exists>d. res = Some d \<and> less_double (?dist d) m \<and> first_nearest ?P ?dist cs d"
      then obtain d where d: "res = Some d" "less_double (?dist d) m"
          "first_nearest ?P ?dist cs d"
        by auto
      have "?P c \<and> less_double (?dist c) PlusInfinity \<longrightarrow> less_double (?dist d) (?dist c)"
        using False d(2) by (blast intro: less_double_passed)
      then have "first_nearest ?P ?dist (c # cs) d"
        using d(3) by (intro first_nearest_tail)
      then show ?thesis using res step d by simp
    qed
  qed
qed

lemma best_loop_step_take:
  "matching heap request c \<Longrightarrow> rating (heap ! c) > b \<Longrightarrow>
   best_loop heap request (c # cs) best b = best_loop heap request cs (Some c) (rating (heap ! c))"
  by (auto simp: matching_def split: option.splits)

lemma best_loop_step_skip:
  "readable heap c \<Longrightarrow> \<not> (matching heap request c \<and> rating (heap ! c) > b) \<Longrightarrow>
   best_loop heap request (c # cs) best b = best_loop heap request cs best b"
  by (auto simp: matching_def readable_def split: option.splits)

lemma best_loop_scan:
  assumes "\<forall>d\<in>set ds. readable heap d"
  shows "\<exists>res. best_loop heap request ds best b = Inr res \<and>
     ((res = best \<and> (\<forall>d\<in>set ds. matching heap request d \<longrightarrow> rating (heap ! d) \<le> b))
      \<or> (\<exists>d. res = Some d \<and> rating (heap ! d) > b \<and>
            first_least (matching heap request) (neg_rating heap) ds d))"
  using assms
proof (induction ds arbitrary: best b)
  case Nil
  then show ?case by simp
next
  case (Cons c cs)
  have rd: "readable heap c" and rest: "\<forall>d\<in>set cs. readable heap d"
    using Cons.prems by simp_all
  let ?P = "matching heap request"
  let ?key = "neg_rating heap"
  show ?case
  proof (cases "?P c \<and> rating (heap ! c) > b")
    case True
    note step = best_loop_step_take [of heap request c b cs best]
    from Cons.IH [OF rest, of "Some c" "rating (heap ! c)"]
    obtain res where res: "best_loop heap request cs (Some c) (rating (heap ! c)) = Inr res"
      and alt: "(res = Some c \<and> (\<forall>d\<in>set cs. ?P d \<longrightarrow> rating (heap ! d) \<le> rating (heap ! c)))
        \<or> (\<exists>d. res = Some d \<and> rating (heap ! d) > rating (heap ! c) \<and> first_least ?P ?key cs d)"
      by blast
    from alt have "\<exists>d. res = Some d \<and> rating (heap ! d) > b \<and> first_least ?P ?key (c # cs) d"
    proof
      assume a: "res = Some c \<and> (\<forall>d\<in>set cs. ?P d \<longrightarrow> rating (heap ! d) \<le> rating (heap ! c))"
      then have "first_least ?P ?key (c # cs) c"
        using True by (intro first_least_head) (auto simp: neg_rating_def)
      then show ?thesis using a True by simp
    next
      assume "\<exists>d. res = Some d \<and> rating (heap ! d) > rating (heap ! c) \<and> first_least ?P ?key cs d"
      then obtain d where d: "res = Some d" "rating (heap ! d) > rating (heap ! c)"
          "first_least ?P ?key cs d"
        by auto
      have "rating (heap ! d) > b" using True d(2) by simp
      moreover have "first_least ?P ?key (c # cs) d"
        using d by (intro first_least_tail) (auto simp: neg_rating_def)
      ultimately show ?thesis using d(1) by simp
    qed
    then show ?thesis using res step True by simp
  next
    case False
    note step = best_loop_step_skip [OF rd False, of cs best]
    from Cons.IH [OF rest, of best b]
    obtain res where res: "best_loop heap request cs best b = Inr res"
      and alt: "(res = best \<and> (\<forall>d\<in>set cs. ?P d \<longrightarrow> rating (heap ! d) \<le> b))
        \<or> (\<exists>d. res = Some d \<and> rating (heap ! d) > b \<and> first_least ?P ?key cs d)"
      by blast
    from alt show ?thesis
    proof
      assume "res = best \<and> (\<forall>d\<in>set cs. ?P d \<longrightarrow> rating (heap ! d) \<le> b)"
      then show ?thesis using False res step by auto
    next
      assume "\<exists>d. res = Some d \<and> rating (heap ! d) > b \<and> first_least ?P ?key cs d"
      then obtain d where d: "res = Some d" "rating (heap ! d) > b" "first_least ?P ?key cs d"
        by auto
      have "?P c \<longrightarrow> ?key d < ?key c"
        using False d(2) by (auto simp: neg_rating_def)
      then have "first_least ?P ?key (c # cs) d"
        using d(3) by (intro first_least_tail)
      then show ?thesis using res step d by simp
    qed
  qed
qed

lemma nearest_loop_chosen:
  "nearest_loop heap request ds nearest m = Inr (Some c) \<Longrightarrow>
   nearest = Some c \<or> (c \<in> set ds \<and> matching heap request c)"
proof (induction ds arbitrary: nearest m)
  case Nil
  then show ?case by simp
next
  case (Cons d ds)
  then show ?case
    by (fastforce simp: matching_def Let_def split: if_splits option.splits)
qed

lemma best_loop_chosen:
  "best_loop heap request ds best b = Inr (Some c) \<Longrightarrow>
   best = Some c \<or> (c \<in> set ds \<and> matching heap request c)"
proof (induction ds arbitrary: best b)
  case Nil
  then show ?case by simp
next
  case (Cons d ds)
  then show ?case
    by (fastforce simp: matching_def split: if_splits option.splits)
qed

lemma chooseDriver_chosen:
  "chooseDriver strategy heap request candidates = Inr (Some c) \<Longrightarrow>
   c \<in> set candidates \<and> matching heap request c"
  by (cases strategy) (auto dest: nearest_loop_chosen best_loop_chosen)

text \<open>The distance the search computes is never negative: it is a finite double from zero
  upwards, \<open>+infinity\<close> or NaN, and it compares below \<open>+infinity\<close> exactly when it is finite.\<close>

lemma pickup_distance_value: "distance_value (pickup_distance heap request d)"
  by (simp add: pickup_distance_def distanceTo_binary64_value)

lemma pickup_distance_finite:
  "less_double (pickup_distance heap request d) PlusInfinity \<longleftrightarrow>
     (\<exists>x. pickup_distance heap request d = Finite x)"
  by (rule less_double_distance) (rule pickup_distance_value)

text \<open>The distances of the example drivers from the origin, as computed: Bob's is exact,
  Grace's overflows and Heidi's underflows.\<close>

lemma sqrt_25: "sqrt 25 = 5"
  by (rule real_sqrt_unique) simp_all

lemma distance_uptown: "distanceTo_binary64 uptown origin = Finite 5"
  by (simp add: distanceTo_binary64_def double_minus_def origin_def uptown_def sqrt_25)

lemma distance_origin: "distanceTo_binary64 origin origin = Finite 0"
  by (simp add: distanceTo_binary64_def double_minus_def origin_def)

lemma distance_grace: "distanceTo_binary64 (driver_location grace) origin = PlusInfinity"
proof -
  have a: "binary64 (2 ^ 700) = Finite (2 ^ 700)"
    using binary64_pow2 [of 700] by simp
  have b: "binary64 (2 ^ 700 * 2 ^ 700) = PlusInfinity"
    by (rule binary64_overflow) simp
  show ?thesis
    using a b by (simp add: distanceTo_binary64_def double_minus_def origin_def grace_def)
qed

lemma distance_heidi: "distanceTo_binary64 (driver_location heidi) origin = Finite 0"
proof -
  let ?x = "(2::real) powi (- 600)"
  have a: "binary64 ?x = Finite ?x"
    by (rule binary64_pow2) simp_all
  have "?x * ?x = 2 powi (- 1200)"
    using power_int_add [of "2::real" "- 600" "- 600"]
    by (simp del: power_int_numeral_neg_numeral)
  moreover have "(2::real) powi (- 1200) < 2 powi (- 1075)"
    by (simp only: powi2_less_iff)
  ultimately have "?x * ?x < 2 powi (- 1075)" by (simp only:)
  then have b: "binary64 (?x * ?x) = Finite 0"
    by (intro binary64_underflow) (simp_all del: power_int_numeral_neg_numeral)
  show ?thesis
    using a b
    by (simp add: distanceTo_binary64_def double_minus_def origin_def heidi_def
        del: power_int_numeral_neg_numeral)
qed

text \<open>
  Claim C3, as stated, fails. The search compares binary64 distances, starting from
  \<open>minDistance = +infinity\<close> with the strict \<open><\<close>. Grace is available with a sedan, but the
  square of her latitude difference overflows, her computed distance is \<open>+infinity\<close>, and
  \<open>+infinity < +infinity\<close> is false: the strategy returns no driver although a candidate
  matches.
\<close>

theorem NearestDriverStrategy_counterexample:
  "readable [grace] 0 \<and> matching [grace] sedan_request 0 \<and>
   pickup_distance [grace] sedan_request 0 = PlusInfinity \<and>
   chooseDriver NearestDriverStrategy [grace] sedan_request [0] = Inr None"
proof -
  have d: "pickup_distance [grace] sedan_request 0 = PlusInfinity"
    using distance_grace by (simp add: pickup_distance_def sedan_request_def)
  have r: "readable [grace] 0" "matching [grace] sedan_request 0"
    by (simp_all add: readable_def matching_def grace_def sedan_def sedan_request_def)
  have "nearest_loop [grace] sedan_request [0] None PlusInfinity = Inr None"
    using nearest_loop_step_skip [of "[grace]" 0 sedan_request PlusInfinity "[]" None] r d
    by simp
  then show ?thesis using r d by simp
qed

text \<open>Underflow changes the choice too. Heidi stands at a positive distance from the pickup
  location and Alice on it, but the square of Heidi's latitude difference underflows to
  zero: both computed distances are zero, and Heidi, listed first, is chosen.\<close>

lemma NearestDriverStrategy_underflow:
  "distanceTo (driver_location alice) (pickup sedan_request)
     < distanceTo (driver_location heidi) (pickup sedan_request) \<and>
   chooseDriver NearestDriverStrategy [heidi, alice] sedan_request [0, 1] = Inr (Some 0)"
proof -
  have "distanceTo (driver_location alice) (pickup sedan_request)
     < distanceTo (driver_location heidi) (pickup sedan_request)"
    by (simp add: distanceTo_def example_defs heidi_def del: power_int_numeral_neg_numeral)
  moreover have "chooseDriver NearestDriverStrategy [heidi, alice] sedan_request [0, 1]
     = Inr (Some 0)"
    using distance_heidi distance_origin
    by (simp add: heidi_def alice_def sedan_def sedan_request_def
        del: power_int_numeral_neg_numeral)
  ultimately show ?thesis by simp
qed

text \<open>A distance that is NaN is never below \<open>minDistance\<close> either. Ivan and the pickup
  location of the request have the same latitude, read as \<open>+infinity\<close>; the difference is
  NaN, and so is the distance.\<close>

lemma NearestDriverStrategy_nan:
  "matching [ivan] polar_request 0 \<and>
   pickup_distance [ivan] polar_request 0 = NaN \<and>
   chooseDriver NearestDriverStrategy [ivan] polar_request [0] = Inr None"
proof -
  have a: "binary64 (2 ^ 1024) = PlusInfinity"
    by (rule binary64_overflow) simp
  have d: "pickup_distance [ivan] polar_request 0 = NaN"
    using a
    by (simp add: pickup_distance_def distanceTo_binary64_def double_minus_def ivan_def
        polar_request_def)
  have r: "readable [ivan] 0" "matching [ivan] polar_request 0"
    by (simp_all add: readable_def matching_def ivan_def sedan_def polar_request_def)
  have "nearest_loop [ivan] polar_request [0] None PlusInfinity = Inr None"
    using nearest_loop_step_skip [of "[ivan]" 0 polar_request PlusInfinity "[]" None] r d
    by simp
  then show ?thesis using r d by simp
qed

text \<open>
  Claim C3, amended. \<open>NearestDriverStrategy::chooseDriver\<close>, on candidates whose pointers can
  be read, returns no driver exactly when no candidate is available with a vehicle of the
  requested type and a computed distance below \<open>+infinity\<close>; otherwise it returns such a
  candidate, at an occurrence in the list before which every such candidate has a
  strictly larger computed distance and after which no matching candidate has a smaller
  one: a nearest one by the binary64 distances, the first of them in list order.
\<close>

theorem NearestDriverStrategy_first_nearest:
  assumes "\<forall>d\<in>set candidates. readable heap d"
  shows "\<exists>res. chooseDriver NearestDriverStrategy heap request candidates = Inr res \<and>
     (res = None \<longleftrightarrow>
        (\<forall>d\<in>set candidates. matching heap request d \<longrightarrow>
           \<not> less_double (pickup_distance heap request d) PlusInfinity)) \<and>
     (\<forall>d. res = Some d \<longrightarrow>
        (\<exists>pre post. candidates = pre @ d # post \<and> matching heap request d \<and>
           less_double (pickup_distance heap request d) PlusInfinity \<and>
           (\<forall>e\<in>set pre. matching heap request e \<and>
                less_double (pickup_distance heap request e) PlusInfinity \<longrightarrow>
              less_double (pickup_distance heap request d) (pickup_distance heap request e)) \<and>
           (\<forall>e\<in>set post. matching heap request e \<longrightarrow>
              \<not> less_double (pickup_distance heap request e)
                   (pickup_distance heap request d))))"
proof -
  let ?P = "matching heap request" and ?dist = "pickup_distance heap request"
  from nearest_loop_scan [OF assms, of request None PlusInfinity]
  obtain res where res: "nearest_loop heap request candidates None PlusInfinity = Inr res"
    and alt: "(res = None \<and>
         (\<forall>d\<in>set candidates. ?P d \<longrightarrow> \<not> less_double (?dist d) PlusInfinity))
      \<or> (\<exists>d. res = Some d \<and> first_nearest ?P ?dist candidates d)"
    by auto
  from alt have "(res = None \<longleftrightarrow>
       (\<forall>d\<in>set candidates. ?P d \<longrightarrow> \<not> less_double (?dist d) PlusInfinity)) \<and>
     (\<forall>d. res = Some d \<longrightarrow> first_nearest ?P ?dist candidates d)"
    using first_nearest_member [of ?P ?dist candidates] by fastforce
  then show ?thesis using res by (simp add: first_nearest_def)
qed

text \<open>Four drivers at the pickup location or away from it; Alice and Dave tie, Alice is
  listed first.\<close>

theorem NearestDriverStrategy_first_nearest_witness:
  "readable [alice, bob, charlie, dave] 0 \<and> readable [alice, bob, charlie, dave] 1 \<and>
   readable [alice, bob, charlie, dave] 2 \<and> readable [alice, bob, charlie, dave] 3 \<and>
   chooseDriver NearestDriverStrategy [alice, bob, charlie, dave] sedan_request [1, 2, 0, 3]
     = Inr (Some 0) \<and>
   (\<exists>res. chooseDriver NearestDriverStrategy [alice, bob, charlie, dave] sedan_request [1, 2, 0, 3]
       = Inr res \<and>
     (res = None \<longleftrightarrow>
        (\<forall>d\<in>set [1, 2, 0, 3]. matching [alice, bob, charlie, dave] sedan_request d \<longrightarrow>
           \<not> less_double (pickup_distance [alice, bob, charlie, dave] sedan_request d)
                PlusInfinity)) \<and>
     (\<forall>d. res = Some d \<longrightarrow>
        (\<exists>pre post. [1, 2, 0, 3] = pre @ d # post \<and>
           matching [alice, bob, charlie, dave] sedan_request d \<and>
           less_double (pickup_distance [alice, bob, charlie, dave] sedan_request d) PlusInfinity \<and>
           (\<forall>e\<in>set pre. matching [alice, bob, charlie, dave] sedan_request e \<and>
                less_double (pickup_distance [alice, bob, charlie, dave] sedan_request e)
                  PlusInfinity \<longrightarrow>
              less_double (pickup_distance [alice, bob, charlie, dave] sedan_request d)
                (pickup_distance [alice, bob, charlie, dave] sedan_request e)) \<and>
           (\<forall>e\<in>set post. matching [alice, bob, charlie, dave] sedan_request e \<longrightarrow>
              \<not> less_double (pickup_distance [alice, bob, charlie, dave] sedan_request e)
                   (pickup_distance [alice, bob, charlie, dave] sedan_request d)))))"
proof -
  have r: "readable [alice, bob, charlie, dave] 0" "readable [alice, bob, charlie, dave] 1"
      "readable [alice, bob, charlie, dave] 2" "readable [alice, bob, charlie, dave] 3"
    by (simp_all add: readable_def example_defs)
  then have h: "\<forall>d\<in>set [1, 2, 0, 3]. readable [alice, bob, charlie, dave] d"
    by simp
  have v: "chooseDriver NearestDriverStrategy [alice, bob, charlie, dave] sedan_request [1, 2, 0, 3]
     = Inr (Some 0)"
    using distance_uptown distance_origin
    by (simp add: alice_def bob_def charlie_def dave_def sedan_def suv_def sedan_request_def)
  show ?thesis
    using r v NearestDriverStrategy_first_nearest [OF h, of sedan_request] by blast
qed

text \<open>
  Claim C4, as stated, fails: \<open>bestRating\<close> starts at \<open>-1.0\<close> and only a strictly larger
  rating replaces it, so a matching candidate rated \<open>-1\<close> is passed over and the strategy
  returns no driver although one matches.
\<close>

theorem BestRatedDriverStrategy_counterexample:
  "matching [outcast] sedan_request 0 \<and>
   chooseDriver BestRatedDriverStrategy [outcast] sedan_request [0] = Inr None"
  by (simp add: matching_def outcast_def example_defs)

text \<open>
  Claim C4, amended. \<open>BestRatedDriverStrategy::chooseDriver\<close>, on candidates whose pointers
  can be read, returns no driver exactly when no matching candidate has a rating above
  \<open>-1\<close>; otherwise it returns a matching candidate rated above \<open>-1\<close>, at an occurrence
  before which every matching candidate has a strictly smaller rating and after which none
  has a larger one: a best-rated matching candidate, the first of them in list order.
\<close>

theorem BestRatedDriverStrategy_first_best:
  assumes "\<forall>d\<in>set candidates. readable heap d"
  shows "\<exists>res. chooseDriver BestRatedDriverStrategy heap request candidates = Inr res \<and>
     (res = None \<longleftrightarrow>
        (\<forall>d\<in>set candidates. matching heap request d \<longrightarrow> rating (heap ! d) \<le> - 1)) \<and>
     (\<forall>d. res = Some d \<longrightarrow> - 1 < rating (heap ! d) \<and>
        (\<exists>pre post. candidates = pre @ d # post \<and> matching heap request d \<and>
           (\<forall>e\<in>set pre. matching heap request e \<longrightarrow> rating (heap ! e) < rating (heap ! d)) \<and>
           (\<forall>e\<in>set post. matching heap request e \<longrightarrow> rating (heap ! e) \<le> rating (heap ! d))))"
proof -
  let ?P = "matching heap request" and ?key = "neg_rating heap"
  from best_loop_scan [OF assms, of request None "- 1"]
  obtain res where res: "best_loop heap request candidates None (- 1) = Inr res"
    and alt: "(res = None \<and> (\<forall>d\<in>set candidates. ?P d \<longrightarrow> rating (heap ! d) \<le> - 1))
      \<or> (\<exists>d. res = Some d \<and> rating (heap ! d) > - 1 \<and> first_least ?P ?key candidates d)"
    by auto
  from alt have "(res = None \<longleftrightarrow> (\<forall>d\<in>set candidates. ?P d \<longrightarrow> rating (heap ! d) \<le> - 1)) \<and>
     (\<forall>d. res = Some d \<longrightarrow> - 1 < rating (heap ! d) \<and> first_least ?P ?key candidates d)"
    using first_least_member [of ?P ?key candidates] by fastforce
  then show ?thesis using res by (simp add: first_least_def neg_rating_def)
qed

text \<open>Bob and Dave both have the top rating 5; Bob is listed first.\<close>

theorem BestRatedDriverStrategy_first_best_witness:
  "readable [alice, bob, charlie, dave] 0 \<and> readable [alice, bob, charlie, dave] 1 \<and>
   readable [alice, bob, charlie, dave] 2 \<and> readable [alice, bob, charlie, dave] 3 \<and>
   chooseDriver BestRatedDriverStrategy [alice, bob, charlie, dave] sedan_request [0, 2, 1, 3]
     = Inr (Some 1) \<and>
   (\<exists>res. chooseDriver BestRatedDriverStrategy [alice, bob, charlie, dave] sedan_request [0, 2, 1, 3]
       = Inr res \<and>
     (res = None \<longleftrightarrow>
        (\<forall>d\<in>set [0, 2, 1, 3]. matching [alice, bob, charlie, dave] sedan_request d \<longrightarrow>
            rating ([alice, bob, charlie, dave] ! d) \<le> - 1)) \<and>
     (\<forall>d. res = Some d \<longrightarrow> - 1 < rating ([alice, bob, charlie, dave] ! d) \<and>
        (\<exists>pre post. [0, 2, 1, 3] = pre @ d # post \<and>
           matching [alice, bob, charlie, dave] sedan_request d \<and>
           (\<forall>e\<in>set pre. matching [alice, bob, charlie, dave] sedan_request e \<longrightarrow>
              rating ([alice, bob, charlie, dave] ! e) < rating ([alice, bob, charlie, dave] ! d)) \<and>
           (\<forall>e\<in>set post. matching [alice, bob, charlie, dave] sedan_request e \<longrightarrow>
              rating ([alice, bob, charlie, dave] ! e) \<le> rating ([alice, bob, charlie, dave] ! d)))))"
proof -
  have r: "readable [alice, bob, charlie, dave] 0" "readable [alice, bob, charlie, dave] 1"
      "readable [alice, bob, charlie, dave] 2" "readable [alice, bob, charlie, dave] 3"
    by (simp_all add: readable_def example_defs)
  then have h: "\<forall>d\<in>set [0, 2, 1, 3]. readable [alice, bob, charlie, dave] d"
    by simp
  have v: "chooseDriver BestRatedDriverStrategy [alice, bob, charlie, dave] sedan_request [0, 2, 1, 3]
     = Inr (Some 1)"
    by (simp add: example_defs)
  show ?thesis
    using r v BestRatedDriverStrategy_first_best [OF h, of sedan_request] by blast
qed

section \<open>Ride\<close>

lemma onRideStatusChanged_console:
  "onRideStatusChanged obs p s w = Inr w' \<Longrightarrow>
   \<exists>out. w' = w\<lparr>console := console w @ out\<rparr> \<and> (\<forall>l\<in>set out. notification l)"
proof (cases obs)
  case RiderNotificationService
  assume "onRideStatusChanged obs p s w = Inr w'"
  with RiderNotificationService obtain n i where "w' = cout (RiderNotification n i s) w"
    by (auto simp: fbind_Inr_iff)
  then have "w' = w\<lparr>console := console w @ [RiderNotification n i s]\<rparr> \<and>
      (\<forall>l\<in>set [RiderNotification n i s]. notification l)"
    by (simp add: cout_def)
  then show ?thesis by blast
next
  case DriverNotificationService
  assume "onRideStatusChanged obs p s w = Inr w'"
  with DriverNotificationService
  have "w' = w \<or> (\<exists>n i. w' = cout (DriverNotification n i s) w)"
    by (auto simp: fbind_Inr_iff split: option.splits)
  then show ?thesis
  proof
    assume "w' = w"
    then have "w' = w\<lparr>console := console w @ []\<rparr> \<and> (\<forall>l\<in>set []. notification l)"
      by simp
    then show ?thesis by blast
  next
    assume "\<exists>n i. w' = cout (DriverNotification n i s) w"
    then obtain n i where "w' = cout (DriverNotification n i s) w" by blast
    then have "w' = w\<lparr>console := console w @ [DriverNotification n i s]\<rparr> \<and>
        (\<forall>l\<in>set [DriverNotification n i s]. notification l)"
      by (simp add: cout_def)
    then show ?thesis by blast
  qed
qed

lemma notify_each_console:
  "notify_each obs p s w = Inr w' \<Longrightarrow>
   \<exists>out. w' = w\<lparr>console := console w @ out\<rparr> \<and> (\<forall>l\<in>set out. notification l)"
proof (induction obs arbitrary: w)
  case Nil
  then have "w' = w\<lparr>console := console w @ []\<rparr> \<and> (\<forall>l\<in>set []. notification l)"
    by simp
  then show ?case by blast
next
  case (Cons o1 rest)
  from Cons.prems obtain w1 where w1: "onRideStatusChanged o1 p s w = Inr w1"
    and r: "notify_each rest p s w1 = Inr w'"
    by (auto split: sum.splits)
  from onRideStatusChanged_console [OF w1] obtain out1
    where o1: "w1 = w\<lparr>console := console w @ out1\<rparr>" "\<forall>l\<in>set out1. notification l"
    by blast
  from Cons.IH [OF r] obtain out2
    where o2: "w' = w1\<lparr>console := console w1 @ out2\<rparr>" "\<forall>l\<in>set out2. notification l"
    by blast
  have "w' = w\<lparr>console := console w @ (out1 @ out2)\<rparr> \<and>
      (\<forall>l\<in>set (out1 @ out2). notification l)"
    using o1 o2 by auto
  then show ?case by blast
qed

lemma onRideStatusChanged_total:
  assumes "p < length (rides w)"
    and "obs = RiderNotificationService \<longrightarrow> ride_rider (rides w ! p) < length (riders w)"
    and "obs = DriverNotificationService \<longrightarrow>
           (case ride_driver (rides w ! p) of None \<Rightarrow> True | Some d \<Rightarrow> d < length (drivers w))"
  shows "\<exists>w'. onRideStatusChanged obs p s w = Inr w'"
  using assms by (cases obs) (auto split: option.splits)

lemma notify_each_total:
  assumes "p < length (rides w)"
    and "RiderNotificationService \<in> set obs \<longrightarrow> ride_rider (rides w ! p) < length (riders w)"
    and "DriverNotificationService \<in> set obs \<longrightarrow>
           (case ride_driver (rides w ! p) of None \<Rightarrow> True | Some d \<Rightarrow> d < length (drivers w))"
  shows "\<exists>w'. notify_each obs p s w = Inr w'"
  using assms
proof (induction obs arbitrary: w)
  case Nil
  then show ?case by simp
next
  case (Cons o1 rest)
  from onRideStatusChanged_total [of p w o1 s] Cons.prems
  obtain w1 where w1: "onRideStatusChanged o1 p s w = Inr w1" by auto
  from onRideStatusChanged_console [OF w1] obtain out1
    where o1: "w1 = w\<lparr>console := console w @ out1\<rparr>" by blast
  have "\<exists>w'. notify_each rest p s w1 = Inr w'"
    using Cons.prems o1 by (intro Cons.IH) (auto split: option.splits)
  then show ?case using w1 by simp
qed

lemma notice_console [simp]: "notice (w\<lparr>console := c\<rparr>) r s = notice w r s"
proof
  fix obs show "notice (w\<lparr>console := c\<rparr>) r s obs = notice w r s obs"
    by (cases obs) (simp_all split: option.splits)
qed

lemma notice_rides [simp]: "notice (w\<lparr>rides := rs\<rparr>) r s = notice w r s"
proof
  fix obs show "notice (w\<lparr>rides := rs\<rparr>) r s obs = notice w r s obs"
    by (cases obs) (simp_all split: option.splits)
qed

lemma notice_ride_status [simp]: "notice w (r\<lparr>ride_status := t\<rparr>) s = notice w r s"
proof
  fix obs show "notice w (r\<lparr>ride_status := t\<rparr>) s obs = notice w r s obs"
    by (cases obs) (simp_all split: option.splits)
qed

lemma onRideStatusChanged_exact:
  assumes "p < length (rides w)"
    and "obs = RiderNotificationService \<longrightarrow> ride_rider (rides w ! p) < length (riders w)"
    and "obs = DriverNotificationService \<longrightarrow>
           (case ride_driver (rides w ! p) of None \<Rightarrow> True | Some d \<Rightarrow> d < length (drivers w))"
  shows "onRideStatusChanged obs p s w =
           Inr (w\<lparr>console := console w @ notice w (rides w ! p) s obs\<rparr>)"
  using assms by (cases obs) (auto simp: cout_def split: option.splits)

lemma notify_each_exact:
  assumes "p < length (rides w)"
    and "RiderNotificationService \<in> set obs \<longrightarrow> ride_rider (rides w ! p) < length (riders w)"
    and "DriverNotificationService \<in> set obs \<longrightarrow>
           (case ride_driver (rides w ! p) of None \<Rightarrow> True | Some d \<Rightarrow> d < length (drivers w))"
  shows "notify_each obs p s w =
           Inr (w\<lparr>console := console w @ concat (map (notice w (rides w ! p) s) obs)\<rparr>)"
  using assms
proof (induction obs arbitrary: w)
  case Nil
  then show ?case by simp
next
  case (Cons o1 rest)
  let ?w1 = "w\<lparr>console := console w @ notice w (rides w ! p) s o1\<rparr>"
  have first: "onRideStatusChanged o1 p s w = Inr ?w1"
    using Cons.prems by (intro onRideStatusChanged_exact) auto
  have "notify_each rest p s ?w1 =
      Inr (?w1\<lparr>console := console ?w1 @ concat (map (notice ?w1 (rides ?w1 ! p) s) rest)\<rparr>)"
    using Cons.prems by (intro Cons.IH) (auto split: option.splits)
  then show ?case using first by simp
qed

lemma updateStatus_exact:
  assumes "this < length (rides w)" and "notifiable w (rides w ! this)"
  shows "updateStatus this s w =
           Inr (w\<lparr>rides := (rides w)[this := (rides w ! this)\<lparr>ride_status := s\<rparr>],
                  console := console w @ notices w (rides w ! this) s\<rparr>)"
proof -
  let ?w1 = "w\<lparr>rides := (rides w)[this := (rides w ! this)\<lparr>ride_status := s\<rparr>]\<rparr>"
  have "notify_each (observers (rides ?w1 ! this)) this s ?w1 =
      Inr (?w1\<lparr>console := console ?w1 @
             concat (map (notice ?w1 (rides ?w1 ! this) s) (observers (rides ?w1 ! this)))\<rparr>)"
    using assms by (intro notify_each_exact) (auto simp: notifiable_def split: option.splits)
  then show ?thesis
    using assms(1) by (simp add: updateStatus_def notifyObservers_def notices_def)
qed

lemma updateStatus_result:
  assumes "updateStatus this s w = Inr w'"
  shows "this < length (rides w) \<and>
     (\<exists>out. w' = w\<lparr>rides := (rides w)[this := (rides w ! this)\<lparr>ride_status := s\<rparr>],
                  console := console w @ out\<rparr> \<and> (\<forall>l\<in>set out. notification l))"
proof -
  let ?w1 = "w\<lparr>rides := (rides w)[this := (rides w ! this)\<lparr>ride_status := s\<rparr>]\<rparr>"
  from assms have v: "this < length (rides w)"
    by (auto simp: updateStatus_def fbind_Inr_iff deref_Inr_iff)
  with assms have "notify_each (observers (rides ?w1 ! this)) this s ?w1 = Inr w'"
    by (simp add: updateStatus_def notifyObservers_def)
  from notify_each_console [OF this] obtain out
    where "w' = ?w1\<lparr>console := console ?w1 @ out\<rparr>" "\<forall>l\<in>set out. notification l"
    by blast
  then show ?thesis using v by auto
qed

lemma updateStatus_total:
  assumes "this < length (rides w)" and "notifiable w (rides w ! this)"
  shows "\<exists>w'. updateStatus this s w = Inr w'"
proof -
  let ?w1 = "w\<lparr>rides := (rides w)[this := (rides w ! this)\<lparr>ride_status := s\<rparr>]\<rparr>"
  have "\<exists>w'. notify_each (observers (rides ?w1 ! this)) this s ?w1 = Inr w'"
    using assms by (intro notify_each_total) (auto simp: notifiable_def split: option.splits)
  then show ?thesis using assms(1) by (simp add: updateStatus_def notifyObservers_def)
qed

lemma assignDriver_result:
  assumes "assignDriver this d w = Inr w'"
  shows "this < length (rides w) \<and>
     (\<exists>out. w' = w\<lparr>rides := (rides w)[this := (rides w ! this)
                             \<lparr>ride_driver := d, ride_status := DRIVER_ASSIGNED\<rparr>],
                  console := console w @ out\<rparr> \<and> (\<forall>l\<in>set out. notification l))"
proof -
  let ?w1 = "w\<lparr>rides := (rides w)[this := (rides w ! this)\<lparr>ride_driver := d\<rparr>]\<rparr>"
  from assms have v: "this < length (rides w)"
    by (auto simp: assignDriver_def fbind_Inr_iff deref_Inr_iff)
  with assms have "updateStatus this DRIVER_ASSIGNED ?w1 = Inr w'"
    by (simp add: assignDriver_def)
  from updateStatus_result [OF this] v show ?thesis by auto
qed

lemma assignDriver_total:
  assumes "this < length (rides w)"
    and "notifiable w ((rides w ! this)\<lparr>ride_driver := d\<rparr>)"
  shows "\<exists>w'. assignDriver this d w = Inr w'"
proof -
  let ?w1 = "w\<lparr>rides := (rides w)[this := (rides w ! this)\<lparr>ride_driver := d\<rparr>]\<rparr>"
  have "\<exists>w'. updateStatus this DRIVER_ASSIGNED ?w1 = Inr w'"
    using assms by (intro updateStatus_total) (auto simp: notifiable_def split: option.splits)
  then show ?thesis using assms(1) by (simp add: assignDriver_def)
qed

text \<open>
  Claim C1, as stated, fails: \<open>Ride::updateStatus\<close> checks nothing. A completed ride is
  moved back to \<open>REQUESTED\<close>, a transition outside the graph, and the call returns normally.
\<close>

theorem updateStatus_counterexample:
  "\<not> spec_transition COMPLETED REQUESTED \<and>
   ride_status (rides finished_world ! 0) = COMPLETED \<and>
   updateStatus 0 REQUESTED finished_world =
     Inr (finished_world
           \<lparr>rides := [finished_ride\<lparr>ride_status := REQUESTED\<rparr>],
            console := [RiderNotification ''Eve'' ''1'' REQUESTED,
                        DriverNotification ''Alice'' ''1'' REQUESTED]\<rparr>)"
  by (simp add: finished_world_def finished_ride_def World0_def updateStatus_def
      notifyObservers_def cout_def eve_def alice_def)

text \<open>
  Claim C1, amended. For every ride whose pointers can be followed and every requested
  status, in the graph or not, \<open>Ride::updateStatus\<close> returns normally. The status of the
  ride becomes the requested one. Every observer attached to the ride is notified, in
  attachment order, and writes its line to the console: the rider-facing observer a line
  with the rider's name, the ride and the new status, the driver-facing observer the same
  with the driver's name when the ride has a driver and nothing otherwise. Nothing else
  changes. The program has no \<open>InvalidTransitionError\<close>.
\<close>

theorem updateStatus_unconditional:
  assumes "this < length (rides w)" and "notifiable w (rides w ! this)"
  shows "updateStatus this newStatus w =
           Inr (w\<lparr>rides := (rides w)[this := (rides w ! this)\<lparr>ride_status := newStatus\<rparr>],
                  console := console w @ notices w (rides w ! this) newStatus\<rparr>)"
  using assms by (rule updateStatus_exact)

text \<open>The completed ride of \<open>finished_world\<close> goes back to \<open>IN_PROGRESS\<close>; Eve and Alice are
  told so.\<close>

theorem updateStatus_unconditional_witness:
  "0 < length (rides finished_world) \<and> notifiable finished_world (rides finished_world ! 0) \<and>
   ride_status (rides finished_world ! 0) = COMPLETED \<and>
   notices finished_world (rides finished_world ! 0) IN_PROGRESS =
     [RiderNotification ''Eve'' ''1'' IN_PROGRESS, DriverNotification ''Alice'' ''1'' IN_PROGRESS] \<and>
   updateStatus 0 IN_PROGRESS finished_world =
     Inr (finished_world
           \<lparr>rides := (rides finished_world)
              [0 := (rides finished_world ! 0)\<lparr>ride_status := IN_PROGRESS\<rparr>],
            console := console finished_world @
              notices finished_world (rides finished_world ! 0) IN_PROGRESS\<rparr>)"
proof -
  have h1: "0 < length (rides finished_world)"
    by (simp add: finished_world_def)
  have h2: "notifiable finished_world (rides finished_world ! 0)"
    by (simp add: finished_world_def finished_ride_def notifiable_def)
  have h3: "ride_status (rides finished_world ! 0) = COMPLETED"
    by (simp add: finished_world_def finished_ride_def)
  have h4: "notices finished_world (rides finished_world ! 0) IN_PROGRESS =
     [RiderNotification ''Eve'' ''1'' IN_PROGRESS, DriverNotification ''Alice'' ''1'' IN_PROGRESS]"
    by (simp add: notices_def finished_world_def finished_ride_def eve_def alice_def)
  show ?thesis
    using h1 h2 h3 h4 updateStatus_unconditional [OF h1 h2, of IN_PROGRESS] by blast
qed

text \<open>
  Claim C7, as stated, fails: \<open>Ride::assignDriver\<close> checks neither the status nor the driver
  reference. On a completed ride driven by Alice it installs Bob and sets the status to
  \<open>DRIVER_ASSIGNED\<close>.
\<close>

theorem assignDriver_counterexample:
  "ride_driver (rides finished_world ! 0) = Some 0 \<and>
   ride_status (rides finished_world ! 0) = COMPLETED \<and>
   assignDriver 0 (Some 1) finished_world =
     Inr (finished_world
           \<lparr>rides := [finished_ride\<lparr>ride_driver := Some 1, ride_status := DRIVER_ASSIGNED\<rparr>],
            console := [RiderNotification ''Eve'' ''1'' DRIVER_ASSIGNED,
                        DriverNotification ''Bob'' ''1'' DRIVER_ASSIGNED]\<rparr>)"
  by (simp add: finished_world_def finished_ride_def World0_def assignDriver_def updateStatus_def
      notifyObservers_def cout_def eve_def bob_def)

text \<open>
  Claim C7, amended. For every ride whose pointers can be followed, whatever its status and
  its driver reference, \<open>Ride::assignDriver\<close> returns normally. It sets the driver reference
  to the given driver and the status to \<open>DRIVER_ASSIGNED\<close>. Every observer attached to the
  ride is notified of \<open>DRIVER_ASSIGNED\<close>, in attachment order: the rider-facing observer
  writes a line with the rider's name, the driver-facing observer a line with the name of
  the driver just set, and nothing when the given driver is null. Nothing else changes.
  From \<open>REQUESTED\<close> with no driver set this is the transition the specification describes.
  The program has no \<open>DriverAlreadyAssignedError\<close>.
\<close>

theorem assignDriver_unconditional:
  assumes "this < length (rides w)"
    and "notifiable w ((rides w ! this)\<lparr>ride_driver := d\<rparr>)"
  shows "assignDriver this d w =
           Inr (w\<lparr>rides := (rides w)[this := (rides w ! this)
                            \<lparr>ride_driver := d, ride_status := DRIVER_ASSIGNED\<rparr>],
                  console := console w @
                    notices w ((rides w ! this)\<lparr>ride_driver := d\<rparr>) DRIVER_ASSIGNED\<rparr>)"
proof -
  let ?w1 = "w\<lparr>rides := (rides w)[this := (rides w ! this)\<lparr>ride_driver := d\<rparr>]\<rparr>"
  have "notifiable ?w1 (rides ?w1 ! this)"
    using assms by (simp add: notifiable_def cong: option.case_cong)
  then have "updateStatus this DRIVER_ASSIGNED ?w1 =
      Inr (?w1\<lparr>rides := (rides ?w1)[this := (rides ?w1 ! this)\<lparr>ride_status := DRIVER_ASSIGNED\<rparr>],
              console := console ?w1 @ notices ?w1 (rides ?w1 ! this) DRIVER_ASSIGNED\<rparr>)"
    using assms(1) by (intro updateStatus_exact) simp_all
  then show ?thesis
    using assms(1) by (simp add: assignDriver_def notices_def)
qed

text \<open>A requested ride without a driver gets Alice; Eve and Alice are told so.\<close>

theorem assignDriver_unconditional_witness:
  "0 < length (rides new_ride_world) \<and>
   notifiable new_ride_world ((rides new_ride_world ! 0)\<lparr>ride_driver := Some 0\<rparr>) \<and>
   ride_status (rides new_ride_world ! 0) = REQUESTED \<and>
   ride_driver (rides new_ride_world ! 0) = None \<and>
   notices new_ride_world ((rides new_ride_world ! 0)\<lparr>ride_driver := Some 0\<rparr>) DRIVER_ASSIGNED =
     [RiderNotification ''Eve'' ''1'' DRIVER_ASSIGNED,
      DriverNotification ''Alice'' ''1'' DRIVER_ASSIGNED] \<and>
   assignDriver 0 (Some 0) new_ride_world =
     Inr (new_ride_world
           \<lparr>rides := (rides new_ride_world)
              [0 := (rides new_ride_world ! 0)
                 \<lparr>ride_driver := Some 0, ride_status := DRIVER_ASSIGNED\<rparr>],
            console := console new_ride_world @
              notices new_ride_world ((rides new_ride_world ! 0)\<lparr>ride_driver := Some 0\<rparr>)
                DRIVER_ASSIGNED\<rparr>)"
proof -
  have h1: "0 < length (rides new_ride_world)"
    by (simp add: new_ride_world_def)
  have h2: "notifiable new_ride_world ((rides new_ride_world ! 0)\<lparr>ride_driver := Some 0\<rparr>)"
    by (simp add: new_ride_world_def new_ride_def notifiable_def)
  have h3: "ride_status (rides new_ride_world ! 0) = REQUESTED"
    and h4: "ride_driver (rides new_ride_world ! 0) = None"
    by (simp_all add: new_ride_world_def new_ride_def)
  have h5: "notices new_ride_world ((rides new_ride_world ! 0)\<lparr>ride_driver := Some 0\<rparr>)
      DRIVER_ASSIGNED =
     [RiderNotification ''Eve'' ''1'' DRIVER_ASSIGNED,
      DriverNotification ''Alice'' ''1'' DRIVER_ASSIGNED]"
    by (simp add: notices_def new_ride_world_def new_ride_def eve_def alice_def)
  show ?thesis
    using h1 h2 h3 h4 h5 assignDriver_unconditional [OF h1 h2] by blast
qed

section \<open>Fares\<close>

lemma calculate_base:
  assumes "ride < length (rides w)" and "ride_driver (rides w ! ride) = Some d"
    and "d < length (drivers w)" and "vehicle (drivers w ! d) = Some v"
  shows "calculate BaseFareCalculator ride w =
           Inr (BASE_FARE + distanceKm (rides w ! ride) * farePerKm v)"
  using assms by simp

lemma calculate_discount_nonneg:
  "calculate (DiscountDecorator c disc) ride w = Inr x \<Longrightarrow> 0 \<le> x"
  by (auto simp: fbind_Inr_iff Let_def split: if_splits)

lemma calculate_total:
  assumes "p < length (rides w)" and "ride_driver (rides w ! p) = Some d"
    and "d < length (drivers w)" and "vehicle (drivers w ! d) = Some v"
  shows "\<exists>f. calculate c p w = Inr f"
proof (induction c)
  case BaseFareCalculator
  show ?case using assms by simp
next
  case (SurgePricingDecorator c m)
  then show ?case by (auto simp: fbind_Inr_iff)
next
  case (DiscountDecorator c disc)
  then show ?case by (auto simp: fbind_Inr_iff Let_def)
qed

text \<open>
  Claim C5. For a ride with a driver and a vehicle, the base calculator returns
  \<open>BASE_FARE + distance * rate\<close> with \<open>BASE_FARE = 50\<close>; a discount wrapped around a surge
  around the base returns \<open>max 0 ((BASE_FARE + distance * rate) * m - disc)\<close>; a discount
  around the base alone returns \<open>max 0 (BASE_FARE + distance * rate - disc)\<close>; and whatever
  a discount stage wraps, its result is never negative.
\<close>

theorem fare_pipeline:
  assumes "ride < length (rides w)" and "ride_driver (rides w ! ride) = Some d"
    and "d < length (drivers w)" and "vehicle (drivers w ! d) = Some v"
  shows "BASE_FARE = 50 \<and>
     calculate BaseFareCalculator ride w =
       Inr (BASE_FARE + distanceKm (rides w ! ride) * farePerKm v) \<and>
     calculate (DiscountDecorator (SurgePricingDecorator BaseFareCalculator m) disc) ride w =
       Inr (max 0 ((BASE_FARE + distanceKm (rides w ! ride) * farePerKm v) * m - disc)) \<and>
     calculate (DiscountDecorator BaseFareCalculator disc) ride w =
       Inr (max 0 (BASE_FARE + distanceKm (rides w ! ride) * farePerKm v - disc)) \<and>
     (\<forall>c x. calculate (DiscountDecorator c disc) ride w = Inr x \<longrightarrow> 0 \<le> x)"
proof -
  have base: "calculate BaseFareCalculator ride w =
       Inr (BASE_FARE + distanceKm (rides w ! ride) * farePerKm v)"
    using assms by (rule calculate_base)
  have "calculate (DiscountDecorator (SurgePricingDecorator BaseFareCalculator m) disc) ride w =
       Inr (max 0 ((BASE_FARE + distanceKm (rides w ! ride) * farePerKm v) * m - disc))"
    using base by (simp add: Let_def max_def)
  moreover have "calculate (DiscountDecorator BaseFareCalculator disc) ride w =
       Inr (max 0 (BASE_FARE + distanceKm (rides w ! ride) * farePerKm v - disc))"
    using base by (simp add: Let_def max_def)
  moreover have "\<forall>c x. calculate (DiscountDecorator c disc) ride w = Inr x \<longrightarrow> 0 \<le> x"
    using calculate_discount_nonneg by blast
  ultimately show ?thesis using base by (simp add: BASE_FARE_def)
qed

text \<open>The scenario of the specification: 10 km at 15 per km is 200; surge 1.5 and a
  discount of 50 give 250; a discount of 500 is clamped to 0.\<close>

theorem fare_pipeline_witness:
  "0 < length (rides trip_world) \<and> ride_driver (rides trip_world ! 0) = Some 0 \<and>
   0 < length (drivers trip_world) \<and> vehicle (drivers trip_world ! 0) = Some sedan \<and>
   calculate BaseFareCalculator 0 trip_world = Inr 200 \<and>
   calculate (DiscountDecorator (SurgePricingDecorator BaseFareCalculator (3 / 2)) 50) 0 trip_world
     = Inr 250 \<and>
   calculate (DiscountDecorator BaseFareCalculator 500) 0 trip_world = Inr 0"
proof -
  have h1: "0 < length (rides trip_world)"
    and h2: "ride_driver (rides trip_world ! 0) = Some 0"
    and h3: "0 < length (drivers trip_world)"
    and h4: "vehicle (drivers trip_world ! 0) = Some sedan"
    by (simp_all add: trip_world_def trip_def alice_def)
  have d: "distanceKm (rides trip_world ! 0) = 10" and r: "farePerKm sedan = 15"
    by (simp_all add: trip_world_def trip_def sedan_def)
  note scenario = fare_pipeline [OF h1 h2 h3 h4, where m = "3 / 2" and disc = 50]
  note clamped = fare_pipeline [OF h1 h2 h3 h4, where m = 1 and disc = 500]
  have a: "calculate BaseFareCalculator 0 trip_world = Inr 200"
    using scenario by (simp add: d r BASE_FARE_def)
  have b: "calculate (DiscountDecorator (SurgePricingDecorator BaseFareCalculator (3 / 2)) 50)
             0 trip_world = Inr 250"
    using scenario by (simp add: d r BASE_FARE_def)
  have c: "calculate (DiscountDecorator BaseFareCalculator 500) 0 trip_world = Inr 0"
    using clamped by (simp add: d r BASE_FARE_def)
  show ?thesis using h1 h2 h3 h4 a b c by blast
qed

section \<open>DispatchService\<close>

lemma setStatus_Inr_iff:
  "setStatus d s w = Inr w' \<longleftrightarrow>
     d < length (drivers w) \<and>
     w' = w\<lparr>drivers := (drivers w)[d := (drivers w ! d)\<lparr>driver_status := s\<rparr>]\<rparr>"
  by (auto simp: setStatus_def fbind_Inr_iff deref_Inr_iff)

lemma registerDriver_Inr_iff:
  "registerDriver d w = Inr w' \<longleftrightarrow>
     d < length (drivers w) \<and>
     (\<exists>line. driver_line ((drivers w ! d)\<lparr>driver_status := AVAILABLE\<rparr>) = Inr line \<and>
        w' = w\<lparr>drivers := (drivers w)[d := (drivers w ! d)\<lparr>driver_status := AVAILABLE\<rparr>],
               availableDrivers := availableDrivers w @ [d],
               console := console w @ [DriverRegistered line]\<rparr>)"
  by (auto simp: registerDriver_def fbind_Inr_iff setStatus_Inr_iff deref_Inr_iff Let_def cout_def)

lemma deregisterDriver_Inr_iff:
  "deregisterDriver d w = Inr w' \<longleftrightarrow>
     d < length (drivers w) \<and>
     (\<exists>line. driver_line ((drivers w ! d)\<lparr>driver_status := OFFLINE\<rparr>) = Inr line \<and>
        w' = w\<lparr>drivers := (drivers w)[d := (drivers w ! d)\<lparr>driver_status := OFFLINE\<rparr>],
               availableDrivers := removeAll d (availableDrivers w),
               console := console w @ [DriverDeregistered line]\<rparr>)"
  by (auto simp: deregisterDriver_def fbind_Inr_iff setStatus_Inr_iff deref_Inr_iff Let_def cout_def)

text \<open>
  Claim C6, as stated, fails: \<open>registerDriver\<close> has no duplicate check. Registering Alice a
  second time returns normally and the pool lists her twice.
\<close>

theorem registerDriver_counterexample:
  "run [NewDriver ''Alice'' ''9999990001'' (Some sedan) origin 4, RegisterDriver 0] World0
     = Inr registered_world \<and>
   registerDriver 0 registered_world =
     Inr (registered_world
           \<lparr>availableDrivers := [0, 0],
            console := [DriverRegistered (''Alice'', SEDAN, 0, 0, 4),
                        DriverRegistered (''Alice'', SEDAN, 0, 0, 4)]\<rparr>)"
  by (simp add: registered_world_def World0_def registerDriver_def setStatus_def driver_line_def
      new_Driver_def INT_MAX_def cout_def Let_def example_defs)

text \<open>
  Claim C6, amended. For every driver pointer that can be read, already in the pool or not,
  \<open>registerDriver\<close> returns normally: it sets the driver's status to \<open>AVAILABLE\<close> and appends
  the driver to the available list, so that a driver already listed occurs once more; the
  driver then passes the test of the matching strategies for every request of its vehicle
  type. The program has no \<open>DuplicateDriverError\<close>.
\<close>

theorem registerDriver_appends:
  assumes "driver < length (drivers w)" and "vehicle (drivers w ! driver) = Some v"
  shows "\<exists>w'. registerDriver driver w = Inr w' \<and>
     drivers w' = (drivers w)[driver := (drivers w ! driver)\<lparr>driver_status := AVAILABLE\<rparr>] \<and>
     availableDrivers w' = availableDrivers w @ [driver] \<and>
     driver_status (drivers w' ! driver) = AVAILABLE \<and>
     (\<forall>request. request_type request = vehicle_type v \<longrightarrow> matching (drivers w') request driver)"
  using assms by (simp add: registerDriver_Inr_iff driver_line_def matching_def)

text \<open>Alice, already in the pool, is registered again.\<close>

theorem registerDriver_appends_witness:
  "0 < length (drivers registered_world) \<and> vehicle (drivers registered_world ! 0) = Some sedan \<and>
   0 \<in> set (availableDrivers registered_world) \<and>
   (\<exists>w'. registerDriver 0 registered_world = Inr w' \<and>
     drivers w' = (drivers registered_world)
        [0 := (drivers registered_world ! 0)\<lparr>driver_status := AVAILABLE\<rparr>] \<and>
     availableDrivers w' = availableDrivers registered_world @ [0] \<and>
     driver_status (drivers w' ! 0) = AVAILABLE \<and>
     (\<forall>request. request_type request = vehicle_type sedan \<longrightarrow>
        matching (drivers w') request 0))"
proof -
  have h1: "0 < length (drivers registered_world)"
    and h2: "vehicle (drivers registered_world ! 0) = Some sedan"
    and h3: "0 \<in> set (availableDrivers registered_world)"
    by (simp_all add: registered_world_def alice_def)
  show ?thesis using h1 h2 h3 registerDriver_appends [OF h1 h2] by blast
qed

text \<open>
  Claim C9, as stated, fails: for a ride identifier that is not in the registry,
  \<open>updateRideStatus\<close> and \<open>completeRide\<close> do not fail. They are \<open>void\<close>, write one line to
  the console and return normally.
\<close>

theorem not_found_counterexample:
  "ongoingRides World0 ''1'' = None \<and>
   completeRide ''1'' World0 = Inr (World0\<lparr>console := [RideNotFound ''1'']\<rparr>) \<and>
   updateRideStatus ''1'' IN_PROGRESS World0 = Inr (World0\<lparr>console := [RideNotFound ''1'']\<rparr>)"
  by (simp add: World0_def completeRide_def updateRideStatus_def cout_def)

text \<open>
  Claim C9, amended. For every ride identifier that is not in the ongoing-ride registry
  (an identifier never issued, or that of a ride already completed), \<open>updateRideStatus\<close> and
  \<open>completeRide\<close> return normally after writing the line "not found or already completed"
  to the console; every ride, the drivers and the pool, the registry and the archive are
  unchanged. The program has no \<open>RideNotFoundError\<close> and the caller is told nothing.
\<close>

theorem not_found_returns_unchanged:
  assumes "ongoingRides w rideId = None"
  shows "updateRideStatus rideId newStatus w = Inr (w\<lparr>console := console w @ [RideNotFound rideId]\<rparr>) \<and>
         completeRide rideId w = Inr (w\<lparr>console := console w @ [RideNotFound rideId]\<rparr>)"
  using assms by (simp add: updateRideStatus_def completeRide_def cout_def)

text \<open>The ride of \<open>finished_world\<close> is archived: its identifier is no longer in the registry.\<close>

theorem not_found_returns_unchanged_witness:
  "ongoingRides finished_world ''1'' = None \<and>
   completedRides finished_world = [0] \<and>
   updateRideStatus ''1'' CANCELLED finished_world =
     Inr (finished_world\<lparr>console := console finished_world @ [RideNotFound ''1'']\<rparr>) \<and>
   completeRide ''1'' finished_world =
     Inr (finished_world\<lparr>console := console finished_world @ [RideNotFound ''1'']\<rparr>)"
proof -
  have h: "ongoingRides finished_world ''1'' = None"
    and a: "completedRides finished_world = [0]"
    by (simp_all add: finished_world_def World0_def)
  show ?thesis
    using h a not_found_returns_unchanged [OF h, of CANCELLED] by blast
qed

subsection \<open>requestRide\<close>

lemma attachObserver_Inr_iff:
  "attachObserver p obs w = Inr w' \<longleftrightarrow>
     p < length (rides w) \<and>
     w' = w\<lparr>rides := (rides w)[p := (rides w ! p)\<lparr>observers := observers (rides w ! p) @ [obs]\<rparr>]\<rparr>"
  by (auto simp: attachObserver_def fbind_Inr_iff deref_Inr_iff)

lemma addRideToHistory_Inr_iff:
  "addRideToHistory r ride w = Inr w' \<longleftrightarrow>
     r < length (riders w) \<and>
     w' = w\<lparr>riders := (riders w)[r := (riders w ! r)\<lparr>rideHistory := rideHistory (riders w ! r) @ [ride]\<rparr>]\<rparr>"
  by (auto simp: addRideToHistory_def fbind_Inr_iff deref_Inr_iff)

lemma setFare_Inr_iff:
  "setFare p f w = Inr w' \<longleftrightarrow>
     p < length (rides w) \<and> w' = w\<lparr>rides := (rides w)[p := (rides w ! p)\<lparr>fare := f\<rparr>]\<rparr>"
  by (auto simp: setFare_def fbind_Inr_iff deref_Inr_iff)

lemma setPaid_Inr_iff:
  "setPaid p b w = Inr w' \<longleftrightarrow>
     p < length (rides w) \<and> w' = w\<lparr>rides := (rides w)[p := (rides w ! p)\<lparr>paid := b\<rparr>]\<rparr>"
  by (auto simp: setPaid_def fbind_Inr_iff deref_Inr_iff)

lemma createRide_Inr_iff:
  "createRide request w = Inr (ride, w') \<longleftrightarrow>
     rideCounter w \<noteq> INT_MAX \<and> ride = length (rides w) \<and>
     w' = w\<lparr>rideCounter := rideCounter w + 1,
            rides := rides w @
              [\<lparr>ride_id = to_string (rideCounter w + 1),
                ride_rider = request_rider request,
                ride_driver = None,
                pickupLocation = pickup request,
                dropLocation = drop_loc request,
                requestedType = request_type request,
                ride_status = REQUESTED,
                distanceKm = distanceTo (pickup request) (drop_loc request),
                fare = 0,
                paid = False,
                observers = []\<rparr>]\<rparr>"
  by (auto simp: createRide_def Let_def)

lemma requestRide_no_match:
  assumes "rider < length (riders w)" and "rideCounter w \<noteq> INT_MAX"
    and "matchingStrategy w = Some strategy"
    and "chooseDriver strategy (drivers w)
           \<lparr>request_rider = rider, pickup = p, drop_loc = d, request_type = t\<rparr>
           (availableDrivers w) = Inr None"
  shows "requestRide rider p d t w =
     Inr (length (rides w),
          w\<lparr>riders := (riders w)[rider := (riders w ! rider)
                          \<lparr>rideHistory := rideHistory (riders w ! rider) @ [length (rides w)]\<rparr>],
            rides := rides w @
              [\<lparr>ride_id = to_string (rideCounter w + 1), ride_rider = rider, ride_driver = None,
                pickupLocation = p, dropLocation = d, requestedType = t,
                ride_status = CANCELLED, distanceKm = distanceTo p d, fare = 0, paid = False,
                observers = []\<rparr>],
            rideCounter := rideCounter w + 1,
            console := console w @
              [RiderRequests (name (riders w ! rider)) t,
               NoAvailableDrivers (to_string (rideCounter w + 1))]\<rparr>)"
  using assms
  by (simp add: requestRide_def createRide_def addRideToHistory_def updateStatus_def
      notifyObservers_def cout_def Let_def nth_append)

lemma requestRide_match:
  assumes "rider < length (riders w)" and "rideCounter w \<noteq> INT_MAX"
    and "matchingStrategy w = Some strategy"
    and "chooseDriver strategy (drivers w)
           \<lparr>request_rider = rider, pickup = p, drop_loc = d, request_type = t\<rparr>
           (availableDrivers w) = Inr (Some c)"
  shows "requestRide rider p d t w =
     fbind (assignDriver (length (rides w)) (Some c)
              ((booked w rider p d t)
                 \<lparr>rides := rides w @ [(created w rider p d t)
                     \<lparr>observers := [RiderNotificationService, DriverNotificationService]\<rparr>]\<rparr>))
       (\<lambda>w6. fbind (setStatus c ON_TRIP w6) (\<lambda>w7.
          fbind (deref (rides w7) (length (rides w))) (\<lambda>r.
            Inr (length (rides w),
                 w7\<lparr>availableDrivers := removeAll c (availableDrivers w7),
                    ongoingRides := (ongoingRides w7)(ride_id r \<mapsto> length (rides w))\<rparr>))))"
  using assms
  by (simp add: requestRide_def createRide_def addRideToHistory_def attachObserver_def
      cout_def Let_def nth_append created_def booked_def)

lemma requestRide_result:
  assumes "requestRide rider p d t w = Inr (ride, w')"
  shows "rider < length (riders w) \<and> ride = length (rides w) \<and>
    (\<exists>out.
       w' = (booked w rider p d t)
              \<lparr>rides := rides w @ [(created w rider p d t)\<lparr>ride_status := CANCELLED\<rparr>],
               console := console w @ out\<rparr>
     \<or> (\<exists>c. c \<in> set (availableDrivers w) \<and>
            matching (drivers w)
              \<lparr>request_rider = rider, pickup = p, drop_loc = d, request_type = t\<rparr> c \<and>
            w' = (booked w rider p d t)
                  \<lparr>rides := rides w @
                     [(created w rider p d t)
                        \<lparr>observers := [RiderNotificationService, DriverNotificationService],
                         ride_driver := Some c, ride_status := DRIVER_ASSIGNED\<rparr>],
                   console := console w @ out,
                   drivers := (drivers w)[c := (drivers w ! c)\<lparr>driver_status := ON_TRIP\<rparr>],
                   availableDrivers := removeAll c (availableDrivers w),
                   ongoingRides := (ongoingRides w)
                     (to_string (rideCounter w + 1) \<mapsto> length (rides w))\<rparr>))"
proof -
  let ?req = "\<lparr>request_rider = rider, pickup = p, drop_loc = d, request_type = t\<rparr>"
  let ?n = "length (rides w)"
  from assms obtain strategy chosen where v: "rider < length (riders w)"
    and c: "rideCounter w \<noteq> INT_MAX" and st: "matchingStrategy w = Some strategy"
    and ch: "chooseDriver strategy (drivers w) ?req (availableDrivers w) = Inr chosen"
    by (auto simp: requestRide_def fbind_Inr_iff deref_Inr_iff createRide_Inr_iff
        addRideToHistory_Inr_iff Let_def cout_def split: option.splits prod.splits)
  show ?thesis
  proof (cases chosen)
    case None
    from requestRide_no_match [OF v c st ch [unfolded None]] assms
    have "ride = ?n" and "w' = (booked w rider p d t)
              \<lparr>rides := rides w @ [(created w rider p d t)\<lparr>ride_status := CANCELLED\<rparr>],
               console := console w @ [RiderRequests (name (riders w ! rider)) t,
                  NoAvailableDrivers (to_string (rideCounter w + 1))]\<rparr>"
      by (simp_all add: booked_def created_def)
    with v show ?thesis by blast
  next
    case (Some cd)
    note m = chooseDriver_chosen [OF ch [unfolded Some]]
    let ?w5 = "(booked w rider p d t)
                 \<lparr>rides := rides w @ [(created w rider p d t)
                     \<lparr>observers := [RiderNotificationService, DriverNotificationService]\<rparr>]\<rparr>"
    from assms requestRide_match [OF v c st ch [unfolded Some]]
    obtain w6 where a: "assignDriver ?n (Some cd) ?w5 = Inr w6"
      and tail: "fbind (setStatus cd ON_TRIP w6) (\<lambda>w7.
          fbind (deref (rides w7) ?n) (\<lambda>r.
            Inr (?n, w7\<lparr>availableDrivers := removeAll cd (availableDrivers w7),
                    ongoingRides := (ongoingRides w7)(ride_id r \<mapsto> ?n)\<rparr>)))
           = Inr (ride, w')"
      by (auto simp: fbind_Inr_iff)
    from assignDriver_result [OF a] obtain out where
      w6: "w6 = ?w5\<lparr>rides := (rides ?w5)[?n := (rides ?w5 ! ?n)
                             \<lparr>ride_driver := Some cd, ride_status := DRIVER_ASSIGNED\<rparr>],
                  console := console ?w5 @ out\<rparr>"
      by blast
    from tail have r: "ride = ?n"
      by (auto simp: fbind_Inr_iff)
    from tail w6 have "w' = (booked w rider p d t)
                  \<lparr>rides := rides w @
                     [(created w rider p d t)
                        \<lparr>observers := [RiderNotificationService, DriverNotificationService],
                         ride_driver := Some cd, ride_status := DRIVER_ASSIGNED\<rparr>],
                   console := console w @ (RiderRequests (name (riders w ! rider)) t # out),
                   drivers := (drivers w)[cd := (drivers w ! cd)\<lparr>driver_status := ON_TRIP\<rparr>],
                   availableDrivers := removeAll cd (availableDrivers w),
                   ongoingRides := (ongoingRides w)
                     (to_string (rideCounter w + 1) \<mapsto> ?n)\<rparr>"
      by (auto simp: fbind_Inr_iff setStatus_Inr_iff deref_Inr_iff created_def booked_def)
    with m v r show ?thesis by blast
  qed
qed

text \<open>
  Claim C8. When the active strategy returns no driver for the request, \<open>requestRide\<close>
  returns normally for a valid rider pointer (short of overflow of the ride counter): the
  ride it returns is the newly created one, its status is \<open>CANCELLED\<close>, it has no driver,
  and the ongoing-ride registry, the drivers and the pool are as before; since the registry
  held only pointers to rides that existed, no entry of it is the new ride.
\<close>

theorem requestRide_unmatched:
  assumes "rider < length (riders w)" and "rideCounter w \<noteq> INT_MAX"
    and "matchingStrategy w = Some strategy"
    and "chooseDriver strategy (drivers w)
           \<lparr>request_rider = rider, pickup = p, drop_loc = d, request_type = t\<rparr>
           (availableDrivers w) = Inr None"
  shows "\<exists>w'. requestRide rider p d t w = Inr (length (rides w), w') \<and>
     ride_status (rides w' ! length (rides w)) = CANCELLED \<and>
     ride_driver (rides w' ! length (rides w)) = None \<and>
     ongoingRides w' = ongoingRides w \<and>
     drivers w' = drivers w \<and> availableDrivers w' = availableDrivers w \<and>
     ((\<forall>k q. ongoingRides w k = Some q \<longrightarrow> q < length (rides w)) \<longrightarrow>
        (\<forall>k. ongoingRides w' k \<noteq> Some (length (rides w))))"
  using requestRide_no_match [OF assms] by auto

text \<open>A rider asks for an SUV where only sedans are available.\<close>

theorem requestRide_unmatched_witness:
  "0 < length (riders new_ride_world) \<and> rideCounter new_ride_world \<noteq> INT_MAX \<and>
   matchingStrategy new_ride_world = Some NearestDriverStrategy \<and>
   chooseDriver NearestDriverStrategy (drivers new_ride_world)
     \<lparr>request_rider = 0, pickup = origin, drop_loc = uptown, request_type = SUV\<rparr>
     (availableDrivers new_ride_world) = Inr None \<and>
   (\<exists>w'. requestRide 0 origin uptown SUV new_ride_world = Inr (1, w') \<and>
     ride_status (rides w' ! 1) = CANCELLED \<and>
     ride_driver (rides w' ! 1) = None \<and>
     ongoingRides w' = ongoingRides new_ride_world \<and>
     (\<forall>k. ongoingRides w' k \<noteq> Some 1))"
proof -
  have h1: "0 < length (riders new_ride_world)"
    and h2: "rideCounter new_ride_world \<noteq> INT_MAX"
    and h3: "matchingStrategy new_ride_world = Some NearestDriverStrategy"
    by (simp_all add: new_ride_world_def World0_def INT_MAX_def)
  have h4: "chooseDriver NearestDriverStrategy (drivers new_ride_world)
     \<lparr>request_rider = 0, pickup = origin, drop_loc = uptown, request_type = SUV\<rparr>
     (availableDrivers new_ride_world) = Inr None"
    by (simp add: new_ride_world_def example_defs)
  have h5: "length (rides new_ride_world) = 1"
    and h6: "\<forall>k q. ongoingRides new_ride_world k = Some q \<longrightarrow> q < length (rides new_ride_world)"
    by (simp_all add: new_ride_world_def World0_def)
  show ?thesis
    using h1 h2 h3 h4 h6 requestRide_unmatched [OF h1 h2 h3 h4] unfolding h5 by blast
qed

subsection \<open>completeRide\<close>

lemma processPayment_any:
  "processPayment pp ride amount w =
     fbind (deref (rides w) ride) (\<lambda>r. Inr (True, cout (ProcessingPayment amount (ride_id r)) w))"
  by (cases pp) simp

lemma completeRide_result:
  assumes "completeRide rideId w = Inr w'" and "ongoingRides w rideId = Some p"
  shows "p < length (rides w) \<and> ride_rider (rides w ! p) < length (riders w) \<and>
    (\<exists>d f out. ride_driver (rides w ! p) = Some d \<and> d < length (drivers w) \<and>
       (\<forall>rid. PaymentFailed rid \<notin> set out) \<and>
       w' = w\<lparr>rides := (rides w)[p := (rides w ! p)
                          \<lparr>ride_status := COMPLETED, fare := f, paid := True\<rparr>],
              console := console w @ out,
              drivers := (drivers w)[d := (drivers w ! d)\<lparr>driver_status := AVAILABLE\<rparr>],
              availableDrivers := availableDrivers w @ [d],
              ongoingRides := (ongoingRides w)(rideId := None),
              completedRides := completedRides w @ [p]\<rparr>)"
proof -
  from assms obtain w1 where u: "updateStatus p COMPLETED w = Inr w1"
    by (auto simp: completeRide_def fbind_Inr_iff)
  from updateStatus_result [OF u] obtain out where v: "p < length (rides w)"
    and w1: "w1 = w\<lparr>rides := (rides w)[p := (rides w ! p)\<lparr>ride_status := COMPLETED\<rparr>],
                    console := console w @ out\<rparr>"
    and n: "\<forall>l\<in>set out. notification l"
    by blast
  let ?f = "fare (rides w' ! p)"
  from assms u have "ride_rider (rides w ! p) < length (riders w) \<and>
    (\<exists>d. ride_driver (rides w ! p) = Some d \<and> d < length (drivers w) \<and>
       w' = w\<lparr>rides := (rides w)[p := (rides w ! p)
                          \<lparr>ride_status := COMPLETED, fare := ?f, paid := True\<rparr>],
              console := console w @ out @
                [ProcessingPayment ?f (ride_id (rides w ! p)),
                 PaymentSuccessful (name (riders w ! ride_rider (rides w ! p))) ?f,
                 DriverNowAvailable (name (drivers w ! d)),
                 RideArchived rideId],
              drivers := (drivers w)[d := (drivers w ! d)\<lparr>driver_status := AVAILABLE\<rparr>],
              availableDrivers := availableDrivers w @ [d],
              ongoingRides := (ongoingRides w)(rideId := None),
              completedRides := completedRides w @ [p]\<rparr>)"
    by (clarsimp simp: completeRide_def w1 deref_Inr_iff setFare_Inr_iff setPaid_Inr_iff
        setStatus_Inr_iff processPayment_any fbind_Inr_iff Let_def cout_def
        split: option.splits)
  then obtain d f where r: "ride_rider (rides w ! p) < length (riders w)"
    and d: "ride_driver (rides w ! p) = Some d" "d < length (drivers w)"
    and w': "w' = w\<lparr>rides := (rides w)[p := (rides w ! p)
                          \<lparr>ride_status := COMPLETED, fare := f, paid := True\<rparr>],
              console := console w @ (out @
                [ProcessingPayment f (ride_id (rides w ! p)),
                 PaymentSuccessful (name (riders w ! ride_rider (rides w ! p))) f,
                 DriverNowAvailable (name (drivers w ! d)),
                 RideArchived rideId]),
              drivers := (drivers w)[d := (drivers w ! d)\<lparr>driver_status := AVAILABLE\<rparr>],
              availableDrivers := availableDrivers w @ [d],
              ongoingRides := (ongoingRides w)(rideId := None),
              completedRides := completedRides w @ [p]\<rparr>"
    by auto
  have "\<forall>rid. PaymentFailed rid \<notin> set (out @
                [ProcessingPayment f (ride_id (rides w ! p)),
                 PaymentSuccessful (name (riders w ! ride_rider (rides w ! p))) f,
                 DriverNowAvailable (name (drivers w ! d)),
                 RideArchived rideId])"
    using n by auto
  with v r d w' show ?thesis by blast
qed

lemma completeRide_total:
  assumes "ongoingRides w rideId = Some p" and "ride_ready w p"
  shows "\<exists>w'. completeRide rideId w = Inr w'"
proof -
  from assms(2) obtain d v where v: "p < length (rides w)"
    and n: "notifiable w (rides w ! p)"
    and r: "ride_rider (rides w ! p) < length (riders w)"
    and d: "ride_driver (rides w ! p) = Some d" "d < length (drivers w)"
      "vehicle (drivers w ! d) = Some v"
    by (auto simp: ride_ready_def split: option.splits)
  from updateStatus_total [OF v n, of COMPLETED] obtain w1
    where u: "updateStatus p COMPLETED w = Inr w1" by blast
  from updateStatus_result [OF u] obtain out where
    w1: "w1 = w\<lparr>rides := (rides w)[p := (rides w ! p)\<lparr>ride_status := COMPLETED\<rparr>],
                    console := console w @ out\<rparr>"
    by blast
  have "\<And>c. \<exists>f. calculate c p w1 = Inr f"
    using v d by (intro calculate_total [where d = d and v = v]) (simp_all add: w1)
  then obtain f where f: "calculate (tariff w1 (riders w1 ! ride_rider (rides w1 ! p))) p w1 = Inr f"
    by blast
  show ?thesis
    using assms(1) u f v r d
    by (simp add: completeRide_def tariff_def Let_def w1 setFare_def setPaid_def setStatus_def
        processPayment_any cout_def)
qed

text \<open>
  Claim C10. The payment processor of the dispatch service reports success whenever it
  returns, for every ride and amount. Hence \<open>completeRide\<close> on a ride of the registry whose
  pointers can be followed returns normally with the ride completed and marked as paid, and
  none of the lines it prints is the payment-failure line: that branch is never taken.
\<close>

theorem completeRide_always_paid:
  assumes "ongoingRides w rideId = Some p" and "ride_ready w p"
  shows "(\<forall>ride amount w0 b w1.
            processPayment (paymentProcessor w) ride amount w0 = Inr (b, w1) \<longrightarrow> b) \<and>
     (\<exists>w' out. completeRide rideId w = Inr w' \<and>
        paid (rides w' ! p) \<and> ride_status (rides w' ! p) = COMPLETED \<and>
        console w' = console w @ out \<and> (\<forall>rid. PaymentFailed rid \<notin> set out))"
proof -
  have "\<forall>ride amount w0 b w1.
          processPayment (paymentProcessor w) ride amount w0 = Inr (b, w1) \<longrightarrow> b"
    by (auto simp: processPayment_any fbind_Inr_iff)
  moreover from completeRide_total [OF assms] obtain w'
    where c: "completeRide rideId w = Inr w'" by blast
  from completeRide_result [OF c assms(1)]
  have "\<exists>out. paid (rides w' ! p) \<and> ride_status (rides w' ! p) = COMPLETED \<and>
        console w' = console w @ out \<and> (\<forall>rid. PaymentFailed rid \<notin> set out)"
    by auto
  ultimately show ?thesis using c by blast
qed

text \<open>The ongoing ride of \<open>trip_world\<close> is completed.\<close>

theorem completeRide_always_paid_witness:
  "ongoingRides trip_world ''1'' = Some 0 \<and> ride_ready trip_world 0 \<and>
   \<not> paid (rides trip_world ! 0) \<and>
   (\<exists>w' out. completeRide ''1'' trip_world = Inr w' \<and>
        paid (rides w' ! 0) \<and> ride_status (rides w' ! 0) = COMPLETED \<and>
        console w' = console trip_world @ out \<and> (\<forall>rid. PaymentFailed rid \<notin> set out))"
proof -
  have h1: "ongoingRides trip_world ''1'' = Some 0"
    by (simp add: trip_world_def)
  have h2: "ride_ready trip_world 0"
    by (simp add: ride_ready_def notifiable_def trip_world_def trip_def alice_def)
  have h3: "\<not> paid (rides trip_world ! 0)"
    by (simp add: trip_world_def trip_def)
  show ?thesis
    using h1 h2 h3 completeRide_always_paid [OF h1 h2] by blast
qed

section \<open>Invariants of client programs\<close>

subsection \<open>The pool of available drivers\<close>

lemma pool_inv_grow:
  assumes "pool_inv T w"
    and "availableDrivers w' = availableDrivers w \<and> drivers w' = drivers w @ new"
  shows "pool_inv T w'"
  using assms unfolding pool_inv_def by (fastforce simp: nth_append)

lemma pool_inv_same:
  assumes "pool_inv T w"
    and "availableDrivers w' = availableDrivers w \<and> drivers w' = drivers w"
  shows "pool_inv T w'"
  using assms unfolding pool_inv_def by simp

lemma pool_inv_add:
  assumes "pool_inv T w"
    and "c < length (drivers w) \<and>
         drivers w' = (drivers w)[c := (drivers w ! c)\<lparr>driver_status := AVAILABLE\<rparr>] \<and>
         availableDrivers w' = availableDrivers w @ [c]"
  shows "pool_inv (insert c T) w'"
proof -
  from assms(2) have c: "c < length (drivers w)"
    and len: "length (drivers w') = length (drivers w)"
    and pool: "set (availableDrivers w') = insert c (set (availableDrivers w))"
    by simp_all
  from assms(2) have st: "\<And>d. d < length (drivers w) \<Longrightarrow>
      driver_status (drivers w' ! d) = (if d = c then AVAILABLE else driver_status (drivers w ! d))"
    by (simp add: nth_list_update)
  from assms(1) have old1: "\<And>d. d \<in> set (availableDrivers w) \<Longrightarrow>
      d < length (drivers w) \<and> driver_status (drivers w ! d) = AVAILABLE"
    and old2: "\<And>d. d \<in> T \<Longrightarrow> d < length (drivers w) \<and>
      (driver_status (drivers w ! d) = AVAILABLE \<longrightarrow> d \<in> set (availableDrivers w))"
    by (simp_all add: pool_inv_def)
  have "\<And>d. d \<in> set (availableDrivers w') \<Longrightarrow>
      d < length (drivers w') \<and> driver_status (drivers w' ! d) = AVAILABLE"
    using c len pool st old1 by (metis insertE)
  moreover have "\<And>d. d \<in> insert c T \<Longrightarrow> d < length (drivers w') \<and>
      (driver_status (drivers w' ! d) = AVAILABLE \<longrightarrow> d \<in> set (availableDrivers w'))"
    using c len pool st old2 by (metis insertE insertI1 insertI2)
  ultimately show ?thesis by (simp add: pool_inv_def)
qed

lemma pool_inv_remove:
  assumes "pool_inv T w"
    and "c < length (drivers w) \<and>
         drivers w' = (drivers w)[c := (drivers w ! c)\<lparr>driver_status := s\<rparr>] \<and>
         availableDrivers w' = removeAll c (availableDrivers w)"
    and "s \<noteq> AVAILABLE"
  shows "pool_inv (insert c T) w'"
  using assms unfolding pool_inv_def by (auto simp: nth_list_update)

lemma pool_inv_subset: "pool_inv T w \<Longrightarrow> S \<subseteq> T \<Longrightarrow> pool_inv S w"
  unfolding pool_inv_def by blast

lemma requestRide_pool:
  assumes "requestRide r p d t w = Inr (ride, w')"
  shows "(availableDrivers w' = availableDrivers w \<and> drivers w' = drivers w) \<or>
    (\<exists>c. c \<in> set (availableDrivers w) \<and>
       drivers w' = (drivers w)[c := (drivers w ! c)\<lparr>driver_status := ON_TRIP\<rparr>] \<and>
       availableDrivers w' = removeAll c (availableDrivers w))"
proof -
  from requestRide_result [OF assms] obtain out where
    "w' = (booked w r p d t)
              \<lparr>rides := rides w @ [(created w r p d t)\<lparr>ride_status := CANCELLED\<rparr>],
               console := console w @ out\<rparr>
     \<or> (\<exists>c. c \<in> set (availableDrivers w) \<and>
            matching (drivers w)
              \<lparr>request_rider = r, pickup = p, drop_loc = d, request_type = t\<rparr> c \<and>
            w' = (booked w r p d t)
                  \<lparr>rides := rides w @
                     [(created w r p d t)
                        \<lparr>observers := [RiderNotificationService, DriverNotificationService],
                         ride_driver := Some c, ride_status := DRIVER_ASSIGNED\<rparr>],
                   console := console w @ out,
                   drivers := (drivers w)[c := (drivers w ! c)\<lparr>driver_status := ON_TRIP\<rparr>],
                   availableDrivers := removeAll c (availableDrivers w),
                   ongoingRides := (ongoingRides w)
                     (to_string (rideCounter w + 1) \<mapsto> length (rides w))\<rparr>)"
    by blast
  then show ?thesis
  proof
    assume "w' = (booked w r p d t)
              \<lparr>rides := rides w @ [(created w r p d t)\<lparr>ride_status := CANCELLED\<rparr>],
               console := console w @ out\<rparr>"
    then have "availableDrivers w' = availableDrivers w \<and> drivers w' = drivers w"
      by (simp add: booked_def)
    then show ?thesis ..
  next
    assume "\<exists>c. c \<in> set (availableDrivers w) \<and>
            matching (drivers w)
              \<lparr>request_rider = r, pickup = p, drop_loc = d, request_type = t\<rparr> c \<and>
            w' = (booked w r p d t)
                  \<lparr>rides := rides w @
                     [(created w r p d t)
                        \<lparr>observers := [RiderNotificationService, DriverNotificationService],
                         ride_driver := Some c, ride_status := DRIVER_ASSIGNED\<rparr>],
                   console := console w @ out,
                   drivers := (drivers w)[c := (drivers w ! c)\<lparr>driver_status := ON_TRIP\<rparr>],
                   availableDrivers := removeAll c (availableDrivers w),
                   ongoingRides := (ongoingRides w)
                     (to_string (rideCounter w + 1) \<mapsto> length (rides w))\<rparr>"
    then obtain c where c: "c \<in> set (availableDrivers w)"
      and w': "w' = (booked w r p d t)
                  \<lparr>rides := rides w @
                     [(created w r p d t)
                        \<lparr>observers := [RiderNotificationService, DriverNotificationService],
                         ride_driver := Some c, ride_status := DRIVER_ASSIGNED\<rparr>],
                   console := console w @ out,
                   drivers := (drivers w)[c := (drivers w ! c)\<lparr>driver_status := ON_TRIP\<rparr>],
                   availableDrivers := removeAll c (availableDrivers w),
                   ongoingRides := (ongoingRides w)
                     (to_string (rideCounter w + 1) \<mapsto> length (rides w))\<rparr>"
      by blast
    have "c \<in> set (availableDrivers w) \<and>
       drivers w' = (drivers w)[c := (drivers w ! c)\<lparr>driver_status := ON_TRIP\<rparr>] \<and>
       availableDrivers w' = removeAll c (availableDrivers w)"
      using c by (simp add: w')
    then show ?thesis by blast
  qed
qed

lemma completeRide_pool:
  assumes "completeRide rideId w = Inr w'"
  shows "(availableDrivers w' = availableDrivers w \<and> drivers w' = drivers w) \<or>
    (\<exists>c. c < length (drivers w) \<and>
       drivers w' = (drivers w)[c := (drivers w ! c)\<lparr>driver_status := AVAILABLE\<rparr>] \<and>
       availableDrivers w' = availableDrivers w @ [c])"
proof (cases "ongoingRides w rideId")
  case None
  with assms have "w' = cout (RideNotFound rideId) w"
    by (simp add: completeRide_def)
  then have "availableDrivers w' = availableDrivers w \<and> drivers w' = drivers w"
    by (simp add: cout_def)
  then show ?thesis ..
next
  case (Some p)
  from completeRide_result [OF assms Some] obtain c f out where c: "c < length (drivers w)"
    and w': "w' = w\<lparr>rides := (rides w)[p := (rides w ! p)
                          \<lparr>ride_status := COMPLETED, fare := f, paid := True\<rparr>],
              console := console w @ out,
              drivers := (drivers w)[c := (drivers w ! c)\<lparr>driver_status := AVAILABLE\<rparr>],
              availableDrivers := availableDrivers w @ [c],
              ongoingRides := (ongoingRides w)(rideId := None),
              completedRides := completedRides w @ [p]\<rparr>"
    by blast
  have "c < length (drivers w) \<and>
       drivers w' = (drivers w)[c := (drivers w ! c)\<lparr>driver_status := AVAILABLE\<rparr>] \<and>
       availableDrivers w' = availableDrivers w @ [c]"
    using c by (simp add: w')
  then show ?thesis by blast
qed

lemma updateRideStatus_pool:
  assumes "updateRideStatus rideId s w = Inr w'"
  shows "availableDrivers w' = availableDrivers w \<and> drivers w' = drivers w"
proof (cases "ongoingRides w rideId")
  case None
  with assms have "w' = cout (RideNotFound rideId) w"
    by (simp add: updateRideStatus_def)
  then show ?thesis by (simp add: cout_def)
next
  case (Some p)
  with assms have "updateStatus p s w = Inr w'"
    by (simp add: updateRideStatus_def)
  from updateStatus_result [OF this] obtain out where
    "w' = w\<lparr>rides := (rides w)[p := (rides w ! p)\<lparr>ride_status := s\<rparr>],
            console := console w @ out\<rparr>"
    by blast
  then show ?thesis by simp
qed

lemma step_pool_inv:
  assumes "pool_inv T w" and "step op w = Inr w'"
  shows "pool_inv (T \<union> handled op) w'"
proof (cases op)
  case (NewDriver n p v loc r)
  with assms(2) have "availableDrivers w' = availableDrivers w \<and>
      drivers w' = drivers w @ [\<lparr>user_id = idCounter w + 1, name = n, phone = p, vehicle = v,
        driver_location = loc, driver_status = AVAILABLE, rating = r\<rparr>]"
    by (auto simp: new_Driver_def fbind_Inr_iff Let_def split: if_splits)
  with assms(1) have "pool_inv T w'" by (rule pool_inv_grow)
  then show ?thesis using NewDriver by simp
next
  case (NewRider n p loc)
  with assms(2) have "availableDrivers w' = availableDrivers w \<and> drivers w' = drivers w"
    by (auto simp: new_Rider_def fbind_Inr_iff Let_def split: if_splits)
  with assms(1) have "pool_inv T w'" by (rule pool_inv_same)
  then show ?thesis using NewRider by simp
next
  case (SetDiscountAmount r amt)
  with assms(2) have "availableDrivers w' = availableDrivers w \<and> drivers w' = drivers w"
    by (auto simp: setDiscountAmount_def fbind_Inr_iff)
  with assms(1) have "pool_inv T w'" by (rule pool_inv_same)
  then show ?thesis using SetDiscountAmount by simp
next
  case (SetMatchingStrategy s)
  with assms(2) have "availableDrivers w' = availableDrivers w \<and> drivers w' = drivers w"
    by (auto simp: setMatchingStrategy_def)
  with assms(1) have "pool_inv T w'" by (rule pool_inv_same)
  then show ?thesis using SetMatchingStrategy by simp
next
  case (ActivateSurge m)
  with assms(2) have "availableDrivers w' = availableDrivers w \<and> drivers w' = drivers w"
    by (auto simp: activateSurge_def)
  with assms(1) have "pool_inv T w'" by (rule pool_inv_same)
  then show ?thesis using ActivateSurge by simp
next
  case DeactivateSurge
  with assms(2) have "availableDrivers w' = availableDrivers w \<and> drivers w' = drivers w"
    by (auto simp: deactivateSurge_def)
  with assms(1) have "pool_inv T w'" by (rule pool_inv_same)
  then show ?thesis using DeactivateSurge by simp
next
  case (RegisterDriver d)
  with assms(2) have "d < length (drivers w) \<and>
      drivers w' = (drivers w)[d := (drivers w ! d)\<lparr>driver_status := AVAILABLE\<rparr>] \<and>
      availableDrivers w' = availableDrivers w @ [d]"
    by (auto simp: registerDriver_Inr_iff)
  with assms(1) have "pool_inv (insert d T) w'" by (rule pool_inv_add)
  then show ?thesis using RegisterDriver by simp
next
  case (DeregisterDriver d)
  with assms(2) have "d < length (drivers w) \<and>
      drivers w' = (drivers w)[d := (drivers w ! d)\<lparr>driver_status := OFFLINE\<rparr>] \<and>
      availableDrivers w' = removeAll d (availableDrivers w)"
    by (auto simp: deregisterDriver_Inr_iff)
  with assms(1) have "pool_inv (insert d T) w'"
    by (rule pool_inv_remove [where s = OFFLINE]) simp
  then show ?thesis using DeregisterDriver by simp
next
  case (RequestRide r p d t)
  with assms(2) obtain ride where "requestRide r p d t w = Inr (ride, w')"
    by (auto simp: fbind_Inr_iff)
  from requestRide_pool [OF this] have "pool_inv T w'"
  proof
    assume "availableDrivers w' = availableDrivers w \<and> drivers w' = drivers w"
    with assms(1) show ?thesis by (rule pool_inv_same)
  next
    assume "\<exists>c. c \<in> set (availableDrivers w) \<and>
       drivers w' = (drivers w)[c := (drivers w ! c)\<lparr>driver_status := ON_TRIP\<rparr>] \<and>
       availableDrivers w' = removeAll c (availableDrivers w)"
    then obtain c where c: "c \<in> set (availableDrivers w)"
      and e: "drivers w' = (drivers w)[c := (drivers w ! c)\<lparr>driver_status := ON_TRIP\<rparr>]"
        "availableDrivers w' = removeAll c (availableDrivers w)"
      by blast
    from c assms(1) have "c < length (drivers w)"
      by (simp add: pool_inv_def)
    with e have "c < length (drivers w) \<and>
       drivers w' = (drivers w)[c := (drivers w ! c)\<lparr>driver_status := ON_TRIP\<rparr>] \<and>
       availableDrivers w' = removeAll c (availableDrivers w)"
      by simp
    with assms(1) have "pool_inv (insert c T) w'"
      by (rule pool_inv_remove [where s = ON_TRIP]) simp
    then show ?thesis by (rule pool_inv_subset) blast
  qed
  then show ?thesis using RequestRide by simp
next
  case (UpdateRideStatus rideId s)
  with assms(2) have "updateRideStatus rideId s w = Inr w'" by simp
  from assms(1) updateRideStatus_pool [OF this] have "pool_inv T w'"
    by (rule pool_inv_same)
  then show ?thesis using UpdateRideStatus by simp
next
  case (CompleteRide rideId)
  with assms(2) have "completeRide rideId w = Inr w'" by simp
  from completeRide_pool [OF this] have "pool_inv T w'"
  proof
    assume "availableDrivers w' = availableDrivers w \<and> drivers w' = drivers w"
    with assms(1) show ?thesis by (rule pool_inv_same)
  next
    assume "\<exists>c. c < length (drivers w) \<and>
       drivers w' = (drivers w)[c := (drivers w ! c)\<lparr>driver_status := AVAILABLE\<rparr>] \<and>
       availableDrivers w' = availableDrivers w @ [c]"
    then obtain c where "c < length (drivers w) \<and>
       drivers w' = (drivers w)[c := (drivers w ! c)\<lparr>driver_status := AVAILABLE\<rparr>] \<and>
       availableDrivers w' = availableDrivers w @ [c]"
      by blast
    with assms(1) have "pool_inv (insert c T) w'" by (rule pool_inv_add)
    then show ?thesis by (rule pool_inv_subset) blast
  qed
  then show ?thesis using CompleteRide by simp
qed

lemma run_pool_inv:
  "pool_inv T w \<Longrightarrow> run ops w = Inr w' \<Longrightarrow> pool_inv (T \<union> \<Union> (handled ` set ops)) w'"
proof (induction ops arbitrary: T w)
  case Nil
  then show ?case by simp
next
  case (Cons op ops)
  from Cons.prems(2) obtain w1 where s: "step op w = Inr w1" and r: "run ops w1 = Inr w'"
    by (auto split: sum.splits)
  from step_pool_inv [OF Cons.prems(1) s] have "pool_inv (T \<union> handled op) w1" .
  from Cons.IH [OF this r] show ?case by (simp add: Un_assoc)
qed

lemma handled_cases: "d \<in> handled op \<longleftrightarrow> op = RegisterDriver d \<or> op = DeregisterDriver d"
  by (cases op) auto

lemma handled_iff:
  "d \<in> \<Union> (handled ` set ops) \<longleftrightarrow> RegisterDriver d \<in> set ops \<or> DeregisterDriver d \<in> set ops"
  by (auto simp: handled_cases)


text \<open>
  Claim C2, as stated, fails: the constructor of \<open>Driver\<close> sets the status to \<open>AVAILABLE\<close>,
  so a driver that was constructed and never registered is available and not in the pool.
  After Alice and Bob are constructed and Alice is registered, Bob is such a driver.
\<close>

theorem available_pool_counterexample:
  "availableDrivers World0 = [] \<and>
   run [NewDriver ''Alice'' ''9999990001'' (Some sedan) origin 4,
        NewDriver ''Bob'' ''9999990002'' (Some sedan) uptown 5,
        RegisterDriver 0] World0 = Inr two_drivers_world \<and>
   driver_status (drivers two_drivers_world ! 1) = AVAILABLE \<and>
   1 \<notin> set (availableDrivers two_drivers_world)"
  by (simp add: two_drivers_world_def World0_def new_Driver_def registerDriver_def setStatus_def
      driver_line_def INT_MAX_def cout_def Let_def example_defs)

text \<open>
  Claim C2, amended. After every sequence of operations that starts from an empty pool and
  returns normally, every driver in the available list is a valid pointer with status
  \<open>AVAILABLE\<close>; and a driver that the sequence has registered or deregistered is in the list
  if and only if its status is \<open>AVAILABLE\<close>.
\<close>

theorem available_pool_invariant:
  assumes "availableDrivers w0 = []" and "run ops w0 = Inr w"
  shows "(\<forall>d\<in>set (availableDrivers w).
            d < length (drivers w) \<and> driver_status (drivers w ! d) = AVAILABLE) \<and>
         (\<forall>d. RegisterDriver d \<in> set ops \<or> DeregisterDriver d \<in> set ops \<longrightarrow>
            (d \<in> set (availableDrivers w) \<longleftrightarrow> driver_status (drivers w ! d) = AVAILABLE))"
proof -
  have "pool_inv {} w0" using assms(1) by (simp add: pool_inv_def)
  from run_pool_inv [OF this assms(2)] have "pool_inv (\<Union> (handled ` set ops)) w" by simp
  then show ?thesis unfolding pool_inv_def handled_iff [symmetric] by blast
qed

text \<open>Alice is registered and deregistered, Bob is registered.\<close>

theorem available_pool_invariant_witness:
  "availableDrivers World0 = [] \<and>
   run [NewDriver ''Alice'' ''9999990001'' (Some sedan) origin 4,
        NewDriver ''Bob'' ''9999990002'' (Some sedan) uptown 5,
        RegisterDriver 0, RegisterDriver 1, DeregisterDriver 0] World0 = Inr offline_world \<and>
   0 \<notin> set (availableDrivers offline_world) \<and>
   driver_status (drivers offline_world ! 0) \<noteq> AVAILABLE \<and>
   1 \<in> set (availableDrivers offline_world) \<and>
   driver_status (drivers offline_world ! 1) = AVAILABLE"
proof -
  let ?ops = "[NewDriver ''Alice'' ''9999990001'' (Some sedan) origin 4,
        NewDriver ''Bob'' ''9999990002'' (Some sedan) uptown 5,
        RegisterDriver 0, RegisterDriver 1, DeregisterDriver 0]"
  have h1: "availableDrivers World0 = []"
    by (simp add: World0_def)
  have h2: "run ?ops World0 = Inr offline_world"
    by (simp add: offline_world_def World0_def new_Driver_def registerDriver_def
        deregisterDriver_def setStatus_def driver_line_def INT_MAX_def cout_def Let_def
        example_defs)
  note inv = available_pool_invariant [OF h1 h2]
  have e0: "0 \<in> set (availableDrivers offline_world) \<longleftrightarrow>
      driver_status (drivers offline_world ! 0) = AVAILABLE"
    by (rule inv [THEN conjunct2, THEN spec, THEN mp]) simp
  have e1: "1 \<in> set (availableDrivers offline_world) \<longleftrightarrow>
      driver_status (drivers offline_world ! 1) = AVAILABLE"
    by (rule inv [THEN conjunct2, THEN spec, THEN mp]) simp
  have a: "0 \<notin> set (availableDrivers offline_world)"
    and c: "1 \<in> set (availableDrivers offline_world)"
    by (simp_all add: offline_world_def)
  from a e0 have s0: "driver_status (drivers offline_world ! 0) \<noteq> AVAILABLE" by simp
  from c e1 have s1: "driver_status (drivers offline_world ! 1) = AVAILABLE" by simp
  show ?thesis using h1 h2 a s0 c s1 by (intro conjI)
qed

subsection \<open>The ongoing-ride registry\<close>

text \<open>In every world a client program reaches from \<open>World0\<close>, the rides of the registry
  are ready for \<open>completeRide\<close>: the hypothesis of claim C10 holds for each of them.\<close>

lemma ride_ready_extends:
  assumes "ride_ready w p" and "extends w w'"
  shows "ride_ready w' p"
proof -
  from assms(1) obtain d where p: "p < length (rides w)"
    and n: "notifiable w (rides w ! p)"
    and r: "ride_rider (rides w ! p) < length (riders w)"
    and d: "ride_driver (rides w ! p) = Some d" "d < length (drivers w)"
      "vehicle (drivers w ! d) \<noteq> None"
    by (auto simp: ride_ready_def split: option.splits)
  from assms(2) p have same: "ride_rider (rides w' ! p) = ride_rider (rides w ! p)"
      "ride_driver (rides w' ! p) = ride_driver (rides w ! p)"
      "observers (rides w' ! p) = observers (rides w ! p)"
    and len: "length (drivers w) \<le> length (drivers w')" "length (riders w) \<le> length (riders w')"
      "length (rides w) \<le> length (rides w')"
    by (simp_all add: extends_def)
  from assms(2) d(2) have v: "vehicle (drivers w' ! d) = vehicle (drivers w ! d)"
    by (simp add: extends_def)
  have "p < length (rides w')" using p len by simp
  moreover have "ride_rider (rides w' ! p) < length (riders w')" using r len same by simp
  moreover have "d < length (drivers w')" using d len by simp
  moreover have "notifiable w' (rides w' ! p)"
    using n same len d by (auto simp: notifiable_def)
  ultimately show ?thesis using same d v by (simp add: ride_ready_def)
qed

lemma registry_ready_extends:
  assumes "registry_ready w" and "extends w w'"
    and "\<forall>k p. ongoingRides w' k = Some p \<longrightarrow> ongoingRides w k = Some p"
  shows "registry_ready w'"
  using assms ride_ready_extends unfolding registry_ready_def by blast

lemma extends_refl_fields:
  assumes "drivers w' = drivers w" and "riders w' = riders w" and "rides w' = rides w"
  shows "extends w w'"
  using assms by (simp add: extends_def)

lemma requestRide_registry:
  assumes "registry_ready w" and "requestRide r p d t w = Inr (ride, w')"
  shows "registry_ready w'"
proof -
  let ?n = "length (rides w)"
  from requestRide_result [OF assms(2)] obtain out where v: "r < length (riders w)"
    and alt: "w' = (booked w r p d t)
              \<lparr>rides := rides w @ [(created w r p d t)\<lparr>ride_status := CANCELLED\<rparr>],
               console := console w @ out\<rparr>
     \<or> (\<exists>c. c \<in> set (availableDrivers w) \<and>
            matching (drivers w)
              \<lparr>request_rider = r, pickup = p, drop_loc = d, request_type = t\<rparr> c \<and>
            w' = (booked w r p d t)
                  \<lparr>rides := rides w @
                     [(created w r p d t)
                        \<lparr>observers := [RiderNotificationService, DriverNotificationService],
                         ride_driver := Some c, ride_status := DRIVER_ASSIGNED\<rparr>],
                   console := console w @ out,
                   drivers := (drivers w)[c := (drivers w ! c)\<lparr>driver_status := ON_TRIP\<rparr>],
                   availableDrivers := removeAll c (availableDrivers w),
                   ongoingRides := (ongoingRides w)
                     (to_string (rideCounter w + 1) \<mapsto> length (rides w))\<rparr>)"
    by blast
  from alt show ?thesis
  proof
    assume w': "w' = (booked w r p d t)
              \<lparr>rides := rides w @ [(created w r p d t)\<lparr>ride_status := CANCELLED\<rparr>],
               console := console w @ out\<rparr>"
    have ext: "extends w w'"
    by (auto simp: w' booked_def extends_def nth_append)
    have sub: "\<forall>k q. ongoingRides w' k = Some q \<longrightarrow> ongoingRides w k = Some q"
      by (simp add: w' booked_def)
    from assms(1) ext sub show ?thesis by (rule registry_ready_extends)
  next
    assume "\<exists>c. c \<in> set (availableDrivers w) \<and>
            matching (drivers w)
              \<lparr>request_rider = r, pickup = p, drop_loc = d, request_type = t\<rparr> c \<and>
            w' = (booked w r p d t)
                  \<lparr>rides := rides w @
                     [(created w r p d t)
                        \<lparr>observers := [RiderNotificationService, DriverNotificationService],
                         ride_driver := Some c, ride_status := DRIVER_ASSIGNED\<rparr>],
                   console := console w @ out,
                   drivers := (drivers w)[c := (drivers w ! c)\<lparr>driver_status := ON_TRIP\<rparr>],
                   availableDrivers := removeAll c (availableDrivers w),
                   ongoingRides := (ongoingRides w)
                     (to_string (rideCounter w + 1) \<mapsto> length (rides w))\<rparr>"
    then obtain c where m: "matching (drivers w)
              \<lparr>request_rider = r, pickup = p, drop_loc = d, request_type = t\<rparr> c"
      and w': "w' = (booked w r p d t)
                  \<lparr>rides := rides w @
                     [(created w r p d t)
                        \<lparr>observers := [RiderNotificationService, DriverNotificationService],
                         ride_driver := Some c, ride_status := DRIVER_ASSIGNED\<rparr>],
                   console := console w @ out,
                   drivers := (drivers w)[c := (drivers w ! c)\<lparr>driver_status := ON_TRIP\<rparr>],
                   availableDrivers := removeAll c (availableDrivers w),
                   ongoingRides := (ongoingRides w)
                     (to_string (rideCounter w + 1) \<mapsto> length (rides w))\<rparr>"
      by blast
    from m have c: "c < length (drivers w)" "vehicle (drivers w ! c) \<noteq> None"
      by (auto simp: matching_def split: option.splits)
    have ext: "extends w w'"
    by (auto simp: w' booked_def extends_def nth_append nth_list_update_any)
    have new: "ride_ready w' ?n"
      using v c
      by (simp add: w' booked_def created_def ride_ready_def notifiable_def nth_list_update_any)
    show ?thesis unfolding registry_ready_def
    proof (intro allI impI)
      fix k q
      assume "ongoingRides w' k = Some q"
      then have "q = ?n \<or> ongoingRides w k = Some q"
        by (auto simp: w' booked_def split: if_splits)
      then show "ride_ready w' q"
      proof
        assume "q = ?n"
        with new show ?thesis by simp
      next
        assume "ongoingRides w k = Some q"
        with assms(1) have "ride_ready w q" by (simp add: registry_ready_def)
        then show ?thesis using ext by (rule ride_ready_extends)
      qed
    qed
  qed
qed

lemma completeRide_registry:
  assumes "registry_ready w" and "completeRide rideId w = Inr w'"
  shows "registry_ready w'"
proof (cases "ongoingRides w rideId")
  case None
  with assms(2) have w': "w' = cout (RideNotFound rideId) w"
    by (simp add: completeRide_def)
  have ext: "extends w w'"
    by (auto simp: w' cout_def extends_def)
  have sub: "\<forall>k q. ongoingRides w' k = Some q \<longrightarrow> ongoingRides w k = Some q"
    by (simp add: w' cout_def)
  from assms(1) ext sub show ?thesis by (rule registry_ready_extends)
next
  case (Some p)
  from completeRide_result [OF assms(2) Some] obtain c f out where p: "p < length (rides w)"
    and c: "c < length (drivers w)"
    and w': "w' = w\<lparr>rides := (rides w)[p := (rides w ! p)
                          \<lparr>ride_status := COMPLETED, fare := f, paid := True\<rparr>],
              console := console w @ out,
              drivers := (drivers w)[c := (drivers w ! c)\<lparr>driver_status := AVAILABLE\<rparr>],
              availableDrivers := availableDrivers w @ [c],
              ongoingRides := (ongoingRides w)(rideId := None),
              completedRides := completedRides w @ [p]\<rparr>"
    by blast
  have ext: "extends w w'"
    by (auto simp: w' extends_def nth_list_update_any)
  have sub: "\<forall>k q. ongoingRides w' k = Some q \<longrightarrow> ongoingRides w k = Some q"
    by (simp add: w')
  from assms(1) ext sub show ?thesis by (rule registry_ready_extends)
qed

lemma updateRideStatus_registry:
  assumes "registry_ready w" and "updateRideStatus rideId s w = Inr w'"
  shows "registry_ready w'"
proof (cases "ongoingRides w rideId")
  case None
  with assms(2) have w': "w' = cout (RideNotFound rideId) w"
    by (simp add: updateRideStatus_def)
  have ext: "extends w w'"
    by (auto simp: w' cout_def extends_def)
  have sub: "\<forall>k q. ongoingRides w' k = Some q \<longrightarrow> ongoingRides w k = Some q"
    by (simp add: w' cout_def)
  from assms(1) ext sub show ?thesis by (rule registry_ready_extends)
next
  case (Some p)
  with assms(2) have "updateStatus p s w = Inr w'"
    by (simp add: updateRideStatus_def)
  from updateStatus_result [OF this] obtain out where
    w': "w' = w\<lparr>rides := (rides w)[p := (rides w ! p)\<lparr>ride_status := s\<rparr>],
            console := console w @ out\<rparr>"
    by blast
  have ext: "extends w w'"
    by (auto simp: w' extends_def nth_list_update_any)
  have sub: "\<forall>k q. ongoingRides w' k = Some q \<longrightarrow> ongoingRides w k = Some q"
    by (simp add: w')
  from assms(1) ext sub show ?thesis by (rule registry_ready_extends)
qed

lemma step_registry_ready:
  assumes "registry_ready w" and "step op w = Inr w'"
  shows "registry_ready w'"
proof (cases op)
  case (NewDriver n p v loc r)
  with assms(2) have w': "w' = w\<lparr>idCounter := idCounter w + 1,
      drivers := drivers w @ [\<lparr>user_id = idCounter w + 1, name = n, phone = p, vehicle = v,
        driver_location = loc, driver_status = AVAILABLE, rating = r\<rparr>]\<rparr>"
    by (auto simp: new_Driver_def fbind_Inr_iff Let_def split: if_splits)
  have ext: "extends w w'"
    by (auto simp: w' extends_def nth_append)
  have sub: "\<forall>k q. ongoingRides w' k = Some q \<longrightarrow> ongoingRides w k = Some q"
    by (simp add: w')
  from assms(1) ext sub show ?thesis by (rule registry_ready_extends)
next
  case (NewRider n p loc)
  with assms(2) have w': "w' = w\<lparr>idCounter := idCounter w + 1,
      riders := riders w @ [\<lparr>user_id = idCounter w + 1, name = n, phone = p,
        rider_location = loc, rideHistory = [], discountAmount = 0\<rparr>]\<rparr>"
    by (auto simp: new_Rider_def fbind_Inr_iff Let_def split: if_splits)
  have ext: "extends w w'"
    by (auto simp: w' extends_def)
  have sub: "\<forall>k q. ongoingRides w' k = Some q \<longrightarrow> ongoingRides w k = Some q"
    by (simp add: w')
  from assms(1) ext sub show ?thesis by (rule registry_ready_extends)
next
  case (SetDiscountAmount r amt)
  with assms(2) have w': "w' = w\<lparr>riders := (riders w)[r := (riders w ! r)\<lparr>discountAmount := amt\<rparr>]\<rparr>"
    by (auto simp: setDiscountAmount_def fbind_Inr_iff deref_Inr_iff)
  have ext: "extends w w'"
    by (auto simp: w' extends_def)
  have sub: "\<forall>k q. ongoingRides w' k = Some q \<longrightarrow> ongoingRides w k = Some q"
    by (simp add: w')
  from assms(1) ext sub show ?thesis by (rule registry_ready_extends)
next
  case (SetMatchingStrategy s)
  with assms(2) have w': "w' = setMatchingStrategy s w" by simp
  have ext: "extends w w'"
    by (auto simp: w' extends_def setMatchingStrategy_def)
  have sub: "\<forall>k q. ongoingRides w' k = Some q \<longrightarrow> ongoingRides w k = Some q"
    by (simp add: w' setMatchingStrategy_def)
  from assms(1) ext sub show ?thesis by (rule registry_ready_extends)
next
  case (ActivateSurge m)
  with assms(2) have w': "w' = activateSurge m w" by simp
  have ext: "extends w w'"
    by (auto simp: w' extends_def activateSurge_def)
  have sub: "\<forall>k q. ongoingRides w' k = Some q \<longrightarrow> ongoingRides w k = Some q"
    by (simp add: w' activateSurge_def)
  from assms(1) ext sub show ?thesis by (rule registry_ready_extends)
next
  case DeactivateSurge
  with assms(2) have w': "w' = deactivateSurge w" by simp
  have ext: "extends w w'"
    by (auto simp: w' extends_def deactivateSurge_def)
  have sub: "\<forall>k q. ongoingRides w' k = Some q \<longrightarrow> ongoingRides w k = Some q"
    by (simp add: w' deactivateSurge_def)
  from assms(1) ext sub show ?thesis by (rule registry_ready_extends)
next
  case (RegisterDriver d)
  with assms(2) obtain line where
    w': "w' = w\<lparr>drivers := (drivers w)[d := (drivers w ! d)\<lparr>driver_status := AVAILABLE\<rparr>],
               availableDrivers := availableDrivers w @ [d],
               console := console w @ [DriverRegistered line]\<rparr>"
    by (auto simp: registerDriver_Inr_iff)
  have ext: "extends w w'"
    by (auto simp: w' extends_def nth_list_update_any)
  have sub: "\<forall>k q. ongoingRides w' k = Some q \<longrightarrow> ongoingRides w k = Some q"
    by (simp add: w')
  from assms(1) ext sub show ?thesis by (rule registry_ready_extends)
next
  case (DeregisterDriver d)
  with assms(2) obtain line where
    w': "w' = w\<lparr>drivers := (drivers w)[d := (drivers w ! d)\<lparr>driver_status := OFFLINE\<rparr>],
               availableDrivers := removeAll d (availableDrivers w),
               console := console w @ [DriverDeregistered line]\<rparr>"
    by (auto simp: deregisterDriver_Inr_iff)
  have ext: "extends w w'"
    by (auto simp: w' extends_def nth_list_update_any)
  have sub: "\<forall>k q. ongoingRides w' k = Some q \<longrightarrow> ongoingRides w k = Some q"
    by (simp add: w')
  from assms(1) ext sub show ?thesis by (rule registry_ready_extends)
next
  case (RequestRide r p d t)
  with assms(2) obtain ride where "requestRide r p d t w = Inr (ride, w')"
    by (auto simp: fbind_Inr_iff)
  with assms(1) show ?thesis by (rule requestRide_registry)
next
  case (UpdateRideStatus rideId s)
  with assms(2) have "updateRideStatus rideId s w = Inr w'" by simp
  with assms(1) show ?thesis by (rule updateRideStatus_registry)
next
  case (CompleteRide rideId)
  with assms(2) have "completeRide rideId w = Inr w'" by simp
  with assms(1) show ?thesis by (rule completeRide_registry)
qed

lemma run_registry_ready:
  "registry_ready w \<Longrightarrow> run ops w = Inr w' \<Longrightarrow> registry_ready w'"
proof (induction ops arbitrary: w)
  case Nil
  then show ?case by simp
next
  case (Cons op ops)
  from Cons.prems(2) obtain w1 where s: "step op w = Inr w1" and r: "run ops w1 = Inr w'"
    by (auto split: sum.splits)
  from step_registry_ready [OF Cons.prems(1) s] have "registry_ready w1" .
  from Cons.IH [OF this r] show ?case .
qed

lemma reachable_registry_ready:
  assumes "run ops World0 = Inr w" and "ongoingRides w rideId = Some p"
  shows "ride_ready w p"
proof -
  have "registry_ready World0" by (simp add: registry_ready_def World0_def)
  from run_registry_ready [OF this assms(1)] assms(2) show ?thesis
    by (simp add: registry_ready_def)
qed

section \<open>The run of main\<close>

text \<open>The first request of \<open>main\<close> is matched by distance. The coordinates are decimal
  fractions, which no double represents exactly; the distances the search computes for
  Alice and Bob are enclosed here: Alice's is below \<open>1927 * 2 ^ -20\<close> and Bob's above
  \<open>4093 * 2 ^ -20\<close>.\<close>

lemma main_distance_alice:
  "bounded (- 20) 1923 1927
     (distanceTo_binary64 \<lparr>latitude = 12.9716, longitude = 77.5946\<rparr>
        \<lparr>latitude = 12.9725, longitude = 77.5930\<rparr>)"
proof -
  have c: "bounded (- 20) 13601708 13601709 (binary64 12.9716)"
    "bounded (- 20) 81363835 81363836 (binary64 77.5946)"
    "bounded (- 20) 13602652 13602653 (binary64 12.9725)"
    "bounded (- 20) 81362157 81362158 (binary64 77.5930)"
    by (rule bounded_binary64; simp)+
  have "bounded (- 20) (13601708 - 13602653) (13601709 - 13602652)
      (double_minus (binary64 12.9716) (binary64 12.9725))"
    by (rule bounded_minus [OF c(1) c(3)]) simp_all
  then have dx: "bounded (- 20) (- 945) (- 943)
      (double_minus (binary64 12.9716) (binary64 12.9725))"
    by simp
  have "bounded (- 20) (81363835 - 81362158) (81363836 - 81362157)
      (double_minus (binary64 77.5946) (binary64 77.5930))"
    by (rule bounded_minus [OF c(2) c(4)]) simp_all
  then have dy: "bounded (- 20) 1677 1679
      (double_minus (binary64 77.5946) (binary64 77.5930))"
    by simp
  note sx = bounded_square_neg [OF dx]
  note sy = bounded_square_pos [OF dy]
  have "bounded (2 * - 20) (- 943 * - 943 + 1677 * 1677) (- 945 * - 945 + 1679 * 1679)
      (double_plus
        (double_times (double_minus (binary64 12.9716) (binary64 12.9725))
          (double_minus (binary64 12.9716) (binary64 12.9725)))
        (double_times (double_minus (binary64 77.5946) (binary64 77.5930))
          (double_minus (binary64 77.5946) (binary64 77.5930))))"
    by (rule bounded_plus [OF sx sy]) simp_all
  then show ?thesis
    unfolding distanceTo_binary64_def Let_def Location.simps
    by (rule bounded_sqrt) simp_all
qed

lemma main_distance_bob:
  "bounded (- 20) 4093 4097
     (distanceTo_binary64 \<lparr>latitude = 12.9750, longitude = 77.5900\<rparr>
        \<lparr>latitude = 12.9725, longitude = 77.5930\<rparr>)"
proof -
  have c: "bounded (- 20) 13605273 13605274 (binary64 12.9750)"
    "bounded (- 20) 81359011 81359012 (binary64 77.5900)"
    "bounded (- 20) 13602652 13602653 (binary64 12.9725)"
    "bounded (- 20) 81362157 81362158 (binary64 77.5930)"
    by (rule bounded_binary64; simp)+
  have "bounded (- 20) (13605273 - 13602653) (13605274 - 13602652)
      (double_minus (binary64 12.9750) (binary64 12.9725))"
    by (rule bounded_minus [OF c(1) c(3)]) simp_all
  then have dx: "bounded (- 20) 2620 2622
      (double_minus (binary64 12.9750) (binary64 12.9725))"
    by simp
  have "bounded (- 20) (81359011 - 81362158) (81359012 - 81362157)
      (double_minus (binary64 77.5900) (binary64 77.5930))"
    by (rule bounded_minus [OF c(2) c(4)]) simp_all
  then have dy: "bounded (- 20) (- 3147) (- 3145)
      (double_minus (binary64 77.5900) (binary64 77.5930))"
    by simp
  note sx = bounded_square_pos [OF dx]
  note sy = bounded_square_neg [OF dy]
  have "bounded (2 * - 20) (2620 * 2620 + - 3145 * - 3145) (2622 * 2622 + - 3147 * - 3147)
      (double_plus
        (double_times (double_minus (binary64 12.9750) (binary64 12.9725))
          (double_minus (binary64 12.9750) (binary64 12.9725)))
        (double_times (double_minus (binary64 77.5900) (binary64 77.5930))
          (double_minus (binary64 77.5900) (binary64 77.5930))))"
    by (rule bounded_plus [OF sx sy]) simp_all
  then show ?thesis
    unfolding distanceTo_binary64_def Let_def Location.simps
    by (rule bounded_sqrt) simp_all
qed

text \<open>\<open>main\<close> runs without a fault. Alice, the nearest sedan, drives the first ride and
  Charlie, the only SUV, the second; both rides end completed, paid and archived, and all
  four drivers are back in the pool.\<close>

lemmas model_defs = fbind_def deref_def cout_def new_Driver_def new_Rider_def createRide_def
  setStatus_def driver_line_def addRideToHistory_def setDiscountAmount_def attachObserver_def
  notifyObservers_def updateStatus_def assignDriver_def setFare_def setPaid_def
  registerDriver_def deregisterDriver_def requestRide_def updateRideStatus_def completeRide_def
  setMatchingStrategy_def activateSurge_def deactivateSurge_def World0_def INT_MAX_def
  to_string_def hasDiscount_def BASE_FARE_def distanceTo_def Let_def

lemma main_runs:
  "\<exists>w. run main_program World0 = Inr w \<and>
     availableDrivers w = [1, 3, 0, 2] \<and>
     ongoingRides w = Map.empty \<and>
     completedRides w = [0, 1] \<and>
     map ride_driver (rides w) = [Some 0, Some 2] \<and>
     map ride_status (rides w) = [COMPLETED, COMPLETED] \<and>
     map paid (rides w) = [True, True] \<and>
     map driver_status (drivers w) = [AVAILABLE, AVAILABLE, AVAILABLE, AVAILABLE]"
proof -
  from main_distance_alice obtain a
    where a: "distanceTo_binary64 \<lparr>latitude = 12.9716, longitude = 77.5946\<rparr>
        \<lparr>latitude = 12.9725, longitude = 77.5930\<rparr> = Finite a"
      "a \<le> 1927 * 2 powi (- 20)"
    by (auto simp: bounded_iff simp del: power_int_numeral_neg_numeral)
  from main_distance_bob obtain b
    where b: "distanceTo_binary64 \<lparr>latitude = 12.9750, longitude = 77.5900\<rparr>
        \<lparr>latitude = 12.9725, longitude = 77.5930\<rparr> = Finite b"
      "4093 * 2 powi (- 20) \<le> b"
    by (auto simp: bounded_iff simp del: power_int_numeral_neg_numeral)
  have "(0::real) < 2 powi (- 20)" by (rule zero_less_power_int) simp
  then have nb: "\<not> b < a" using a(2) b(2) by linarith
  show ?thesis
    using a(1) b(1) nb
    by (simp add: main_program_def model_defs digits_one digits_two)
qed

end
